theory Spec2Isabelle
  imports Complex_Main
begin

section \<open>Numbers\<close>

text \<open>
  The engine (class \<open>GlitchText\<close>) computes with JavaScript numbers on the CPU and with
  GLSL floats in the fragment shader.  The timeline and the shader are modelled over the
  real numbers: there rounding, infinities and NaN are not represented, and a quotient
  of the source is a number only when its divisor is not 0; a theorem that rests on the
  value of such a quotient says so in its hypotheses (the total duration is not 0), or
  has hypotheses under which the divisor cannot be 0 (a flip phase is active).  Two
  places are modelled more closely.  The quotient \<open>totalElapsedTime / totalDuration\<close>
  of \<open>animate\<close> is given a second time as JavaScript evaluates it, where \<open>0 / 0\<close> is
  \<open>NaN\<close>.  The presence scan turns a product into a pixel position with
  \<open>Math.floor\<close>, so the last bit of the product decides; its products and quotients
  are rounded to double precision, as JavaScript rounds them.  A two-component value
  (\<open>{x, y}\<close>, \<open>THREE.Vector2\<close>, \<open>vec2\<close>) is a pair.
\<close>

type_synonym vec2 = "real \<times> real"

subsection \<open>Double precision\<close>

text \<open>
  A JavaScript number is an IEEE 754 binary64 value: a sign, a significand of 53 bits
  and an exponent from -1022 to 1023.  \<open>pow2 k\<close> is \<open>2\<close> to the power \<open>k\<close>;
  \<open>exponent v\<close> is the \<open>e\<close> with \<open>2^e \<le> |v| < 2^(e+1)\<close>, found by halving a value from 2
  on and doubling a value below 1.
\<close>

definition pow2 :: "int \<Rightarrow> real" where
  "pow2 k = (if 0 \<le> k then 2 ^ nat k else 1 / 2 ^ nat (- k))"

function exponent_up :: "real \<Rightarrow> nat" where
  "exponent_up v = (if 2 \<le> v then Suc (exponent_up (v / 2)) else 0)"
  by pat_completeness auto
termination
proof (relation "measure (\<lambda>v. nat \<lfloor>v\<rfloor>)")
  show "wf (measure (\<lambda>v::real. nat \<lfloor>v\<rfloor>))" by simp
next
  fix v :: real
  assume v: "2 \<le> v"
  have "v / 2 \<le> v - 1" using v by simp
  then have "\<lfloor>v / 2\<rfloor> \<le> \<lfloor>v - 1\<rfloor>" by (rule floor_mono)
  also have "\<dots> = \<lfloor>v\<rfloor> - 1" by simp
  finally have "\<lfloor>v / 2\<rfloor> < \<lfloor>v\<rfloor>" by simp
  moreover from v have "0 < \<lfloor>v\<rfloor>" by simp
  ultimately show "(v / 2, v) \<in> measure (\<lambda>v. nat \<lfloor>v\<rfloor>)" by simp
qed

function exponent_down :: "real \<Rightarrow> nat" where
  "exponent_down v = (if 0 < v \<and> v < 1 then Suc (exponent_down (2 * v)) else 0)"
  by pat_completeness auto
termination
proof (relation "measure (\<lambda>v. nat \<lceil>1 / v\<rceil>)")
  show "wf (measure (\<lambda>v::real. nat \<lceil>1 / v\<rceil>))" by simp
next
  fix v :: real
  assume v: "0 < v \<and> v < 1"
  then have one: "1 < 1 / v" by simp
  then have c: "2 \<le> \<lceil>1 / v\<rceil>" by linarith
  have "1 / (2 * v) = (1 / v) / 2" by simp
  also have "\<dots> \<le> of_int \<lceil>1 / v\<rceil> / 2" by (simp add: divide_right_mono)
  also have "\<dots> \<le> of_int (\<lceil>1 / v\<rceil> - 1)" using c by simp
  finally have "1 / (2 * v) \<le> of_int (\<lceil>1 / v\<rceil> - 1)" .
  then have "\<lceil>1 / (2 * v)\<rceil> \<le> \<lceil>1 / v\<rceil> - 1" by (rule ceiling_le)
  with c have "nat \<lceil>1 / (2 * v)\<rceil> < nat \<lceil>1 / v\<rceil>" by linarith
  then show "(2 * v, v) \<in> measure (\<lambda>v. nat \<lceil>1 / v\<rceil>)" by simp
qed

definition exponent :: "real \<Rightarrow> int" where
  "exponent v =
     (if 1 \<le> \<bar>v\<bar> then int (exponent_up \<bar>v\<bar>) else - int (exponent_down \<bar>v\<bar>))"

text \<open>
  Rounding to the nearest whole number, to the even one of two that are equally near.
\<close>

definition round_half_even :: "real \<Rightarrow> int" where
  "round_half_even v =
     (let f = \<lfloor>v\<rfloor>; r = v - of_int f
      in if r < 1 / 2 then f
         else if 1 / 2 < r then f + 1
         else if even f then f else f + 1)"

text \<open>
  \<open>to_double v\<close> is the binary64 value nearest to the real number \<open>v\<close>, the one with
  the even significand when two are equally near: the result JavaScript gives an
  arithmetic operation whose exact result is \<open>v\<close>.  \<open>quantum v\<close> is the distance
  between neighbouring binary64 values around \<open>v\<close>, \<open>2^(e-52)\<close> for the exponent \<open>e\<close>
  of \<open>v\<close> and \<open>2^-1074\<close> below \<open>2^-1022\<close>.  A magnitude of \<open>2^1024\<close> or more, which
  JavaScript rounds to an infinity, is beyond any canvas size and is not represented.
\<close>

definition quantum :: "real \<Rightarrow> real" where
  "quantum v = pow2 (max (exponent v) (- 1022) - 52)"

definition to_double :: "real \<Rightarrow> real" where
  "to_double v =
     (if v = 0 then 0 else of_int (round_half_even (v / quantum v)) * quantum v)"

text \<open>The operators \<open>*\<close> and \<open>/\<close> of JavaScript on two numbers, the divisor not 0.\<close>

definition double_times :: "real \<Rightarrow> real \<Rightarrow> real" where
  "double_times v w = to_double (v * w)"

definition double_divide :: "real \<Rightarrow> real \<Rightarrow> real" where
  "double_divide v w = to_double (v / w)"

section \<open>Configuration\<close>

text \<open>
  \<open>GlitchTextConfig\<close>.  The optional properties \<open>tiles\<close> and \<open>tileDimensions\<close> are
  \<open>None\<close> when the property is missing or \<open>undefined\<close> (both are falsy in the checks
  of \<open>validateConfig\<close>; an object is always truthy).
\<close>

record GlitchTextConfig =
  textA :: string
  textB :: string
  textC :: string
  fontFamily :: string
  tiles :: "vec2 option"
  tileDimensions :: "vec2 option"
  initialWaitDuration :: real
  allTilesFlipDuration :: real
  singleTileFlipDuration :: real
  waitBetweenFlipsDuration :: real
  finalWaitDuration :: real
  invertThreshold :: real
  resizeDebounceMs :: real

text \<open>
  \<open>GlitchTextOptions\<close>: the keys of \<open>DEFAULTS\<close> are optional, the others keep the
  optionality they have in \<open>GlitchTextConfig\<close>.  An optional numeric or string property is
  \<open>None\<close> when the caller leaves it out (an explicit \<open>undefined\<close> there would give
  the merged record a value outside its declared type \<open>number\<close> or \<open>string\<close> and is
  not modelled).  For \<open>tileDimensions\<close>, which may be \<open>undefined\<close> in
  \<open>GlitchTextConfig\<close> too, the model keeps the
  three cases JavaScript distinguishes in an object spread: the property is not there
  (\<open>Absent\<close>), it is there with the value \<open>undefined\<close> (\<open>Undefined\<close>), or it holds an
  object (\<open>Present\<close>).
\<close>

datatype 'a property = Absent | Undefined | Present 'a

record GlitchTextOptions =
  o_textA :: string
  o_textB :: string
  o_textC :: string
  o_fontFamily :: "string option"
  o_tiles :: "vec2 option"
  o_tileDimensions :: "vec2 property"
  o_initialWaitDuration :: "real option"
  o_allTilesFlipDuration :: "real option"
  o_singleTileFlipDuration :: "real option"
  o_waitBetweenFlipsDuration :: "real option"
  o_finalWaitDuration :: "real option"
  o_invertThreshold :: "real option"
  o_resizeDebounceMs :: "real option"

text \<open>The constant \<open>DEFAULTS\<close>, one definition per key.\<close>

definition DEFAULTS_fontFamily :: string where
  "DEFAULTS_fontFamily = ''Cormorant Garamond''"

definition DEFAULTS_tileDimensions :: vec2 where
  "DEFAULTS_tileDimensions = (8, 8)"

definition DEFAULTS_initialWaitDuration :: real where
  "DEFAULTS_initialWaitDuration = 0.2"

definition DEFAULTS_allTilesFlipDuration :: real where
  "DEFAULTS_allTilesFlipDuration = 0.5"

definition DEFAULTS_singleTileFlipDuration :: real where
  "DEFAULTS_singleTileFlipDuration = 0.1"

definition DEFAULTS_waitBetweenFlipsDuration :: real where
  "DEFAULTS_waitBetweenFlipsDuration = 0.3"

definition DEFAULTS_finalWaitDuration :: real where
  "DEFAULTS_finalWaitDuration = 0.2"

definition DEFAULTS_invertThreshold :: real where
  "DEFAULTS_invertThreshold = 0.0"

definition DEFAULTS_resizeDebounceMs :: real where
  "DEFAULTS_resizeDebounceMs = 100"

text \<open>
  The object spread \<open>{ ...DEFAULTS, ...options }\<close> of the constructor: a property of
  \<open>options\<close> replaces the default whenever it is present, also when its value is
  \<open>undefined\<close>.
\<close>

definition spread_tileDimensions :: "vec2 property \<Rightarrow> vec2 option" where
  "spread_tileDimensions p =
     (case p of
        Absent \<Rightarrow> Some DEFAULTS_tileDimensions
      | Undefined \<Rightarrow> None
      | Present d \<Rightarrow> Some d)"

definition or_default :: "'a option \<Rightarrow> 'a \<Rightarrow> 'a" where
  "or_default v d = (case v of None \<Rightarrow> d | Some a \<Rightarrow> a)"

definition spread :: "GlitchTextOptions \<Rightarrow> GlitchTextConfig" where
  "spread options =
     \<lparr> textA = o_textA options,
       textB = o_textB options,
       textC = o_textC options,
       fontFamily = or_default (o_fontFamily options) DEFAULTS_fontFamily,
       tiles = o_tiles options,
       tileDimensions = spread_tileDimensions (o_tileDimensions options),
       initialWaitDuration =
         or_default (o_initialWaitDuration options) DEFAULTS_initialWaitDuration,
       allTilesFlipDuration =
         or_default (o_allTilesFlipDuration options) DEFAULTS_allTilesFlipDuration,
       singleTileFlipDuration =
         or_default (o_singleTileFlipDuration options) DEFAULTS_singleTileFlipDuration,
       waitBetweenFlipsDuration =
         or_default (o_waitBetweenFlipsDuration options) DEFAULTS_waitBetweenFlipsDuration,
       finalWaitDuration =
         or_default (o_finalWaitDuration options) DEFAULTS_finalWaitDuration,
       invertThreshold = or_default (o_invertThreshold options) DEFAULTS_invertThreshold,
       resizeDebounceMs = or_default (o_resizeDebounceMs options) DEFAULTS_resizeDebounceMs \<rparr>"

text \<open>The errors \<open>validateConfig\<close> throws, one constructor per \<open>throw\<close>, in source order.\<close>

datatype error =
    SingleTileExceedsAllTiles
  | AllTilesFlipNotPositive
  | SingleTileFlipNotPositive
  | InvertThresholdOutOfRange
  | TilesBelowOne
  | TileDimensionsNotPositive
  | BothTilesAndTileDimensions

definition tiles_below_one :: "vec2 option \<Rightarrow> bool" where
  "tiles_below_one t = (case t of None \<Rightarrow> False | Some c \<Rightarrow> fst c < 1 \<or> snd c < 1)"

definition tileDimensions_not_positive :: "vec2 option \<Rightarrow> bool" where
  "tileDimensions_not_positive t =
     (case t of None \<Rightarrow> False | Some d \<Rightarrow> fst d \<le> 0 \<or> snd d \<le> 0)"

definition validateConfig :: "GlitchTextConfig \<Rightarrow> error + unit" where
  "validateConfig config =
     (if singleTileFlipDuration config > allTilesFlipDuration config
        then Inl SingleTileExceedsAllTiles
      else if allTilesFlipDuration config \<le> 0 then Inl AllTilesFlipNotPositive
      else if singleTileFlipDuration config \<le> 0 then Inl SingleTileFlipNotPositive
      else if invertThreshold config < 0 \<or> invertThreshold config > 1
        then Inl InvertThresholdOutOfRange
      else if tiles_below_one (tiles config) then Inl TilesBelowOne
      else if tileDimensions_not_positive (tileDimensions config)
        then Inl TileDimensionsNotPositive
      else if tiles config \<noteq> None \<and> tileDimensions config \<noteq> None
        then Inl BothTilesAndTileDimensions
      else Inr ())"

section \<open>Host and engine state\<close>

text \<open>
  The canvas handed to the constructor; only its client size is read
  (\<open>getCanvasSize\<close>).
\<close>

record HTMLCanvasElement =
  clientWidth :: real
  clientHeight :: real

text \<open>
  The off-screen canvas \<open>createTextCanvas\<close> draws a text on.  Its pixels are the
  browser's rendering of the text and are not modelled here (the presence scan over a
  pixel array is modelled in its own section); the record keeps what the method was
  called with.  The device pixel ratio and the ink colour are left out.
\<close>

record text_canvas =
  canvas_text :: string
  canvas_width :: real
  canvas_height :: real
  canvas_fontSize :: real
  canvas_fontFamily :: string

text \<open>
  GPU resources are JavaScript objects; the model gives each one a number when it is
  created (its identity).  A \<open>THREE.CanvasTexture\<close> remembers its canvas, a
  \<open>THREE.DataTexture\<close> of \<open>createPresenceTexture\<close> its canvas and the tile grid it
  was computed for.
\<close>

datatype texture =
    CanvasTexture nat text_canvas
  | DataTexture nat text_canvas vec2

fun handle :: "texture \<Rightarrow> nat" where
  "handle (CanvasTexture i c) = i"
| "handle (DataTexture i c t) = i"

fun source_canvas :: "texture \<Rightarrow> text_canvas" where
  "source_canvas (CanvasTexture i c) = c"
| "source_canvas (DataTexture i c t) = c"

record Uniforms =
  uTime :: real
  uMorphProgress :: real
  uResolution :: vec2
  uTexA :: texture
  uTexB :: texture
  uTexC :: texture
  uPresenceA :: texture
  uPresenceB :: texture
  uPresenceC :: texture
  uTiles :: vec2
  uInitialWaitDuration :: real
  uAllTilesFlipDuration :: real
  uSingleTileFlipDuration :: real
  uWaitBetweenFlipsDuration :: real
  uFinalWaitDuration :: real
  uInvertThreshold :: real

text \<open>
  A pending \<open>setTimeout\<close> of \<open>resize\<close>: its id, the time it is due, and the
  \<open>width\<close> and \<open>height\<close> its callback has captured.
\<close>

record timer =
  timer_id :: nat
  timer_due :: real
  timer_width :: real
  timer_height :: real

text \<open>
  The host (the browser) as far as the engine uses it: the clock of
  \<open>performance.now()\<close> in milliseconds, the callbacks waiting for the next animation
  frame (by id; the callback is always \<open>this.animate\<close>), the pending timers, the next
  free id, and a record of every GPU resource created and of every call of
  \<open>dispose()\<close>, in order.
\<close>

record host =
  now :: real
  raf_queue :: "nat list"
  timers :: "timer list"
  next_id :: nat
  gpu_created :: "nat list"
  gpu_disposed :: "nat list"

text \<open>
  The fields of class \<open>GlitchText\<close>, on top of the host it runs in.  \<open>scene\<close> and
  \<open>camera\<close> hold no state the methods below read; \<open>renderer_size\<close> is what
  \<open>renderer.setSize\<close> has stored.
\<close>

record world = host +
  renderer :: nat
  renderer_size :: vec2
  uniforms :: Uniforms
  material :: nat
  mesh_geometry :: nat
  morphProgress :: real
  direction :: real
  totalElapsedTime :: real
  lastFrameTime :: real
  animationFrame :: "nat option"
  config :: GlitchTextConfig
  resizeTimeout :: "nat option"
  this_tiles :: vec2
  useTileDimensions :: bool

subsection \<open>Host operations\<close>

text \<open>
  Creating a GPU resource, asking for an animation frame and setting a timer each take
  the next free id; \<open>dispose\<close> records the call; \<open>cancelAnimationFrame\<close> and
  \<open>clearTimeout\<close> do nothing for an id that is not pending.
\<close>

definition new_gpu :: "'a host_scheme \<Rightarrow> nat \<times> 'a host_scheme" where
  "new_gpu h =
     (next_id h,
      h\<lparr>next_id := Suc (next_id h), gpu_created := gpu_created h @ [next_id h]\<rparr>)"

definition dispose :: "nat \<Rightarrow> 'a host_scheme \<Rightarrow> 'a host_scheme" where
  "dispose r h = h\<lparr>gpu_disposed := gpu_disposed h @ [r]\<rparr>"

definition requestAnimationFrame :: "'a host_scheme \<Rightarrow> nat \<times> 'a host_scheme" where
  "requestAnimationFrame h =
     (next_id h, h\<lparr>next_id := Suc (next_id h), raf_queue := raf_queue h @ [next_id h]\<rparr>)"

definition cancelAnimationFrame :: "nat \<Rightarrow> 'a host_scheme \<Rightarrow> 'a host_scheme" where
  "cancelAnimationFrame i h = h\<lparr>raf_queue := filter (\<lambda>j. j \<noteq> i) (raf_queue h)\<rparr>"

text \<open>A negative delay counts as zero, as in the browser.\<close>

definition setTimeout :: "real \<Rightarrow> real \<Rightarrow> real \<Rightarrow> 'a host_scheme \<Rightarrow> nat \<times> 'a host_scheme" where
  "setTimeout width height ms h =
     (next_id h,
      h\<lparr>next_id := Suc (next_id h),
        timers := timers h @
          [\<lparr>timer_id = next_id h, timer_due = now h + max 0 ms,
            timer_width = width, timer_height = height\<rparr>]\<rparr>)"

definition clearTimeout :: "nat \<Rightarrow> 'a host_scheme \<Rightarrow> 'a host_scheme" where
  "clearTimeout i h = h\<lparr>timers := filter (\<lambda>t. timer_id t \<noteq> i) (timers h)\<rparr>"

text \<open>The host a page starts with at clock reading \<open>t0\<close>; ids start at 1.\<close>

definition fresh_host :: "real \<Rightarrow> host" where
  "fresh_host t0 =
     \<lparr> now = t0, raf_queue = [], timers = [], next_id = 1,
       gpu_created = [], gpu_disposed = [] \<rparr>"

section \<open>The engine's methods\<close>

definition getCanvasSize :: "HTMLCanvasElement \<Rightarrow> vec2" where
  "getCanvasSize canvas = (clientWidth canvas, clientHeight canvas)"

definition calculateTiles :: "GlitchTextConfig \<Rightarrow> real \<Rightarrow> real \<Rightarrow> vec2" where
  "calculateTiles cfg width height =
     (case tiles cfg of
        Some t \<Rightarrow> t
      | None \<Rightarrow>
          (case tileDimensions cfg of
             Some d \<Rightarrow>
               (max 1 (of_int \<lfloor>width / fst d\<rfloor>), max 1 (of_int \<lfloor>height / snd d\<rfloor>))
           | None \<Rightarrow> (1, 1)))"

definition totalDuration :: "GlitchTextConfig \<Rightarrow> real" where
  "totalDuration cfg =
     initialWaitDuration cfg + allTilesFlipDuration cfg + waitBetweenFlipsDuration cfg +
     allTilesFlipDuration cfg + finalWaitDuration cfg"

definition getFontSize :: "real \<Rightarrow> real" where
  "getFontSize width = min (max 24 (width * 0.04375)) 96"

definition createTextCanvas :: "GlitchTextConfig \<Rightarrow> string \<Rightarrow> real \<Rightarrow> real \<Rightarrow> text_canvas" where
  "createTextCanvas cfg text width height =
     \<lparr> canvas_text = text, canvas_width = width, canvas_height = height,
       canvas_fontSize = getFontSize width, canvas_fontFamily = fontFamily cfg \<rparr>"

definition createTextCanvases ::
  "GlitchTextConfig \<Rightarrow> real \<Rightarrow> real \<Rightarrow> text_canvas \<times> text_canvas \<times> text_canvas" where
  "createTextCanvases cfg width height =
     (createTextCanvas cfg (textA cfg) width height,
      createTextCanvas cfg (textB cfg) width height,
      createTextCanvas cfg (textC cfg) width height)"

definition createTextTexture :: "text_canvas \<Rightarrow> 'a host_scheme \<Rightarrow> texture \<times> 'a host_scheme" where
  "createTextTexture canvas h = (let (i, h1) = new_gpu h in (CanvasTexture i canvas, h1))"

definition createPresenceTexture ::
  "vec2 \<Rightarrow> text_canvas \<Rightarrow> 'a host_scheme \<Rightarrow> texture \<times> 'a host_scheme" where
  "createPresenceTexture tls canvas h =
     (let (i, h1) = new_gpu h in (DataTexture i canvas tls, h1))"

definition createAllTextures ::
  "text_canvas \<times> text_canvas \<times> text_canvas \<Rightarrow> 'a host_scheme \<Rightarrow>
   (texture \<times> texture \<times> texture) \<times> 'a host_scheme" where
  "createAllTextures canvases h =
     (let (c0, c1, c2) = canvases;
          (t0, h1) = createTextTexture c0 h;
          (t1, h2) = createTextTexture c1 h1;
          (t2, h3) = createTextTexture c2 h2
      in ((t0, t1, t2), h3))"

definition createAllPresenceTextures ::
  "vec2 \<Rightarrow> text_canvas \<times> text_canvas \<times> text_canvas \<Rightarrow> 'a host_scheme \<Rightarrow>
   (texture \<times> texture \<times> texture) \<times> 'a host_scheme" where
  "createAllPresenceTextures tls canvases h =
     (let (c0, c1, c2) = canvases;
          (p0, h1) = createPresenceTexture tls c0 h;
          (p1, h2) = createPresenceTexture tls c1 h1;
          (p2, h3) = createPresenceTexture tls c2 h2
      in ((p0, p1, p2), h3))"

definition createUniforms ::
  "GlitchTextConfig \<Rightarrow> vec2 \<Rightarrow> texture \<times> texture \<times> texture \<Rightarrow>
   texture \<times> texture \<times> texture \<Rightarrow> real \<Rightarrow> real \<Rightarrow> Uniforms" where
  "createUniforms cfg tls textures presenceTextures width height =
     (let (t0, t1, t2) = textures; (p0, p1, p2) = presenceTextures in
      \<lparr> uTime = 0,
        uMorphProgress = 0,
        uResolution = (width, height),
        uTexA = t0, uTexB = t1, uTexC = t2,
        uPresenceA = p0, uPresenceB = p1, uPresenceC = p2,
        uTiles = tls,
        uInitialWaitDuration = initialWaitDuration cfg,
        uAllTilesFlipDuration = allTilesFlipDuration cfg,
        uSingleTileFlipDuration = singleTileFlipDuration cfg,
        uWaitBetweenFlipsDuration = waitBetweenFlipsDuration cfg,
        uFinalWaitDuration = finalWaitDuration cfg,
        uInvertThreshold = invertThreshold cfg \<rparr>)"

text \<open>
  The arrow function \<open>animate\<close>: it asks for the next frame first, reads the clock,
  and advances the timeline only when \<open>direction\<close> is not 0.  The draw call
  \<open>renderer.render\<close> changes nothing the model keeps.
\<close>

definition animate :: "world \<Rightarrow> world" where
  "animate s =
     (let (i, s1) = requestAnimationFrame s;
          s2 = s1\<lparr>animationFrame := Some i\<rparr>;
          currentTime = now s2;
          deltaTime = (currentTime - lastFrameTime s2) / 1000;
          s3 = s2\<lparr>lastFrameTime := currentTime\<rparr>;
          s4 = (if direction s3 \<noteq> 0 then
                  (let e = totalElapsedTime s3 + deltaTime * direction s3;
                       e' = max 0 (min (totalDuration (config s3)) e);
                       p = e' / totalDuration (config s3)
                   in s3\<lparr>totalElapsedTime := e', morphProgress := p,
                          uniforms := (uniforms s3)\<lparr>uMorphProgress := p\<rparr>\<rparr>)
                else s3)
      in s4\<lparr>uniforms := (uniforms s4)\<lparr>uTime := uTime (uniforms s4) + 0.016\<rparr>\<rparr>)"

text \<open>
  The constructor.  \<open>validateConfig\<close> runs once, on the merged configuration, before
  anything is created; when it throws, the constructor throws and there is no engine.
  \<open>initRenderer\<close> creates the renderer, \<open>initResources\<close> the six textures, the
  uniforms, the material and the mesh with its geometry; the first \<open>animate()\<close> call ends
  the constructor.
\<close>

definition construct :: "real \<Rightarrow> HTMLCanvasElement \<Rightarrow> GlitchTextOptions \<Rightarrow> error + world" where
  "construct t0 canvas options =
     (let (width, height) = getCanvasSize canvas;
          cfg = spread options
      in case validateConfig cfg of
           Inl e \<Rightarrow> Inl e
         | Inr u \<Rightarrow>
             (let tls = calculateTiles cfg width height;
                  (rend, h1) = new_gpu (fresh_host t0);
                  canvases = createTextCanvases cfg width height;
                  (textures, h2) = createAllTextures canvases h1;
                  (presenceTextures, h3) = createAllPresenceTextures tls canvases h2;
                  unis = createUniforms cfg tls textures presenceTextures width height;
                  (mat, h4) = new_gpu h3;
                  (geo, h5) = new_gpu h4
              in Inr (animate
                   \<lparr> now = now h5, raf_queue = raf_queue h5, timers = timers h5,
                     next_id = next_id h5, gpu_created = gpu_created h5,
                     gpu_disposed = gpu_disposed h5,
                     renderer = rend,
                     renderer_size = (width, height),
                     uniforms = unis,
                     material = mat,
                     mesh_geometry = geo,
                     morphProgress = 0,
                     direction = 0,
                     totalElapsedTime = 0,
                     lastFrameTime = now h5,
                     animationFrame = None,
                     config = cfg,
                     resizeTimeout = None,
                     this_tiles = tls,
                     useTileDimensions = (tileDimensions cfg \<noteq> None) \<rparr>)))"

definition setHover :: "bool \<Rightarrow> world \<Rightarrow> world" where
  "setHover hover s =
     (let newDirection = (if hover then 1 else - 1) in
      if newDirection \<noteq> direction s then s\<lparr>direction := newDirection\<rparr> else s)"

definition updateTextures :: "real \<Rightarrow> real \<Rightarrow> world \<Rightarrow> world" where
  "updateTextures width height s =
     (let s1 = dispose (handle (uTexA (uniforms s))) s;
          s2 = dispose (handle (uTexB (uniforms s1))) s1;
          s3 = dispose (handle (uTexC (uniforms s2))) s2;
          s4 = dispose (handle (uPresenceA (uniforms s3))) s3;
          s5 = dispose (handle (uPresenceB (uniforms s4))) s4;
          s6 = dispose (handle (uPresenceC (uniforms s5))) s5;
          canvases = createTextCanvases (config s6) width height;
          (textures, s7) = createAllTextures canvases s6;
          (presenceTextures, s8) = createAllPresenceTextures (this_tiles s7) canvases s7;
          (t0, t1, t2) = textures;
          (p0, p1, p2) = presenceTextures
      in s8\<lparr>uniforms := (uniforms s8)
              \<lparr>uTexA := t0, uTexB := t1, uTexC := t2,
               uPresenceA := p0, uPresenceB := p1, uPresenceC := p2\<rparr>\<rparr>)"

text \<open>The callback \<open>resize\<close> hands to \<open>setTimeout\<close>, with the size it captured.\<close>

definition resize_callback :: "real \<Rightarrow> real \<Rightarrow> world \<Rightarrow> world" where
  "resize_callback width height s =
     (let s1 = (if useTileDimensions s then
                  (let t = calculateTiles (config s) width height in
                   s\<lparr>this_tiles := t, uniforms := (uniforms s)\<lparr>uTiles := t\<rparr>\<rparr>)
                else s)
      in updateTextures width height s1)"

text \<open>
  \<open>if (this.resizeTimeout)\<close> tests the stored id for truthiness: \<open>null\<close> and the
  number 0 are falsy.
\<close>

definition truthy :: "nat option \<Rightarrow> bool" where
  "truthy v = (case v of None \<Rightarrow> False | Some i \<Rightarrow> i \<noteq> 0)"

definition resize :: "real \<Rightarrow> real \<Rightarrow> world \<Rightarrow> world" where
  "resize width height s =
     (let s1 = s\<lparr>renderer_size := (width, height),
                 uniforms := (uniforms s)\<lparr>uResolution := (width, height)\<rparr>\<rparr>;
          s2 = (if truthy (resizeTimeout s1) then clearTimeout (the (resizeTimeout s1)) s1
                else s1);
          (i, s3) = setTimeout width height (resizeDebounceMs (config s2)) s2
      in s3\<lparr>resizeTimeout := Some i\<rparr>)"

definition destroy :: "world \<Rightarrow> world" where
  "destroy s =
     (let s1 = (case animationFrame s of
                  Some i \<Rightarrow> cancelAnimationFrame i s
                | None \<Rightarrow> s);
          s2 = (if truthy (resizeTimeout s1) then clearTimeout (the (resizeTimeout s1)) s1
                else s1);
          s3 = dispose (handle (uTexA (uniforms s2))) s2;
          s4 = dispose (handle (uTexB (uniforms s3))) s3;
          s5 = dispose (handle (uTexC (uniforms s4))) s4;
          s6 = dispose (handle (uPresenceA (uniforms s5))) s5;
          s7 = dispose (handle (uPresenceB (uniforms s6))) s6;
          s8 = dispose (handle (uPresenceC (uniforms s7))) s7;
          s9 = dispose (renderer s8) s8;
          s10 = dispose (material s9) s9
      in dispose (mesh_geometry s10) s10)"

subsection \<open>The host's event loop\<close>

text \<open>
  An animation frame at clock reading \<open>t\<close>: the host takes the callbacks queued so far
  and runs each one; every callback is \<open>animate\<close>.
\<close>

definition run_frame :: "real \<Rightarrow> world \<Rightarrow> world" where
  "run_frame t s =
     fold (\<lambda>i. animate) (raf_queue s) (s\<lparr>now := t, raf_queue := []\<rparr>)"

text \<open>
  Time passing until \<open>t\<close>: the timers due by then fire in the order of their due times
  (timers set earlier first among equals); a timer that fires is removed and its
  callback runs at its due time.  The callback of this engine neither sets nor clears a
  timer, so the timers due are known beforehand.
\<close>

definition fire :: "timer \<Rightarrow> world \<Rightarrow> world" where
  "fire tm s =
     resize_callback (timer_width tm) (timer_height tm)
       (s\<lparr>now := max (now s) (timer_due tm),
          timers := filter (\<lambda>t. timer_id t \<noteq> timer_id tm) (timers s)\<rparr>)"

definition advance_to :: "real \<Rightarrow> world \<Rightarrow> world" where
  "advance_to t s =
     (let due = sort_key timer_due (filter (\<lambda>tm. timer_due tm \<le> t) (timers s));
          s1 = fold fire due s
      in s1\<lparr>now := max (now s1) t\<rparr>)"

subsection \<open>The progress quotient as JavaScript evaluates it\<close>

text \<open>
  \<open>this.morphProgress = this.totalElapsedTime / this.totalDuration\<close> in \<open>animate\<close>.
  A JavaScript quotient has a value for every divisor: with the divisor 0 it is \<open>NaN\<close>
  when the dividend is 0 as well, and an infinity with the sign of the dividend
  otherwise (the divisor here is a sum with the positive term \<open>allTilesFlipDuration\<close>,
  and such a sum is never the negative zero).  \<open>animate\<close> above stores the real quotient,
  which is the JavaScript value as long as the total duration is not 0.
  \<open>animate_quotient s\<close> is the value the call \<open>animate\<close> in state \<open>s\<close> assigns to
  \<open>morphProgress\<close> when the direction is not 0, \<open>frame_progress t s\<close> the one the
  frame at clock reading \<open>t\<close> assigns.
\<close>

datatype number = Number real | PosInfinity | NegInfinity | NaN

definition number_divide :: "real \<Rightarrow> real \<Rightarrow> number" where
  "number_divide v w =
     (if w \<noteq> 0 then Number (v / w)
      else if v = 0 then NaN
      else if 0 < v then PosInfinity
      else NegInfinity)"

definition animate_quotient :: "world \<Rightarrow> number" where
  "animate_quotient s =
     (let currentTime = now s;
          deltaTime = (currentTime - lastFrameTime s) / 1000;
          e = totalElapsedTime s + deltaTime * direction s;
          e' = max 0 (min (totalDuration (config s)) e)
      in number_divide e' (totalDuration (config s)))"

definition frame_progress :: "real \<Rightarrow> world \<Rightarrow> number" where
  "frame_progress t s = animate_quotient (s\<lparr>now := t, raf_queue := []\<rparr>)"

text \<open>
  A JavaScript number lies in \<open>[0, 1]\<close>: every comparison with \<open>NaN\<close> is false.
\<close>

fun in_unit_interval :: "number \<Rightarrow> bool" where
  "in_unit_interval (Number v) \<longleftrightarrow> 0 \<le> v \<and> v \<le> 1"
| "in_unit_interval PosInfinity \<longleftrightarrow> False"
| "in_unit_interval NegInfinity \<longleftrightarrow> False"
| "in_unit_interval NaN \<longleftrightarrow> False"

section \<open>Options and canvas for examples\<close>

text \<open>Options that give explicit tile counts and say nothing about \<open>tileDimensions\<close>.\<close>

definition tiles_only_options :: GlitchTextOptions where
  "tiles_only_options =
     \<lparr> o_textA = ''a'', o_textB = ''b'', o_textC = ''c'', o_fontFamily = None,
       o_tiles = Some (4, 4), o_tileDimensions = Absent,
       o_initialWaitDuration = None, o_allTilesFlipDuration = None,
       o_singleTileFlipDuration = None, o_waitBetweenFlipsDuration = None,
       o_finalWaitDuration = None, o_invertThreshold = None, o_resizeDebounceMs = None \<rparr>"

definition small_canvas :: HTMLCanvasElement where
  "small_canvas = \<lparr> clientWidth = 64, clientHeight = 32 \<rparr>"

section \<open>The fragment shader\<close>

record vec4 =
  red :: real
  green :: real
  blue :: real
  alpha :: real

subsection \<open>GLSL built-in functions\<close>

text \<open>
  The built-ins the shader calls, as the GLSL specification defines them:
  \<open>step(edge, x)\<close> is 0 for \<open>x < edge\<close> and 1 otherwise; \<open>smoothstep\<close> is the Hermite
  interpolation of the clamped ratio; \<open>mix(x, y, a)\<close> is \<open>x * (1 - a) + y * a\<close> in each
  component; \<open>fract(x)\<close> is \<open>x - floor(x)\<close>.
\<close>

definition step :: "real \<Rightarrow> real \<Rightarrow> real" where
  "step edge v = (if v < edge then 0 else 1)"

definition clamp :: "real \<Rightarrow> real \<Rightarrow> real \<Rightarrow> real" where
  "clamp v lo hi = min (max v lo) hi"

definition smoothstep :: "real \<Rightarrow> real \<Rightarrow> real \<Rightarrow> real" where
  "smoothstep edge0 edge1 v =
     (let t = clamp ((v - edge0) / (edge1 - edge0)) 0 1 in t * t * (3 - 2 * t))"

definition mix1 :: "real \<Rightarrow> real \<Rightarrow> real \<Rightarrow> real" where
  "mix1 v w t = v * (1 - t) + w * t"

definition mix :: "vec4 \<Rightarrow> vec4 \<Rightarrow> real \<Rightarrow> vec4" where
  "mix v w t =
     \<lparr> red = mix1 (red v) (red w) t, green = mix1 (green v) (green w) t,
       blue = mix1 (blue v) (blue w) t, alpha = mix1 (alpha v) (alpha w) t \<rparr>"

definition fract :: "real \<Rightarrow> real" where
  "fract v = v - of_int \<lfloor>v\<rfloor>"

subsection \<open>The shader's own functions\<close>

definition random :: "vec2 \<Rightarrow> real" where
  "random st = fract (sin (fst st * 12.9898 + snd st * 78.233) * 43758.5453123)"

definition tileUV :: "Uniforms \<Rightarrow> vec2 \<Rightarrow> vec2" where
  "tileUV u uv =
     (of_int \<lfloor>fst uv * fst (uTiles u)\<rfloor> / fst (uTiles u),
      of_int \<lfloor>snd uv * snd (uTiles u)\<rfloor> / snd (uTiles u))"

definition presenceUV :: "Uniforms \<Rightarrow> vec2 \<Rightarrow> vec2" where
  "presenceUV u uv =
     ((of_int \<lfloor>fst uv * fst (uTiles u)\<rfloor> + 0.5) / fst (uTiles u),
      (of_int \<lfloor>snd uv * snd (uTiles u)\<rfloor> + 0.5) / snd (uTiles u))"

definition shader_totalDuration :: "Uniforms \<Rightarrow> real" where
  "shader_totalDuration u =
     uInitialWaitDuration u + 2.0 * uAllTilesFlipDuration u + uWaitBetweenFlipsDuration u +
     uFinalWaitDuration u"

definition initialWaitEnd :: "Uniforms \<Rightarrow> real" where
  "initialWaitEnd u = uInitialWaitDuration u / shader_totalDuration u"

definition flipABEnd :: "Uniforms \<Rightarrow> real" where
  "flipABEnd u = (uInitialWaitDuration u + uAllTilesFlipDuration u) / shader_totalDuration u"

definition waitBetweenEnd :: "Uniforms \<Rightarrow> real" where
  "waitBetweenEnd u =
     (uInitialWaitDuration u + uAllTilesFlipDuration u + uWaitBetweenFlipsDuration u) /
     shader_totalDuration u"

definition flipBCEnd :: "Uniforms \<Rightarrow> real" where
  "flipBCEnd u =
     (uInitialWaitDuration u + uAllTilesFlipDuration u + uWaitBetweenFlipsDuration u +
      uAllTilesFlipDuration u) / shader_totalDuration u"

text \<open>
  The \<open>if\<close>/\<open>else if\<close> chain of \<open>main\<close> picks one of five branches by comparing
  \<open>uMorphProgress\<close> with the four phase ends; \<open>phase_of\<close> names the branch taken.
\<close>

datatype phase = InitialWait | FlipAB | WaitBetween | FlipBC | FinalWait

definition phase_of :: "Uniforms \<Rightarrow> phase" where
  "phase_of u =
     (if uMorphProgress u < initialWaitEnd u then InitialWait
      else if uMorphProgress u < flipABEnd u then FlipAB
      else if uMorphProgress u < waitBetweenEnd u then WaitBetween
      else if uMorphProgress u < flipBCEnd u then FlipBC
      else FinalWait)"

text \<open>The phase-local progress the two flip branches compute.\<close>

definition phaseProgressAB :: "Uniforms \<Rightarrow> real" where
  "phaseProgressAB u =
     (uMorphProgress u - initialWaitEnd u) / (flipABEnd u - initialWaitEnd u)"

definition phaseProgressBC :: "Uniforms \<Rightarrow> real" where
  "phaseProgressBC u =
     (uMorphProgress u - waitBetweenEnd u) / (flipBCEnd u - waitBetweenEnd u)"

text \<open>
  The four lines both flip branches share: \<open>flipStartTime\<close>, \<open>flipWindowStart\<close>,
  \<open>flipWindowEnd\<close> and the \<open>smoothstep\<close>.
\<close>

definition tile_flipProgress :: "Uniforms \<Rightarrow> real \<Rightarrow> real \<Rightarrow> real" where
  "tile_flipProgress u noise phaseProgress =
     (let flipStartTime =
            noise * (uAllTilesFlipDuration u - uSingleTileFlipDuration u) /
            uAllTilesFlipDuration u;
          flipWindowStart = flipStartTime;
          flipWindowEnd = flipStartTime + uSingleTileFlipDuration u / uAllTilesFlipDuration u
      in smoothstep flipWindowStart flipWindowEnd phaseProgress)"

text \<open>
  The local variables a branch leaves behind.  The hold branches never assign
  \<open>hasTextTarget\<close>; its value is then indeterminate and the model takes it as the
  parameter \<open>uninit\<close>.  \<open>texture2D\<close>, the GPU's sampling of a texture at a coordinate, is
  a parameter as well.
\<close>

record locals =
  tex1 :: vec4
  tex2 :: vec4
  flipProgress :: real
  hasTextSource :: real
  hasTextTarget :: real

definition phase_branch ::
  "Uniforms \<Rightarrow> (texture \<Rightarrow> vec2 \<Rightarrow> vec4) \<Rightarrow> real \<Rightarrow> real \<Rightarrow> vec2 \<Rightarrow> locals" where
  "phase_branch u texture2D uninit noise vUv =
     (case phase_of u of
        InitialWait \<Rightarrow>
          \<lparr> tex1 = texture2D (uTexA u) vUv, tex2 = texture2D (uTexA u) vUv,
            flipProgress = 0.0,
            hasTextSource = red (texture2D (uPresenceA u) (presenceUV u vUv)),
            hasTextTarget = uninit \<rparr>
      | FlipAB \<Rightarrow>
          \<lparr> tex1 = texture2D (uTexA u) vUv, tex2 = texture2D (uTexB u) vUv,
            flipProgress = tile_flipProgress u noise (phaseProgressAB u),
            hasTextSource = red (texture2D (uPresenceA u) (presenceUV u vUv)),
            hasTextTarget = red (texture2D (uPresenceB u) (presenceUV u vUv)) \<rparr>
      | WaitBetween \<Rightarrow>
          \<lparr> tex1 = texture2D (uTexB u) vUv, tex2 = texture2D (uTexB u) vUv,
            flipProgress = 0.0,
            hasTextSource = red (texture2D (uPresenceB u) (presenceUV u vUv)),
            hasTextTarget = uninit \<rparr>
      | FlipBC \<Rightarrow>
          \<lparr> tex1 = texture2D (uTexB u) vUv, tex2 = texture2D (uTexC u) vUv,
            flipProgress = tile_flipProgress u noise (phaseProgressBC u),
            hasTextSource = red (texture2D (uPresenceB u) (presenceUV u vUv)),
            hasTextTarget = red (texture2D (uPresenceC u) (presenceUV u vUv)) \<rparr>
      | FinalWait \<Rightarrow>
          \<lparr> tex1 = texture2D (uTexC u) vUv, tex2 = texture2D (uTexC u) vUv,
            flipProgress = 0.0,
            hasTextSource = red (texture2D (uPresenceC u) (presenceUV u vUv)),
            hasTextTarget = uninit \<rparr>)"

definition invert ::
  "Uniforms \<Rightarrow> (texture \<Rightarrow> vec2 \<Rightarrow> vec4) \<Rightarrow> real \<Rightarrow> real \<Rightarrow> vec2 \<Rightarrow> real" where
  "invert u texture2D uninit noise vUv =
     (let l = phase_branch u texture2D uninit noise vUv;
          hasText = max (hasTextSource l) (hasTextTarget l)
      in step (uInvertThreshold u) noise * flipProgress l * hasText)"

text \<open>\<open>main\<close> from the point where \<open>noise\<close> is known, and \<open>main\<close> itself.\<close>

definition fragment ::
  "Uniforms \<Rightarrow> (texture \<Rightarrow> vec2 \<Rightarrow> vec4) \<Rightarrow> real \<Rightarrow> real \<Rightarrow> vec2 \<Rightarrow> vec4" where
  "fragment u texture2D uninit noise vUv =
     (let l = phase_branch u texture2D uninit noise vUv;
          source =
            (if invert u texture2D uninit noise vUv > 0.5
             then \<lparr> red = 0.0, green = 0.0, blue = 0.0, alpha = 1.0 - alpha (tex1 l) \<rparr>
             else tex1 l)
      in mix source (tex2 l) (flipProgress l))"

definition main :: "Uniforms \<Rightarrow> (texture \<Rightarrow> vec2 \<Rightarrow> vec4) \<Rightarrow> real \<Rightarrow> vec2 \<Rightarrow> vec4" where
  "main u texture2D uninit vUv = fragment u texture2D uninit (random (tileUV u vUv)) vUv"

section \<open>Reachable states\<close>

text \<open>
  The states a live engine can be in: the one the constructor returns, and every state
  that follows by a public method (\<open>setHover\<close>, \<open>resize\<close>) or by the host running an
  animation frame or letting time pass.
\<close>

inductive reachable :: "world \<Rightarrow> bool" where
  constructed: "construct t0 canvas options = Inr s \<Longrightarrow> reachable s"
| hovered: "reachable s \<Longrightarrow> reachable (setHover hover s)"
| resized: "reachable s \<Longrightarrow> reachable (resize width height s)"
| framed: "reachable s \<Longrightarrow> reachable (run_frame t s)"
| advanced: "reachable s \<Longrightarrow> reachable (advance_to t s)"

text \<open>The options with every optional property left out.\<close>

definition plain_options :: GlitchTextOptions where
  "plain_options =
     \<lparr> o_textA = ''a'', o_textB = ''b'', o_textC = ''c'', o_fontFamily = None,
       o_tiles = None, o_tileDimensions = Absent,
       o_initialWaitDuration = None, o_allTilesFlipDuration = None,
       o_singleTileFlipDuration = None, o_waitBetweenFlipsDuration = None,
       o_finalWaitDuration = None, o_invertThreshold = None, o_resizeDebounceMs = None \<rparr>"

text \<open>The engine built from them at clock reading 0.\<close>

definition plain_engine :: world where
  "plain_engine = (case construct 0 small_canvas plain_options of Inr s \<Rightarrow> s)"

text \<open>
  Options \<open>validateConfig\<close> accepts although a wait duration is negative: an initial
  wait of -1 with the other waits 0 (the total duration is \<open>-1 + 0.5 + 0 + 0.5 + 0 = 0\<close>),
  an initial wait of -1/4 (total 1.25), and a wait between the flips of -3 (total -1.6).
  Options with no initial wait at all (total 1.5).  And the engines built from them at
  clock reading 0.
\<close>

definition zero_total_options :: GlitchTextOptions where
  "zero_total_options =
     plain_options\<lparr>o_initialWaitDuration := Some (- 1),
                    o_waitBetweenFlipsDuration := Some 0,
                    o_finalWaitDuration := Some 0\<rparr>"

definition early_options :: GlitchTextOptions where
  "early_options = plain_options\<lparr>o_initialWaitDuration := Some (- 1 / 4)\<rparr>"

definition prompt_options :: GlitchTextOptions where
  "prompt_options = plain_options\<lparr>o_initialWaitDuration := Some 0\<rparr>"

definition negative_total_options :: GlitchTextOptions where
  "negative_total_options = plain_options\<lparr>o_waitBetweenFlipsDuration := Some (- 3)\<rparr>"

definition zero_total_engine :: world where
  "zero_total_engine = (case construct 0 small_canvas zero_total_options of Inr s \<Rightarrow> s)"

definition early_engine :: world where
  "early_engine = (case construct 0 small_canvas early_options of Inr s \<Rightarrow> s)"

definition prompt_engine :: world where
  "prompt_engine = (case construct 0 small_canvas prompt_options of Inr s \<Rightarrow> s)"

definition negative_total_engine :: world where
  "negative_total_engine =
     (case construct 0 small_canvas negative_total_options of Inr s \<Rightarrow> s)"

section \<open>The tile schedule as the specification words it\<close>

text \<open>
  The per-tile rule of the specification, written from its formulas: \<open>r\<close> is the tile's
  random value, \<open>p\<close> the phase-local progress.  The theorems compare the shader with it.
\<close>

definition spec_flipWindowStart :: "real \<Rightarrow> real \<Rightarrow> real \<Rightarrow> real" where
  "spec_flipWindowStart r allTilesFlip singleTileFlip =
     r * (allTilesFlip - singleTileFlip) / allTilesFlip"

definition spec_flipWindowEnd :: "real \<Rightarrow> real \<Rightarrow> real \<Rightarrow> real" where
  "spec_flipWindowEnd r allTilesFlip singleTileFlip =
     spec_flipWindowStart r allTilesFlip singleTileFlip + singleTileFlip / allTilesFlip"

definition spec_flipAmount :: "real \<Rightarrow> real \<Rightarrow> real \<Rightarrow> real \<Rightarrow> real" where
  "spec_flipAmount r allTilesFlip singleTileFlip p =
     smoothstep (spec_flipWindowStart r allTilesFlip singleTileFlip)
       (spec_flipWindowEnd r allTilesFlip singleTileFlip) p"

definition spec_invert :: "real \<Rightarrow> real \<Rightarrow> real \<Rightarrow> real \<Rightarrow> real \<Rightarrow> real" where
  "spec_invert threshold r flipAmount presenceSource presenceTarget =
     step threshold r * flipAmount * max presenceSource presenceTarget"

definition spec_inverted :: "vec4 \<Rightarrow> vec4" where
  "spec_inverted source = \<lparr> red = 0, green = 0, blue = 0, alpha = 1 - alpha source \<rparr>"

definition spec_color :: "real \<Rightarrow> real \<Rightarrow> vec4 \<Rightarrow> vec4 \<Rightarrow> vec4" where
  "spec_color invertAmount flipAmount source target =
     mix (if invertAmount > 0.5 then spec_inverted source else source) target flipAmount"

section \<open>A sampler for examples\<close>

text \<open>
  A \<open>texture2D\<close> for the examples: text textures are opaque white everywhere, presence
  textures read 0 everywhere (no tile has ink).
\<close>

fun inkless :: "texture \<Rightarrow> vec2 \<Rightarrow> vec4" where
  "inkless (CanvasTexture i c) uv = \<lparr> red = 1, green = 1, blue = 1, alpha = 1 \<rparr>"
| "inkless (DataTexture i c t) uv = \<lparr> red = 0, green = 0, blue = 0, alpha = 1 \<rparr>"

text \<open>The plain engine, hovered, one frame 200 ms after construction.\<close>

definition plain_engine_200 :: world where
  "plain_engine_200 = run_frame 200 (setHover True plain_engine)"

section \<open>Invariants of the engine\<close>

text \<open>
  The timeline fields of a live engine: \<open>totalElapsedTime\<close> is a value the clamp of
  \<open>animate\<close> leaves alone, \<open>morphProgress\<close> is its quotient by the total duration, and
  the uniforms hold that progress and the durations of the configuration.
\<close>

definition timeline_inv :: "world \<Rightarrow> bool" where
  "timeline_inv s \<longleftrightarrow>
     totalElapsedTime s = max 0 (min (totalDuration (config s)) (totalElapsedTime s)) \<and>
     morphProgress s = totalElapsedTime s / totalDuration (config s) \<and>
     uMorphProgress (uniforms s) = morphProgress s \<and>
     uInitialWaitDuration (uniforms s) = initialWaitDuration (config s) \<and>
     uAllTilesFlipDuration (uniforms s) = allTilesFlipDuration (config s) \<and>
     uSingleTileFlipDuration (uniforms s) = singleTileFlipDuration (config s) \<and>
     uWaitBetweenFlipsDuration (uniforms s) = waitBetweenFlipsDuration (config s) \<and>
     uFinalWaitDuration (uniforms s) = finalWaitDuration (config s) \<and>
     uInvertThreshold (uniforms s) = invertThreshold (config s) \<and>
     validateConfig (config s) = Inr ()"

text \<open>Exactly one frame callback is pending, and \<open>animationFrame\<close> holds its id.\<close>

definition raf_inv :: "world \<Rightarrow> bool" where
  "raf_inv s \<longleftrightarrow>
     animationFrame s \<noteq> None \<and>
     raf_queue s = (case animationFrame s of None \<Rightarrow> [] | Some i \<Rightarrow> [i])"

section \<open>Before and after the first hover call\<close>

text \<open>
  \<open>unhovered\<close>: the states of an engine on which \<open>setHover\<close> has not been called yet.
  \<open>leaving\<close>: the states after a first call \<open>setHover(false)\<close>, as long as every later
  hover call is \<open>setHover(false)\<close> again and the clock does not run backwards between
  frames.
\<close>

inductive unhovered :: "world \<Rightarrow> bool" where
  u_constructed: "construct t0 canvas options = Inr s \<Longrightarrow> unhovered s"
| u_resized: "unhovered s \<Longrightarrow> unhovered (resize width height s)"
| u_framed: "unhovered s \<Longrightarrow> unhovered (run_frame t s)"
| u_advanced: "unhovered s \<Longrightarrow> unhovered (advance_to t s)"

inductive leaving :: "world \<Rightarrow> bool" where
  l_first: "unhovered s \<Longrightarrow> leaving (setHover False s)"
| l_again: "leaving s \<Longrightarrow> leaving (setHover False s)"
| l_resized: "leaving s \<Longrightarrow> leaving (resize width height s)"
| l_framed: "leaving s \<Longrightarrow> lastFrameTime s \<le> t \<Longrightarrow> leaving (run_frame t s)"
| l_advanced: "leaving s \<Longrightarrow> leaving (advance_to t s)"

text \<open>The timeline rests at 0 with direction \<open>dir\<close>.\<close>

definition at_rest :: "real \<Rightarrow> world \<Rightarrow> bool" where
  "at_rest dir s \<longleftrightarrow>
     direction s = dir \<and> totalElapsedTime s = 0 \<and> morphProgress s = 0 \<and>
     uMorphProgress (uniforms s) = 0"

text \<open>
  A second sampler: every tile has ink (presence textures read 1), text A is opaque
  white and the other texts are opaque black.
\<close>

fun inked :: "texture \<Rightarrow> vec2 \<Rightarrow> vec4" where
  "inked (CanvasTexture i c) uv =
     (if canvas_text c = ''a'' then \<lparr> red = 1, green = 1, blue = 1, alpha = 1 \<rparr>
      else \<lparr> red = 0, green = 0, blue = 0, alpha = 1 \<rparr>)"
| "inked (DataTexture i c t) uv = \<lparr> red = 1, green = 0, blue = 0, alpha = 1 \<rparr>"

text \<open>
  The plain engine, hovered, one frame 325 ms after construction: a quarter of the way
  through the flip from A to B.
\<close>

definition plain_engine_325 :: world where
  "plain_engine_325 = run_frame 325 (setHover True plain_engine)"

text \<open>
  The plain engine, hovered, one frame 1125 ms after construction: a quarter of the way
  through the flip from B to C.  And the engine of 200 ms, left again, one frame later.
\<close>

definition plain_engine_1125 :: world where
  "plain_engine_1125 = run_frame 1125 (setHover True plain_engine)"

definition plain_engine_back :: world where
  "plain_engine_back = run_frame 300 (setHover False plain_engine_200)"

section \<open>The presence scan\<close>

text \<open>
  \<open>scanTileForText\<close> and the loops of \<open>createPresenceTexture\<close> over a pixel array.
  \<open>pixels\<close> is the \<open>Uint8ClampedArray\<close> of the canvas (four bytes per pixel, alpha
  last), \<open>canvasWidth\<close> and \<open>canvasHeight\<close> its integer size.  Tile counts and tile
  indices are natural numbers here, as \<open>calculateTiles\<close> computes them and as the size
  of \<open>presenceData\<close> presupposes.  The product \<open>tileX * tileWidth\<close> and the quotient
  \<open>width / this.tiles.x\<close> are rounded to double precision; sums and products of whole
  numbers (\<open>startX + Math.ceil(tileWidth)\<close>, the pixel index) are exact in JavaScript
  as long as they stay below \<open>2^53\<close>, and are integers here.

  Reading a JavaScript array outside its bounds yields \<open>undefined\<close>, and the test
  \<open>undefined > 0\<close> is false.  The model makes such a read visible instead: \<open>pixel_at\<close>
  is \<open>None\<close> there and the scan stops with \<open>None\<close>.  A result \<open>Some b\<close> therefore says
  that every index the scan has read lies inside the array.
\<close>

definition pixel_at :: "nat list \<Rightarrow> int \<Rightarrow> nat option" where
  "pixel_at pixels i =
     (if 0 \<le> i \<and> i < int (length pixels) then Some (pixels ! nat i) else None)"

text \<open>
  The index of the alpha byte of pixel \<open>(x, y)\<close>:
  \<open>index = (y * canvasWidth + x) * 4\<close> and then \<open>pixels[index + 3]\<close>.
\<close>

definition alpha_index :: "int \<Rightarrow> int \<Rightarrow> int \<Rightarrow> int" where
  "alpha_index canvasWidth x y = (y * canvasWidth + x) * 4 + 3"

text \<open>The inner loop \<open>for (let x = startX; x < endX; x++)\<close>, from \<open>x\<close> on.\<close>

function scan_row :: "nat list \<Rightarrow> int \<Rightarrow> int \<Rightarrow> int \<Rightarrow> int \<Rightarrow> bool option" where
  "scan_row pixels canvasWidth y x endX =
     (if x < endX then
        (case pixel_at pixels (alpha_index canvasWidth x y) of
           None \<Rightarrow> None
         | Some a \<Rightarrow>
             if a > 0 then Some True else scan_row pixels canvasWidth y (x + 1) endX)
      else Some False)"
  by pat_completeness auto
termination
  by (relation "measure (\<lambda>(pixels, canvasWidth, y, x, endX). nat (endX - x))") auto

text \<open>The outer loop \<open>for (let y = startY; y < endY; y++)\<close>, from \<open>y\<close> on.\<close>

function scan_rows :: "nat list \<Rightarrow> int \<Rightarrow> int \<Rightarrow> int \<Rightarrow> int \<Rightarrow> int \<Rightarrow> bool option" where
  "scan_rows pixels canvasWidth startX endX y endY =
     (if y < endY then
        (case scan_row pixels canvasWidth y startX endX of
           None \<Rightarrow> None
         | Some found \<Rightarrow>
             if found then Some True
             else scan_rows pixels canvasWidth startX endX (y + 1) endY)
      else Some False)"
  by pat_completeness auto
termination
  by (relation "measure (\<lambda>(pixels, canvasWidth, startX, endX, y, endY). nat (endY - y))") auto

definition scanTileForText ::
  "nat list \<Rightarrow> int \<Rightarrow> int \<Rightarrow> nat \<Rightarrow> nat \<Rightarrow> real \<Rightarrow> real \<Rightarrow> bool option" where
  "scanTileForText pixels canvasWidth canvasHeight tileX tileY tileWidth tileHeight =
     (let startX = \<lfloor>double_times (of_nat tileX) tileWidth\<rfloor>;
          startY = \<lfloor>double_times (of_nat tileY) tileHeight\<rfloor>;
          endX = min (startX + \<lceil>tileWidth\<rceil>) canvasWidth;
          endY = min (startY + \<lceil>tileHeight\<rceil>) canvasHeight
      in scan_rows pixels canvasWidth startX endX startY endY)"

text \<open>
  The two loops of \<open>createPresenceTexture\<close> that fill \<open>presenceData\<close>, from \<open>tileX\<close>
  and from \<open>tileY\<close> on; an assignment to a typed array outside its bounds does nothing,
  as \<open>list_update\<close> does.
\<close>

function fill_row ::
  "nat list \<Rightarrow> int \<Rightarrow> int \<Rightarrow> nat \<times> nat \<Rightarrow> real \<Rightarrow> real \<Rightarrow> nat \<Rightarrow> nat \<Rightarrow> nat list \<Rightarrow>
   nat list option" where
  "fill_row pixels width height tls tileWidth tileHeight tileY tileX presence =
     (if tileX < fst tls then
        (case scanTileForText pixels width height tileX tileY tileWidth tileHeight of
           None \<Rightarrow> None
         | Some hasText \<Rightarrow>
             fill_row pixels width height tls tileWidth tileHeight tileY (tileX + 1)
               (presence[tileY * fst tls + tileX := (if hasText then 255 else 0)]))
      else Some presence)"
  by pat_completeness auto
termination
  by (relation "measure (\<lambda>(pixels, width, height, tls, tileWidth, tileHeight, tileY, tileX,
        presence). fst tls - tileX)") auto

function fill_rows ::
  "nat list \<Rightarrow> int \<Rightarrow> int \<Rightarrow> nat \<times> nat \<Rightarrow> real \<Rightarrow> real \<Rightarrow> nat \<Rightarrow> nat list \<Rightarrow>
   nat list option" where
  "fill_rows pixels width height tls tileWidth tileHeight tileY presence =
     (if tileY < snd tls then
        (case fill_row pixels width height tls tileWidth tileHeight tileY 0 presence of
           None \<Rightarrow> None
         | Some presence' \<Rightarrow>
             fill_rows pixels width height tls tileWidth tileHeight (tileY + 1) presence')
      else Some presence)"
  by pat_completeness auto
termination
  by (relation "measure (\<lambda>(pixels, width, height, tls, tileWidth, tileHeight, tileY,
        presence). snd tls - tileY)") auto

text \<open>
  The array \<open>createPresenceTexture\<close> hands to the \<open>DataTexture\<close>: \<open>presenceData\<close>
  starts as zeros, \<open>tileWidth\<close> and \<open>tileHeight\<close> are the quotients of the canvas size
  by the tile counts.
\<close>

definition presenceData :: "nat list \<Rightarrow> int \<Rightarrow> int \<Rightarrow> nat \<times> nat \<Rightarrow> nat list option" where
  "presenceData pixels width height tls =
     (let presence = replicate (fst tls * snd tls) 0;
          tileWidth = double_divide (of_int width) (of_nat (fst tls));
          tileHeight = double_divide (of_int height) (of_nat (snd tls))
      in fill_rows pixels width height tls tileWidth tileHeight 0 presence)"

text \<open>
  The pixel rectangle of a tile along one axis.  \<open>cell_size\<close>, \<open>tile_start\<close> and
  \<open>tile_end\<close> are the cell size \<open>createPresenceTexture\<close> computes and the bounds
  \<open>scanTileForText\<close> computes from it, in double precision.  \<open>spec_tile_start\<close> and
  \<open>spec_tile_end\<close> are the bounds in the words of the specification,
  \<open>floor(tileIndex * cellSize)\<close> and
  \<open>min(ceil((tileIndex + 1) * cellSize), surfaceExtent)\<close>, over the real numbers.
\<close>

definition cell_size :: "int \<Rightarrow> nat \<Rightarrow> real" where
  "cell_size extent count = double_divide (of_int extent) (of_nat count)"

definition tile_start :: "nat \<Rightarrow> real \<Rightarrow> int" where
  "tile_start i cellSize = \<lfloor>double_times (of_nat i) cellSize\<rfloor>"

definition tile_end :: "nat \<Rightarrow> real \<Rightarrow> int \<Rightarrow> int" where
  "tile_end i cellSize extent = min (tile_start i cellSize + \<lceil>cellSize\<rceil>) extent"

definition spec_tile_start :: "nat \<Rightarrow> real \<Rightarrow> int" where
  "spec_tile_start i cellSize = \<lfloor>of_nat i * cellSize\<rfloor>"

definition spec_tile_end :: "nat \<Rightarrow> real \<Rightarrow> int \<Rightarrow> int" where
  "spec_tile_end i cellSize extent = min \<lceil>of_nat (i + 1) * cellSize\<rceil> extent"

text \<open>
  Pixel \<open>(x, y)\<close> lies in the array and has a non-zero alpha; some pixel of the
  rectangle \<open>[x0, x1) \<times> [y0, y1)\<close> has.
\<close>

definition ink_at :: "nat list \<Rightarrow> int \<Rightarrow> int \<Rightarrow> int \<Rightarrow> bool" where
  "ink_at pixels canvasWidth x y =
     (case pixel_at pixels (alpha_index canvasWidth x y) of
        None \<Rightarrow> False
      | Some a \<Rightarrow> a > 0)"

definition has_ink :: "nat list \<Rightarrow> int \<Rightarrow> int \<Rightarrow> int \<Rightarrow> int \<Rightarrow> int \<Rightarrow> bool" where
  "has_ink pixels canvasWidth x0 x1 y0 y1 \<longleftrightarrow>
     (\<exists>y \<in> {y0..<y1}. \<exists>x \<in> {x0..<x1}. ink_at pixels canvasWidth x y)"

text \<open>An index inside the pixel array.\<close>

definition in_array :: "nat list \<Rightarrow> int \<Rightarrow> bool" where
  "in_array pixels i \<longleftrightarrow> 0 \<le> i \<and> i < int (length pixels)"

text \<open>
  A surface 7 pixels wide and 1 pixel high whose only inked pixel is the one at
  \<open>x = 3\<close>, to be cut into 4 by 1 tiles (each 1.75 pixels wide).
\<close>

text \<open>
  The value \<open>createPresenceTexture\<close> stores for a tile whose scan has found ink or
  not, with the rectangle of \<open>scanTileForText\<close>.
\<close>

definition tile_has_ink :: "nat list \<Rightarrow> int \<Rightarrow> int \<Rightarrow> nat \<times> nat \<Rightarrow> nat \<Rightarrow> nat \<Rightarrow> bool" where
  "tile_has_ink pixels width height tls tileX tileY =
     has_ink pixels width
       (tile_start tileX (cell_size width (fst tls)))
       (tile_end tileX (cell_size width (fst tls)) width)
       (tile_start tileY (cell_size height (snd tls)))
       (tile_end tileY (cell_size height (snd tls)) height)"

text \<open>The same with the upper bounds of the specification's rectangle.\<close>

definition spec_tile_has_ink :: "nat list \<Rightarrow> int \<Rightarrow> int \<Rightarrow> nat \<times> nat \<Rightarrow> nat \<Rightarrow> nat \<Rightarrow> bool" where
  "spec_tile_has_ink pixels width height tls tileX tileY =
     has_ink pixels width
       (spec_tile_start tileX (of_int width / of_nat (fst tls)))
       (spec_tile_end tileX (of_int width / of_nat (fst tls)) width)
       (spec_tile_start tileY (of_int height / of_nat (snd tls)))
       (spec_tile_end tileY (of_int height / of_nat (snd tls)) height)"

definition one_dot :: "nat list" where
  "one_dot =
     [0, 0, 0, 0,  0, 0, 0, 0,  0, 0, 0, 0,  0, 0, 0, 255,
      0, 0, 0, 0,  0, 0, 0, 0,  0, 0, 0, 0]"

text \<open>
  A surface 30 pixels wide and 1 pixel high whose only inked pixel is the one at
  \<open>x = 14\<close> (its alpha byte has index \<open>14 * 4 + 3\<close>), to be cut into 22 by 1 tiles.
\<close>

definition dot_14 :: "nat list" where
  "dot_14 = (replicate 120 0)[59 := 255]"

section \<open>Resize bursts and teardown\<close>

text \<open>
  What happens to a live engine, each event with the clock reading at which it happens:
  a call of \<open>resize\<close>, an animation frame, or a call of \<open>setHover\<close>.  Time passes
  until the event (timers due by then fire), then the event runs.
\<close>

datatype event = Resize real real | Frame | Hover bool

fun run_event :: "real \<Rightarrow> event \<Rightarrow> world \<Rightarrow> world" where
  "run_event t (Resize width height) s = resize width height (advance_to t s)"
| "run_event t Frame s = run_frame t (advance_to t s)"
| "run_event t (Hover hover) s = setHover hover (advance_to t s)"

fun run_events :: "(real \<times> event) list \<Rightarrow> world \<Rightarrow> world" where
  "run_events [] s = s"
| "run_events ((t, e) # es) s = run_events es (run_event t e s)"

text \<open>
  The events after a \<open>resize\<close> call at time \<open>tr\<close> (the latest event so far being at
  \<open>tp\<close>) come in order of time, and each one, a further \<open>resize\<close> call or not, comes
  less than \<open>d\<close> milliseconds after the latest \<open>resize\<close> call before it.
\<close>

fun within_debounce :: "real \<Rightarrow> real \<Rightarrow> real \<Rightarrow> (real \<times> event) list \<Rightarrow> bool" where
  "within_debounce d tr tp [] = True"
| "within_debounce d tr tp ((t, Resize width height) # es) =
     (tp \<le> t \<and> t - tr < d \<and> within_debounce d t t es)"
| "within_debounce d tr tp ((t, Frame) # es) =
     (tp \<le> t \<and> t - tr < d \<and> within_debounce d tr t es)"
| "within_debounce d tr tp ((t, Hover hover) # es) =
     (tp \<le> t \<and> t - tr < d \<and> within_debounce d tr t es)"

text \<open>
  The time and the arguments of the last \<open>resize\<close> call of a run, \<open>c\<close> being those of
  the last one before the run.
\<close>

fun last_resize :: "real \<times> real \<times> real \<Rightarrow> (real \<times> event) list \<Rightarrow> real \<times> real \<times> real" where
  "last_resize c [] = c"
| "last_resize c ((t, Resize width height) # es) = last_resize (t, width, height) es"
| "last_resize c ((t, Frame) # es) = last_resize c es"
| "last_resize c ((t, Hover hover) # es) = last_resize c es"

text \<open>No pending timer is due by \<open>t\<close>.\<close>

definition none_due :: "real \<Rightarrow> world \<Rightarrow> bool" where
  "none_due t s = list_all (\<lambda>tm. t < timer_due tm) (timers s)"

text \<open>Every pending timer is the one \<open>resizeTimeout\<close> names, and ids are not 0.\<close>

definition timer_inv :: "world \<Rightarrow> bool" where
  "timer_inv s \<longleftrightarrow>
     0 < next_id s \<and>
     list_all (\<lambda>tm. resizeTimeout s = Some (timer_id tm) \<and> timer_id tm \<noteq> 0) (timers s)"

text \<open>
  The GPU resources the engine holds, in the order \<open>destroy\<close> disposes of them: the
  three text textures, the three presence textures, the renderer, the material and the
  geometry of the mesh.
\<close>

definition current_resources :: "world \<Rightarrow> nat list" where
  "current_resources s =
     [handle (uTexA (uniforms s)), handle (uTexB (uniforms s)), handle (uTexC (uniforms s)),
      handle (uPresenceA (uniforms s)), handle (uPresenceB (uniforms s)),
      handle (uPresenceC (uniforms s)),
      renderer s, material s, mesh_geometry s]"

text \<open>
  Every resource created so far is either disposed of or held, never both and never
  twice, and ids not yet given out are larger.
\<close>

definition gpu_inv :: "world \<Rightarrow> bool" where
  "gpu_inv s \<longleftrightarrow>
     distinct (gpu_disposed s @ current_resources s) \<and>
     set (gpu_created s) = set (gpu_disposed s @ current_resources s) \<and>
     list_all (\<lambda>r. r < next_id s) (gpu_created s)"

text \<open>The tile grid a presence texture was computed for.\<close>

fun texture_tiles :: "texture \<Rightarrow> vec2 option" where
  "texture_tiles (CanvasTexture i c) = None"
| "texture_tiles (DataTexture i c t) = Some t"

text \<open>The six textures bound to the uniforms, text textures first.\<close>

definition bound_textures :: "world \<Rightarrow> texture list" where
  "bound_textures s =
     [uTexA (uniforms s), uTexB (uniforms s), uTexC (uniforms s),
      uPresenceA (uniforms s), uPresenceB (uniforms s), uPresenceC (uniforms s)]"

text \<open>
  \<open>pending_after s0 t width height s\<close>: \<open>s\<close> is a state that a run of events has
  reached from \<open>s0\<close> in which the latest \<open>resize\<close> call, at time \<open>t\<close> with \<open>width\<close>
  and \<open>height\<close>, has its timer pending and no other timer is: nothing has been created
  or disposed of since \<open>s0\<close>, the textures and the tile grid are those of \<open>s0\<close>.
\<close>

definition pending_after :: "world \<Rightarrow> real \<Rightarrow> real \<Rightarrow> real \<Rightarrow> world \<Rightarrow> bool" where
  "pending_after s0 t width height s \<longleftrightarrow>
     map (\<lambda>tm. (timer_due tm, timer_width tm, timer_height tm)) (timers s) =
       [(t + max 0 (resizeDebounceMs (config s0)), width, height)] \<and>
     map (\<lambda>tm. Some (timer_id tm)) (timers s) = [resizeTimeout s] \<and>
     resizeTimeout s \<noteq> Some 0 \<and>
     0 < next_id s \<and>
     gpu_created s = gpu_created s0 \<and>
     gpu_disposed s = gpu_disposed s0 \<and>
     bound_textures s = bound_textures s0 \<and>
     uTiles (uniforms s) = uTiles (uniforms s0) \<and>
     uResolution (uniforms s) = (width, height) \<and>
     renderer_size s = (width, height) \<and>
     config s = config s0 \<and>
     this_tiles s = this_tiles s0 \<and>
     useTileDimensions s = useTileDimensions s0"

text \<open>
  A burst of three \<open>resize\<close> calls on the plain engine, 40 ms and 70 ms apart, with
  frames and a hover call in between, and the engine 100 ms after the last call.
\<close>

definition burst_tail :: "(real \<times> event) list" where
  "burst_tail =
     [(26, Frame), (50, Resize 120 60), (60, Hover True), (76, Frame),
      (120, Resize 200 100), (136, Frame)]"

definition after_burst :: world where
  "after_burst = advance_to 220 (run_events ((10, Resize 100 50) # burst_tail) plain_engine)"

section \<open>Verified properties\<close>

subsection \<open>Validation at construction\<close>

lemma construct_Inl_iff:
  "construct t0 canvas options = Inl e \<longleftrightarrow> validateConfig (spread options) = Inl e"
  by (simp add: construct_def Let_def split_def split: sum.splits)

lemma validateConfig_throws_iff:
  "(\<exists>e. validateConfig cfg = Inl e) \<longleftrightarrow>
     (singleTileFlipDuration cfg > allTilesFlipDuration cfg \<or>
      allTilesFlipDuration cfg \<le> 0 \<or>
      singleTileFlipDuration cfg \<le> 0 \<or>
      invertThreshold cfg < 0 \<or> invertThreshold cfg > 1 \<or>
      tiles_below_one (tiles cfg) \<or>
      tileDimensions_not_positive (tileDimensions cfg) \<or>
      (tiles cfg \<noteq> None \<and> tileDimensions cfg \<noteq> None))"
  by (simp add: validateConfig_def)

lemma validateConfig_both_modes:
  "tiles cfg \<noteq> None \<Longrightarrow> tileDimensions cfg \<noteq> None \<Longrightarrow> \<exists>e. validateConfig cfg = Inl e"
  by (simp add: validateConfig_def)

text \<open>
  Claim C6.  The constructor returns an error, and with it no engine at all, exactly
  when the merged configuration has \<open>singleTileFlipDuration > allTilesFlipDuration\<close>,
  or \<open>allTilesFlipDuration \<le> 0\<close>, or \<open>singleTileFlipDuration \<le> 0\<close>, or
  \<open>invertThreshold\<close> below 0 or above 1 (so 0 and 1 themselves are accepted), or tile
  counts below 1 in an axis, or tile dimensions that are not strictly positive in an
  axis, or both \<open>tiles\<close> and \<open>tileDimensions\<close>.  The configuration is validated by the
  one call of \<open>validateConfig\<close> in \<open>construct\<close>, before any resource is created.
\<close>

theorem construct_throws_iff:
  "(\<exists>e. construct t0 canvas options = Inl e) \<longleftrightarrow>
     (singleTileFlipDuration (spread options) > allTilesFlipDuration (spread options) \<or>
      allTilesFlipDuration (spread options) \<le> 0 \<or>
      singleTileFlipDuration (spread options) \<le> 0 \<or>
      invertThreshold (spread options) < 0 \<or> invertThreshold (spread options) > 1 \<or>
      (\<exists>c. tiles (spread options) = Some c \<and> (fst c < 1 \<or> snd c < 1)) \<or>
      (\<exists>d. tileDimensions (spread options) = Some d \<and> (fst d \<le> 0 \<or> snd d \<le> 0)) \<or>
      (tiles (spread options) \<noteq> None \<and> tileDimensions (spread options) \<noteq> None))"
  unfolding construct_Inl_iff validateConfig_throws_iff
  by (simp add: tiles_below_one_def tileDimensions_not_positive_def split: option.splits)

text \<open>
  Claim C7.  Options that give explicit tile counts and leave the property
  \<open>tileDimensions\<close> out never construct: the spread fills in the default
  \<open>tileDimensions = {x: 8, y: 8}\<close> and the last check of \<open>validateConfig\<close> fires (or an
  earlier one does).  Whenever construction succeeds with explicit tile counts, the
  options carry \<open>tileDimensions\<close> with the value \<open>undefined\<close>.
\<close>

theorem tiles_need_undefined_tileDimensions:
  assumes "o_tiles options = Some t"
  shows "(o_tileDimensions options = Absent \<longrightarrow> (\<exists>e. construct t0 canvas options = Inl e)) \<and>
         ((\<exists>s. construct t0 canvas options = Inr s) \<longrightarrow> o_tileDimensions options = Undefined)"
proof -
  have tl: "tiles (spread options) \<noteq> None"
    using assms by (simp add: spread_def)
  have fails: "\<exists>e. construct t0 canvas options = Inl e"
    if "o_tileDimensions options \<noteq> Undefined"
  proof -
    from that have "tileDimensions (spread options) \<noteq> None"
      by (cases "o_tileDimensions options") (simp_all add: spread_def spread_tileDimensions_def)
    with tl show ?thesis
      unfolding construct_Inl_iff by (rule validateConfig_both_modes)
  qed
  show ?thesis
  proof (intro conjI impI)
    assume "o_tileDimensions options = Absent"
    then show "\<exists>e. construct t0 canvas options = Inl e" using fails by simp
  next
    assume "\<exists>s. construct t0 canvas options = Inr s"
    then show "o_tileDimensions options = Undefined" using fails by fastforce
  qed
qed

lemmas config_evals =
  validateConfig_def spread_def or_default_def spread_tileDimensions_def
  tiles_below_one_def tileDimensions_not_positive_def
  DEFAULTS_fontFamily_def DEFAULTS_tileDimensions_def DEFAULTS_initialWaitDuration_def
  DEFAULTS_allTilesFlipDuration_def DEFAULTS_singleTileFlipDuration_def
  DEFAULTS_waitBetweenFlipsDuration_def DEFAULTS_finalWaitDuration_def
  DEFAULTS_invertThreshold_def DEFAULTS_resizeDebounceMs_def

theorem tiles_need_undefined_tileDimensions_witness:
  "o_tiles tiles_only_options = Some (4, 4) \<and>
   o_tileDimensions tiles_only_options = Absent \<and>
   construct 0 small_canvas tiles_only_options = Inl BothTilesAndTileDimensions \<and>
   (\<exists>s. construct 0 small_canvas (tiles_only_options\<lparr>o_tileDimensions := Undefined\<rparr>) = Inr s)"
proof -
  have t: "o_tiles tiles_only_options = Some (4, 4)"
    by (simp add: tiles_only_options_def)
  have a: "o_tileDimensions tiles_only_options = Absent"
    by (simp add: tiles_only_options_def)
  from tiles_need_undefined_tileDimensions [OF t, of 0 small_canvas] a
  obtain e where e: "construct 0 small_canvas tiles_only_options = Inl e" by blast
  then have "validateConfig (spread tiles_only_options) = Inl e"
    by (simp add: construct_Inl_iff)
  then have "e = BothTilesAndTileDimensions"
    by (simp add: config_evals tiles_only_options_def)
  moreover have "\<exists>s. construct 0 small_canvas (tiles_only_options\<lparr>o_tileDimensions := Undefined\<rparr>) = Inr s"
    by (simp add: construct_def Let_def split_def config_evals tiles_only_options_def)
  ultimately show ?thesis using t a e by simp
qed

lemmas step_defs =
  animate_def requestAnimationFrame_def setHover_def resize_def setTimeout_def clearTimeout_def
  resize_callback_def updateTextures_def dispose_def createTextCanvases_def
  createAllTextures_def createAllPresenceTextures_def createTextTexture_def
  createPresenceTexture_def new_gpu_def fire_def Let_def split_def

theorem construct_throws_iff_witness:
  "\<not> (\<exists>e. construct 0 small_canvas (plain_options\<lparr>o_invertThreshold := Some 0\<rparr>) = Inl e) \<and>
   \<not> (\<exists>e. construct 0 small_canvas (plain_options\<lparr>o_invertThreshold := Some 1\<rparr>) = Inl e) \<and>
   (\<exists>e. construct 0 small_canvas (plain_options\<lparr>o_invertThreshold := Some (3 / 2)\<rparr>) = Inl e) \<and>
   (\<exists>e. construct 0 small_canvas (plain_options\<lparr>o_invertThreshold := Some (- 1 / 2)\<rparr>) = Inl e) \<and>
   (\<exists>e. construct 0 small_canvas
          (plain_options\<lparr>o_singleTileFlipDuration := Some 1\<rparr>) = Inl e)"
  using
    construct_throws_iff [of 0 small_canvas "plain_options\<lparr>o_invertThreshold := Some 0\<rparr>"]
    construct_throws_iff [of 0 small_canvas "plain_options\<lparr>o_invertThreshold := Some 1\<rparr>"]
    construct_throws_iff [of 0 small_canvas "plain_options\<lparr>o_invertThreshold := Some (3 / 2)\<rparr>"]
    construct_throws_iff [of 0 small_canvas "plain_options\<lparr>o_invertThreshold := Some (- 1 / 2)\<rparr>"]
    construct_throws_iff [of 0 small_canvas "plain_options\<lparr>o_singleTileFlipDuration := Some 1\<rparr>"]
  by (simp add: spread_def or_default_def spread_tileDimensions_def plain_options_def
      DEFAULTS_tileDimensions_def DEFAULTS_allTilesFlipDuration_def
      DEFAULTS_singleTileFlipDuration_def DEFAULTS_invertThreshold_def)

subsection \<open>What each step changes\<close>

lemma setHover_fields [simp]:
  "direction (setHover hover s) = (if hover then 1 else - 1)"
  "config (setHover hover s) = config s"
  "totalElapsedTime (setHover hover s) = totalElapsedTime s"
  "morphProgress (setHover hover s) = morphProgress s"
  "lastFrameTime (setHover hover s) = lastFrameTime s"
  "uniforms (setHover hover s) = uniforms s"
  "raf_queue (setHover hover s) = raf_queue s"
  "animationFrame (setHover hover s) = animationFrame s"
  "timers (setHover hover s) = timers s"
  "resizeTimeout (setHover hover s) = resizeTimeout s"
  "now (setHover hover s) = now s"
  "next_id (setHover hover s) = next_id s"
  "gpu_created (setHover hover s) = gpu_created s"
  "gpu_disposed (setHover hover s) = gpu_disposed s"
  "renderer (setHover hover s) = renderer s"
  "material (setHover hover s) = material s"
  "mesh_geometry (setHover hover s) = mesh_geometry s"
  "this_tiles (setHover hover s) = this_tiles s"
  "useTileDimensions (setHover hover s) = useTileDimensions s"
  "renderer_size (setHover hover s) = renderer_size s"
  by (simp_all add: setHover_def Let_def)

lemma animate_fields [simp]:
  "direction (animate s) = direction s"
  "config (animate s) = config s"
  "totalElapsedTime (animate s) =
     (if direction s \<noteq> 0
      then max 0 (min (totalDuration (config s))
             (totalElapsedTime s + (now s - lastFrameTime s) / 1000 * direction s))
      else totalElapsedTime s)"
  "morphProgress (animate s) =
     (if direction s \<noteq> 0
      then totalElapsedTime (animate s) / totalDuration (config s)
      else morphProgress s)"
  "lastFrameTime (animate s) = now s"
  "uniforms (animate s) =
     (uniforms s)\<lparr>uMorphProgress :=
                     (if direction s \<noteq> 0 then morphProgress (animate s)
                      else uMorphProgress (uniforms s)),
                  uTime := uTime (uniforms s) + 0.016\<rparr>"
  "raf_queue (animate s) = raf_queue s @ [next_id s]"
  "animationFrame (animate s) = Some (next_id s)"
  "timers (animate s) = timers s"
  "resizeTimeout (animate s) = resizeTimeout s"
  "now (animate s) = now s"
  "next_id (animate s) = Suc (next_id s)"
  "gpu_created (animate s) = gpu_created s"
  "gpu_disposed (animate s) = gpu_disposed s"
  "renderer (animate s) = renderer s"
  "material (animate s) = material s"
  "mesh_geometry (animate s) = mesh_geometry s"
  "this_tiles (animate s) = this_tiles s"
  "useTileDimensions (animate s) = useTileDimensions s"
  "renderer_size (animate s) = renderer_size s"
  by (simp_all add: animate_def requestAnimationFrame_def Let_def split_def)

lemma resize_fields [simp]:
  "direction (resize width height s) = direction s"
  "config (resize width height s) = config s"
  "totalElapsedTime (resize width height s) = totalElapsedTime s"
  "morphProgress (resize width height s) = morphProgress s"
  "lastFrameTime (resize width height s) = lastFrameTime s"
  "uniforms (resize width height s) = (uniforms s)\<lparr>uResolution := (width, height)\<rparr>"
  "renderer_size (resize width height s) = (width, height)"
  "raf_queue (resize width height s) = raf_queue s"
  "animationFrame (resize width height s) = animationFrame s"
  "timers (resize width height s) =
     (if truthy (resizeTimeout s)
      then filter (\<lambda>t. timer_id t \<noteq> the (resizeTimeout s)) (timers s)
      else timers s) @
     [\<lparr>timer_id = next_id s, timer_due = now s + max 0 (resizeDebounceMs (config s)),
       timer_width = width, timer_height = height\<rparr>]"
  "resizeTimeout (resize width height s) = Some (next_id s)"
  "now (resize width height s) = now s"
  "next_id (resize width height s) = Suc (next_id s)"
  "gpu_created (resize width height s) = gpu_created s"
  "gpu_disposed (resize width height s) = gpu_disposed s"
  "renderer (resize width height s) = renderer s"
  "material (resize width height s) = material s"
  "mesh_geometry (resize width height s) = mesh_geometry s"
  "this_tiles (resize width height s) = this_tiles s"
  "useTileDimensions (resize width height s) = useTileDimensions s"
  by (simp_all add: resize_def setTimeout_def clearTimeout_def Let_def split_def)

text \<open>The tile grid a settled resize leaves in \<open>this.tiles\<close>.\<close>

lemma resize_callback_fields [simp]:
  "direction (resize_callback width height s) = direction s"
  "config (resize_callback width height s) = config s"
  "totalElapsedTime (resize_callback width height s) = totalElapsedTime s"
  "morphProgress (resize_callback width height s) = morphProgress s"
  "lastFrameTime (resize_callback width height s) = lastFrameTime s"
  "raf_queue (resize_callback width height s) = raf_queue s"
  "animationFrame (resize_callback width height s) = animationFrame s"
  "timers (resize_callback width height s) = timers s"
  "resizeTimeout (resize_callback width height s) = resizeTimeout s"
  "now (resize_callback width height s) = now s"
  "next_id (resize_callback width height s) = next_id s + 6"
  "renderer (resize_callback width height s) = renderer s"
  "renderer_size (resize_callback width height s) = renderer_size s"
  "material (resize_callback width height s) = material s"
  "mesh_geometry (resize_callback width height s) = mesh_geometry s"
  "useTileDimensions (resize_callback width height s) = useTileDimensions s"
  "this_tiles (resize_callback width height s) =
     (if useTileDimensions s then calculateTiles (config s) width height else this_tiles s)"
  "gpu_created (resize_callback width height s) =
     gpu_created s @ [next_id s, next_id s + 1, next_id s + 2, next_id s + 3, next_id s + 4,
                      next_id s + 5]"
  "gpu_disposed (resize_callback width height s) =
     gpu_disposed s @
     [handle (uTexA (uniforms s)), handle (uTexB (uniforms s)), handle (uTexC (uniforms s)),
      handle (uPresenceA (uniforms s)), handle (uPresenceB (uniforms s)),
      handle (uPresenceC (uniforms s))]"
  by (simp_all add: step_defs)

lemma resize_callback_uniforms:
  "uniforms (resize_callback width height s) =
     (uniforms s)
       \<lparr>uTexA := CanvasTexture (next_id s)
                   (createTextCanvas (config s) (textA (config s)) width height),
        uTexB := CanvasTexture (next_id s + 1)
                   (createTextCanvas (config s) (textB (config s)) width height),
        uTexC := CanvasTexture (next_id s + 2)
                   (createTextCanvas (config s) (textC (config s)) width height),
        uPresenceA := DataTexture (next_id s + 3)
                   (createTextCanvas (config s) (textA (config s)) width height)
                   (this_tiles (resize_callback width height s)),
        uPresenceB := DataTexture (next_id s + 4)
                   (createTextCanvas (config s) (textB (config s)) width height)
                   (this_tiles (resize_callback width height s)),
        uPresenceC := DataTexture (next_id s + 5)
                   (createTextCanvas (config s) (textC (config s)) width height)
                   (this_tiles (resize_callback width height s)),
        uTiles := (if useTileDimensions s then calculateTiles (config s) width height
                   else uTiles (uniforms s))\<rparr>"
  by (simp add: step_defs)


lemma fire_fields [simp]:
  "direction (fire tm s) = direction s"
  "config (fire tm s) = config s"
  "totalElapsedTime (fire tm s) = totalElapsedTime s"
  "morphProgress (fire tm s) = morphProgress s"
  "lastFrameTime (fire tm s) = lastFrameTime s"
  "raf_queue (fire tm s) = raf_queue s"
  "animationFrame (fire tm s) = animationFrame s"
  "timers (fire tm s) = filter (\<lambda>t. timer_id t \<noteq> timer_id tm) (timers s)"
  "resizeTimeout (fire tm s) = resizeTimeout s"
  "now (fire tm s) = max (now s) (timer_due tm)"
  "next_id (fire tm s) = next_id s + 6"
  "renderer (fire tm s) = renderer s"
  "renderer_size (fire tm s) = renderer_size s"
  "material (fire tm s) = material s"
  "mesh_geometry (fire tm s) = mesh_geometry s"
  "useTileDimensions (fire tm s) = useTileDimensions s"
  by (simp_all add: fire_def)

lemma fire_uniforms [simp]:
  "uMorphProgress (uniforms (fire tm s)) = uMorphProgress (uniforms s)"
  "uTime (uniforms (fire tm s)) = uTime (uniforms s)"
  "uResolution (uniforms (fire tm s)) = uResolution (uniforms s)"
  "uInitialWaitDuration (uniforms (fire tm s)) = uInitialWaitDuration (uniforms s)"
  "uAllTilesFlipDuration (uniforms (fire tm s)) = uAllTilesFlipDuration (uniforms s)"
  "uSingleTileFlipDuration (uniforms (fire tm s)) = uSingleTileFlipDuration (uniforms s)"
  "uWaitBetweenFlipsDuration (uniforms (fire tm s)) = uWaitBetweenFlipsDuration (uniforms s)"
  "uFinalWaitDuration (uniforms (fire tm s)) = uFinalWaitDuration (uniforms s)"
  "uInvertThreshold (uniforms (fire tm s)) = uInvertThreshold (uniforms s)"
  by (simp_all add: fire_def resize_callback_uniforms)

lemma fold_fire_inv:
  assumes "\<And>tm s. P s \<Longrightarrow> P (fire tm s)" and "P s"
  shows "P (fold fire l s)"
  using assms(2) by (induction l arbitrary: s) (simp_all add: assms(1))

lemma advance_to_inv:
  assumes "\<And>tm s. P s \<Longrightarrow> P (fire tm s)" and "\<And>s v. P s \<Longrightarrow> P (s\<lparr>now := v\<rparr>)" and "P s"
  shows "P (advance_to t s)"
proof -
  have "P (fold fire l s)" for l
  proof (rule fold_fire_inv [where P = P])
    show "P s" by (rule assms(3))
  qed (rule assms(1))
  then show ?thesis
    unfolding advance_to_def Let_def by (rule assms(2))
qed

lemma run_frame_single:
  "raf_inv s \<Longrightarrow> run_frame t s = animate (s\<lparr>now := t, raf_queue := []\<rparr>)"
  by (auto simp: raf_inv_def run_frame_def)

subsection \<open>The invariants hold in every reachable state\<close>

lemma construct_Inr:
  "construct t0 canvas options = Inr s \<Longrightarrow>
   validateConfig (spread options) = Inr () \<and>
   s = animate
     \<lparr> now = t0, raf_queue = [], timers = [], next_id = 10,
       gpu_created = [1, 2, 3, 4, 5, 6, 7, 8, 9], gpu_disposed = [],
       renderer = 1,
       renderer_size = getCanvasSize canvas,
       uniforms =
         createUniforms (spread options)
           (calculateTiles (spread options) (clientWidth canvas) (clientHeight canvas))
           (CanvasTexture 2 (createTextCanvas (spread options) (textA (spread options))
              (clientWidth canvas) (clientHeight canvas)),
            CanvasTexture 3 (createTextCanvas (spread options) (textB (spread options))
              (clientWidth canvas) (clientHeight canvas)),
            CanvasTexture 4 (createTextCanvas (spread options) (textC (spread options))
              (clientWidth canvas) (clientHeight canvas)))
           (DataTexture 5 (createTextCanvas (spread options) (textA (spread options))
              (clientWidth canvas) (clientHeight canvas))
              (calculateTiles (spread options) (clientWidth canvas) (clientHeight canvas)),
            DataTexture 6 (createTextCanvas (spread options) (textB (spread options))
              (clientWidth canvas) (clientHeight canvas))
              (calculateTiles (spread options) (clientWidth canvas) (clientHeight canvas)),
            DataTexture 7 (createTextCanvas (spread options) (textC (spread options))
              (clientWidth canvas) (clientHeight canvas))
              (calculateTiles (spread options) (clientWidth canvas) (clientHeight canvas)))
           (clientWidth canvas) (clientHeight canvas),
       material = 8,
       mesh_geometry = 9,
       morphProgress = 0,
       direction = 0,
       totalElapsedTime = 0,
       lastFrameTime = t0,
       animationFrame = None,
       config = spread options,
       resizeTimeout = None,
       this_tiles = calculateTiles (spread options) (clientWidth canvas) (clientHeight canvas),
       useTileDimensions = (tileDimensions (spread options) \<noteq> None) \<rparr>"
  by (auto simp: construct_def getCanvasSize_def createTextCanvases_def
      createAllTextures_def createAllPresenceTextures_def createTextTexture_def
      createPresenceTexture_def new_gpu_def fresh_host_def Let_def split_def eval_nat_numeral
      split: sum.splits)

lemma timeline_inv_construct:
  "construct t0 canvas options = Inr s \<Longrightarrow> timeline_inv s"
  by (drule construct_Inr) (simp add: timeline_inv_def createUniforms_def)

lemma timeline_inv_setHover: "timeline_inv s \<Longrightarrow> timeline_inv (setHover hover s)"
  by (simp add: timeline_inv_def)

lemma timeline_inv_resize: "timeline_inv s \<Longrightarrow> timeline_inv (resize width height s)"
  by (simp add: timeline_inv_def)

lemma timeline_inv_fire: "timeline_inv s \<Longrightarrow> timeline_inv (fire tm s)"
  by (simp add: timeline_inv_def)

lemma clamp_idem:
  "max 0 (min T (max 0 (min T v))) = max 0 (min (T::real) v)"
  by (auto simp: max_def min_def)

lemma timeline_inv_animate: "timeline_inv s \<Longrightarrow> timeline_inv (animate s)"
  by (simp add: timeline_inv_def clamp_idem)

lemma run_frame_inv:
  assumes "\<And>s. P s \<Longrightarrow> P (animate s)" and "\<And>s v q. P s \<Longrightarrow> P (s\<lparr>now := v, raf_queue := q\<rparr>)"
    and "P s"
  shows "P (run_frame t s)"
proof -
  have "P (fold (\<lambda>i. animate) l s')" if "P s'" for l :: "nat list" and s'
    using that by (induction l arbitrary: s') (simp_all add: assms(1))
  then show ?thesis
    unfolding run_frame_def using assms(2) [OF assms(3)] by blast
qed

lemma timeline_inv_reachable: "reachable s \<Longrightarrow> timeline_inv s"
proof (induction rule: reachable.induct)
  case (constructed t0 canvas options s)
  then show ?case by (rule timeline_inv_construct)
next
  case (hovered s hover)
  from hovered.IH show ?case by (rule timeline_inv_setHover)
next
  case (resized s width height)
  from resized.IH show ?case by (rule timeline_inv_resize)
next
  case (framed s t)
  show ?case
  proof (rule run_frame_inv [where P = timeline_inv])
    show "timeline_inv s" by (rule framed.IH)
    show "\<And>s. timeline_inv s \<Longrightarrow> timeline_inv (animate s)"
      by (rule timeline_inv_animate)
    show "\<And>s v q. timeline_inv s \<Longrightarrow> timeline_inv (s\<lparr>now := v, raf_queue := q\<rparr>)"
      by (simp add: timeline_inv_def)
  qed
next
  case (advanced s t)
  show ?case
  proof (rule advance_to_inv [where P = timeline_inv])
    show "timeline_inv s" by (rule advanced.IH)
    show "\<And>tm s. timeline_inv s \<Longrightarrow> timeline_inv (fire tm s)"
      by (rule timeline_inv_fire)
    show "\<And>s v. timeline_inv s \<Longrightarrow> timeline_inv (s\<lparr>now := v\<rparr>)"
      by (simp add: timeline_inv_def)
  qed
qed


lemma raf_inv_reachable: "reachable s \<Longrightarrow> raf_inv s"
proof (induction rule: reachable.induct)
  case (constructed t0 canvas options s)
  then show ?case by (auto dest!: construct_Inr simp: raf_inv_def)
next
  case (hovered s hover)
  from hovered.IH show ?case by (simp add: raf_inv_def)
next
  case (resized s width height)
  from resized.IH show ?case by (simp add: raf_inv_def)
next
  case (framed s t)
  from framed.IH show ?case
    by (simp add: run_frame_single) (simp add: raf_inv_def)
next
  case (advanced s t)
  show ?case
  proof (rule advance_to_inv [where P = raf_inv])
    show "raf_inv s" by (rule advanced.IH)
    show "\<And>tm s. raf_inv s \<Longrightarrow> raf_inv (fire tm s)"
      by (simp add: raf_inv_def)
    show "\<And>s v. raf_inv s \<Longrightarrow> raf_inv (s\<lparr>now := v\<rparr>)"
      by (simp add: raf_inv_def)
  qed
qed

subsection \<open>The clamp of \<open>animate\<close>\<close>

lemma clamp_neg_total: "T < 0 \<Longrightarrow> max 0 (min T v) = (0::real)"
  by (simp add: max_def min_def)

lemma clamp_range: "0 < T \<Longrightarrow> 0 \<le> max 0 (min T v) \<and> max 0 (min T v) \<le> (T::real)"
  by (simp add: max_def min_def)

lemma clamp_mono: "v \<le> w \<Longrightarrow> max 0 (min T v) \<le> max 0 (min (T::real) w)"
  by (simp add: max_def min_def)

lemma clamp_quotient_range:
  assumes "T \<noteq> (0::real)"
  shows "0 \<le> max 0 (min T v) / T \<and> max 0 (min T v) / T \<le> 1"
proof (cases "0 < T")
  case True
  with clamp_range [OF True, of v] show ?thesis by simp
next
  case False
  with assms have "T < 0" by simp
  then show ?thesis by (simp add: clamp_neg_total)
qed

lemma clamp_quotient_mono:
  assumes "T \<noteq> (0::real)" and "v \<le> w"
  shows "max 0 (min T v) / T \<le> max 0 (min T w) / T"
proof (cases "0 < T")
  case True
  with clamp_mono [OF assms(2), of T] show ?thesis by (simp add: divide_right_mono)
next
  case False
  with assms have "T < 0" by simp
  then show ?thesis by (simp add: clamp_neg_total)
qed

lemma clamp_top:
  assumes "e / T = (1::real)" and "0 \<le> d" and "e = max 0 (min T e)"
  shows "max 0 (min T (e + d)) / T = 1"
proof -
  from assms(1) have "T \<noteq> 0" by auto
  with assms(1) have eT: "e = T" by simp
  with assms(3) have "0 \<le> T" by (simp add: max_def min_def split: if_splits)
  with eT assms(2) \<open>T \<noteq> 0\<close> show ?thesis by (simp add: max_def min_def)
qed

lemma clamp_bottom:
  assumes "e / T = (0::real)" and "T \<noteq> 0" and "0 \<le> d"
  shows "max 0 (min T (e - d)) / T = 0"
proof -
  from assms(1,2) have "e = 0" by simp
  with assms(3) show ?thesis by (simp add: max_def min_def)
qed

lemma frame_progress_number:
  assumes "totalDuration (config s) \<noteq> 0"
  shows "frame_progress t s =
           Number (max 0 (min (totalDuration (config s))
                     (totalElapsedTime s + (t - lastFrameTime s) / 1000 * direction s)) /
                   totalDuration (config s))"
  using assms by (simp add: frame_progress_def animate_quotient_def number_divide_def Let_def)

text \<open>
  Claim C2, as amended.  Take a live engine whose total duration is not 0 and let the
  host run a frame at a clock reading \<open>t\<close> that is not before the last frame.  With
  \<open>direction = 1\<close> the elapsed time and the progress do not decrease, with
  \<open>direction = -1\<close> they do not increase; the progress lies in \<open>[0, 1]\<close> before and
  after; a progress of 1 stays 1 under \<open>direction = 1\<close> and a progress of 0 stays 0
  under \<open>direction = -1\<close>.  The quotient JavaScript computes in the frame is a number,
  the progress the frame stores.
\<close>

theorem frame_advance_monotone:
  assumes "reachable s" and "totalDuration (config s) \<noteq> 0" and "lastFrameTime s \<le> t"
  shows "(direction s = 1 \<longrightarrow>
            totalElapsedTime s \<le> totalElapsedTime (run_frame t s) \<and>
            morphProgress s \<le> morphProgress (run_frame t s)) \<and>
         (direction s = - 1 \<longrightarrow>
            totalElapsedTime (run_frame t s) \<le> totalElapsedTime s \<and>
            morphProgress (run_frame t s) \<le> morphProgress s) \<and>
         0 \<le> morphProgress s \<and> morphProgress s \<le> 1 \<and>
         0 \<le> morphProgress (run_frame t s) \<and> morphProgress (run_frame t s) \<le> 1 \<and>
         (direction s = 1 \<and> morphProgress s = 1 \<longrightarrow> morphProgress (run_frame t s) = 1) \<and>
         (direction s = - 1 \<and> morphProgress s = 0 \<longrightarrow> morphProgress (run_frame t s) = 0) \<and>
         (direction s \<noteq> 0 \<longrightarrow>
            frame_progress t s = Number (morphProgress (run_frame t s)) \<and>
            in_unit_interval (frame_progress t s))"
proof -
  define T where "T = totalDuration (config s)"
  define e where "e = totalElapsedTime s"
  define d where "d = (t - lastFrameTime s) / 1000"
  have T: "T \<noteq> 0" using assms(2) by (simp add: T_def)
  have d: "0 \<le> d" using assms(3) by (simp add: d_def)
  from timeline_inv_reachable [OF assms(1)]
  have fixp: "e = max 0 (min T e)" and prog: "morphProgress s = e / T"
    by (simp_all add: timeline_inv_def T_def e_def)
  have frame: "run_frame t s = animate (s\<lparr>now := t, raf_queue := []\<rparr>)"
    by (rule run_frame_single [OF raf_inv_reachable [OF assms(1)]])
  have e': "totalElapsedTime (run_frame t s) =
              (if direction s \<noteq> 0 then max 0 (min T (e + d * direction s)) else e)"
    by (simp add: frame T_def e_def d_def)
  have p': "morphProgress (run_frame t s) =
              (if direction s \<noteq> 0 then max 0 (min T (e + d * direction s)) / T else e / T)"
    by (simp add: frame T_def e_def d_def prog)
  have up: "e \<le> max 0 (min T (e + d))" "e / T \<le> max 0 (min T (e + d)) / T"
    using clamp_mono [of e "e + d" T] clamp_quotient_mono [OF T, of e "e + d"] d fixp
    by simp_all
  have down: "max 0 (min T (e - d)) \<le> e" "max 0 (min T (e - d)) / T \<le> e / T"
    using clamp_mono [of "e - d" e T] clamp_quotient_mono [OF T, of "e - d" e] d fixp
    by simp_all
  have range: "0 \<le> morphProgress (run_frame t s) \<and> morphProgress (run_frame t s) \<le> 1"
    using clamp_quotient_range [OF T, of "e + d * direction s"]
      clamp_quotient_range [OF T, of e] fixp
    by (simp add: p')
  have before: "0 \<le> e / T \<and> e / T \<le> 1"
    using clamp_quotient_range [OF T, of e] fixp by simp
  have top: "max 0 (min T (e + d)) / T = 1" if "e / T = 1"
    using clamp_top [OF that d fixp] .
  have bottom: "max 0 (min T (e - d)) / T = 0" if "e / T = 0"
    using clamp_bottom [OF that T d] .
  have quotient: "frame_progress t s = Number (morphProgress (run_frame t s))"
    if "direction s \<noteq> 0"
    using that frame_progress_number [OF assms(2), of t] by (simp add: p' T_def e_def d_def)
  have "in_unit_interval (frame_progress t s)" if "direction s \<noteq> 0"
    using quotient [OF that] range by simp
  with quotient have js: "direction s \<noteq> 0 \<longrightarrow>
      frame_progress t s = Number (morphProgress (run_frame t s)) \<and>
      in_unit_interval (frame_progress t s)"
    by blast
  have "(direction s = 1 \<longrightarrow>
            totalElapsedTime s \<le> totalElapsedTime (run_frame t s) \<and>
            morphProgress s \<le> morphProgress (run_frame t s)) \<and>
         (direction s = - 1 \<longrightarrow>
            totalElapsedTime (run_frame t s) \<le> totalElapsedTime s \<and>
            morphProgress (run_frame t s) \<le> morphProgress s) \<and>
         0 \<le> morphProgress s \<and> morphProgress s \<le> 1 \<and>
         0 \<le> morphProgress (run_frame t s) \<and> morphProgress (run_frame t s) \<le> 1 \<and>
         (direction s = 1 \<and> morphProgress s = 1 \<longrightarrow> morphProgress (run_frame t s) = 1) \<and>
         (direction s = - 1 \<and> morphProgress s = 0 \<longrightarrow> morphProgress (run_frame t s) = 0)"
    using up down range before top bottom by (simp add: e' p' prog e_def [symmetric])
  with js show ?thesis by blast
qed

subsection \<open>The example engine\<close>

lemma plain_valid: "validateConfig (spread plain_options) = Inr ()"
  by (simp add: config_evals plain_options_def)

lemma plain_engine_eq:
  "construct 0 small_canvas plain_options = Inr plain_engine"
proof -
  have "\<not> (\<exists>e. construct 0 small_canvas plain_options = Inl e)"
    by (simp add: construct_Inl_iff plain_valid)
  then obtain s where "construct 0 small_canvas plain_options = Inr s"
    by (cases "construct 0 small_canvas plain_options") auto
  then show ?thesis by (simp add: plain_engine_def)
qed

lemma plain_config:
  "initialWaitDuration (spread plain_options) = 0.2"
  "allTilesFlipDuration (spread plain_options) = 0.5"
  "singleTileFlipDuration (spread plain_options) = 0.1"
  "waitBetweenFlipsDuration (spread plain_options) = 0.3"
  "finalWaitDuration (spread plain_options) = 0.2"
  "invertThreshold (spread plain_options) = 0"
  "resizeDebounceMs (spread plain_options) = 100"
  "tiles (spread plain_options) = None"
  "tileDimensions (spread plain_options) = Some (8, 8)"
  "textA (spread plain_options) = ''a''"
  "textB (spread plain_options) = ''b''"
  "textC (spread plain_options) = ''c''"
  by (simp_all add: config_evals plain_options_def)

lemma plain_engine_fields:
  "totalElapsedTime plain_engine = 0"
  "morphProgress plain_engine = 0"
  "lastFrameTime plain_engine = 0"
  "now plain_engine = 0"
  "direction plain_engine = 0"
  "config plain_engine = spread plain_options"
  "raf_queue plain_engine = [10]"
  "animationFrame plain_engine = Some 10"
  "timers plain_engine = []"
  "resizeTimeout plain_engine = None"
  "next_id plain_engine = 11"
  "gpu_created plain_engine = [1, 2, 3, 4, 5, 6, 7, 8, 9]"
  "gpu_disposed plain_engine = []"
  "useTileDimensions plain_engine = True"
  "this_tiles plain_engine = (8, 4)"
  "uMorphProgress (uniforms plain_engine) = 0"
  "uInitialWaitDuration (uniforms plain_engine) = 0.2"
  "uAllTilesFlipDuration (uniforms plain_engine) = 0.5"
  "uSingleTileFlipDuration (uniforms plain_engine) = 0.1"
  "uWaitBetweenFlipsDuration (uniforms plain_engine) = 0.3"
  "uFinalWaitDuration (uniforms plain_engine) = 0.2"
  "uInvertThreshold (uniforms plain_engine) = 0"
  "uTiles (uniforms plain_engine) = (8, 4)"
  "uTexA (uniforms plain_engine) =
     CanvasTexture 2 (createTextCanvas (spread plain_options) ''a'' 64 32)"
  "uTexB (uniforms plain_engine) =
     CanvasTexture 3 (createTextCanvas (spread plain_options) ''b'' 64 32)"
  "uTexC (uniforms plain_engine) =
     CanvasTexture 4 (createTextCanvas (spread plain_options) ''c'' 64 32)"
  "uPresenceA (uniforms plain_engine) =
     DataTexture 5 (createTextCanvas (spread plain_options) ''a'' 64 32) (8, 4)"
  "uPresenceB (uniforms plain_engine) =
     DataTexture 6 (createTextCanvas (spread plain_options) ''b'' 64 32) (8, 4)"
  "uPresenceC (uniforms plain_engine) =
     DataTexture 7 (createTextCanvas (spread plain_options) ''c'' 64 32) (8, 4)"
  unfolding construct_Inr [OF plain_engine_eq, THEN conjunct2]
  by (simp_all add: createUniforms_def plain_config calculateTiles_def small_canvas_def)

lemma hovered_frame:
  assumes "reachable s"
  shows "run_frame t (setHover hover s) =
           animate ((setHover hover s)\<lparr>now := t, raf_queue := []\<rparr>)"
  by (rule run_frame_single [OF raf_inv_reachable [OF reachable.hovered [OF assms]]])

lemma plain_reachable: "reachable plain_engine"
  by (rule reachable.constructed, rule plain_engine_eq)

lemma plain_total: "totalDuration (spread plain_options) = 1.7"
  by (simp add: totalDuration_def plain_config)

lemma plain_engine_200_fields:
  "totalElapsedTime plain_engine_200 = 0.2"
  "morphProgress plain_engine_200 = 0.2 / 1.7"
  "uMorphProgress (uniforms plain_engine_200) = 0.2 / 1.7"
  "config plain_engine_200 = spread plain_options"
  "lastFrameTime plain_engine_200 = 200"
  "direction plain_engine_200 = 1"
  unfolding plain_engine_200_def hovered_frame [OF plain_reachable]
  by (simp_all add: plain_engine_fields plain_total)

lemma plain_engine_200_reachable: "reachable plain_engine_200"
  unfolding plain_engine_200_def
  by (intro reachable.framed reachable.hovered plain_reachable)

lemma plain_engine_back_fields:
  "totalElapsedTime plain_engine_back = 0.1"
  "morphProgress plain_engine_back = 0.1 / 1.7"
  unfolding plain_engine_back_def hovered_frame [OF plain_engine_200_reachable]
  by (simp_all add: plain_engine_200_fields plain_total)

lemma plain_engine_1125_fields:
  "uMorphProgress (uniforms plain_engine_1125) = 1.125 / 1.7"
  "uInitialWaitDuration (uniforms plain_engine_1125) = 0.2"
  "uAllTilesFlipDuration (uniforms plain_engine_1125) = 0.5"
  "uSingleTileFlipDuration (uniforms plain_engine_1125) = 0.1"
  "uWaitBetweenFlipsDuration (uniforms plain_engine_1125) = 0.3"
  "uFinalWaitDuration (uniforms plain_engine_1125) = 0.2"
  "uInvertThreshold (uniforms plain_engine_1125) = 0"
  "uTexB (uniforms plain_engine_1125) =
     CanvasTexture 3 (createTextCanvas (spread plain_options) ''b'' 64 32)"
  "uTexC (uniforms plain_engine_1125) =
     CanvasTexture 4 (createTextCanvas (spread plain_options) ''c'' 64 32)"
  "uPresenceB (uniforms plain_engine_1125) =
     DataTexture 6 (createTextCanvas (spread plain_options) ''b'' 64 32) (8, 4)"
  "uPresenceC (uniforms plain_engine_1125) =
     DataTexture 7 (createTextCanvas (spread plain_options) ''c'' 64 32) (8, 4)"
  unfolding plain_engine_1125_def hovered_frame [OF plain_reachable]
  by (simp_all add: plain_engine_fields plain_total)

lemma plain_engine_325_fields:
  "uMorphProgress (uniforms plain_engine_325) = 0.325 / 1.7"
  "uInitialWaitDuration (uniforms plain_engine_325) = 0.2"
  "uAllTilesFlipDuration (uniforms plain_engine_325) = 0.5"
  "uSingleTileFlipDuration (uniforms plain_engine_325) = 0.1"
  "uWaitBetweenFlipsDuration (uniforms plain_engine_325) = 0.3"
  "uFinalWaitDuration (uniforms plain_engine_325) = 0.2"
  "uInvertThreshold (uniforms plain_engine_325) = 0"
  "uTexA (uniforms plain_engine_325) =
     CanvasTexture 2 (createTextCanvas (spread plain_options) ''a'' 64 32)"
  "uTexB (uniforms plain_engine_325) =
     CanvasTexture 3 (createTextCanvas (spread plain_options) ''b'' 64 32)"
  "uPresenceA (uniforms plain_engine_325) =
     DataTexture 5 (createTextCanvas (spread plain_options) ''a'' 64 32) (8, 4)"
  "uPresenceB (uniforms plain_engine_325) =
     DataTexture 6 (createTextCanvas (spread plain_options) ''b'' 64 32) (8, 4)"
  unfolding plain_engine_325_def hovered_frame [OF plain_reachable]
  by (simp_all add: plain_engine_fields plain_total)

lemma construct_valid:
  assumes "validateConfig (spread options) = Inr ()"
  shows "construct t0 canvas options = Inr (case construct t0 canvas options of Inr s \<Rightarrow> s)"
proof -
  have "\<not> (\<exists>e. construct t0 canvas options = Inl e)"
    by (simp add: construct_Inl_iff assms)
  then obtain s where "construct t0 canvas options = Inr s"
    by (cases "construct t0 canvas options") auto
  then show ?thesis by simp
qed

lemma constructed_fields:
  assumes "construct t0 canvas options = Inr s"
  shows "direction s = 0" "totalElapsedTime s = 0" "morphProgress s = 0"
    "lastFrameTime s = t0" "config s = spread options"
    "uMorphProgress (uniforms s) = 0"
    "uInitialWaitDuration (uniforms s) = initialWaitDuration (spread options)"
    "uAllTilesFlipDuration (uniforms s) = allTilesFlipDuration (spread options)"
    "uSingleTileFlipDuration (uniforms s) = singleTileFlipDuration (spread options)"
    "uWaitBetweenFlipsDuration (uniforms s) = waitBetweenFlipsDuration (spread options)"
    "uFinalWaitDuration (uniforms s) = finalWaitDuration (spread options)"
    "uInvertThreshold (uniforms s) = invertThreshold (spread options)"
    "uTiles (uniforms s) =
       calculateTiles (spread options) (clientWidth canvas) (clientHeight canvas)"
    "uTexA (uniforms s) =
       CanvasTexture 2 (createTextCanvas (spread options) (textA (spread options))
         (clientWidth canvas) (clientHeight canvas))"
    "uTexB (uniforms s) =
       CanvasTexture 3 (createTextCanvas (spread options) (textB (spread options))
         (clientWidth canvas) (clientHeight canvas))"
    "uPresenceA (uniforms s) =
       DataTexture 5 (createTextCanvas (spread options) (textA (spread options))
         (clientWidth canvas) (clientHeight canvas))
         (calculateTiles (spread options) (clientWidth canvas) (clientHeight canvas))"
    "uPresenceB (uniforms s) =
       DataTexture 6 (createTextCanvas (spread options) (textB (spread options))
         (clientWidth canvas) (clientHeight canvas))
         (calculateTiles (spread options) (clientWidth canvas) (clientHeight canvas))"
  unfolding construct_Inr [OF assms, THEN conjunct2]
  by (simp_all add: createUniforms_def)

lemma zero_total_config:
  "validateConfig (spread zero_total_options) = Inr ()"
  "totalDuration (spread zero_total_options) = 0"
  by (simp_all add: totalDuration_def config_evals zero_total_options_def plain_options_def)

lemma zero_total_engine_eq:
  "construct 0 small_canvas zero_total_options = Inr zero_total_engine"
  unfolding zero_total_engine_def by (rule construct_valid [OF zero_total_config(1)])

lemma early_config:
  "validateConfig (spread early_options) = Inr ()"
  "initialWaitDuration (spread early_options) = - 1 / 4"
  "allTilesFlipDuration (spread early_options) = 1 / 2"
  "singleTileFlipDuration (spread early_options) = 1 / 10"
  "waitBetweenFlipsDuration (spread early_options) = 3 / 10"
  "finalWaitDuration (spread early_options) = 1 / 5"
  "invertThreshold (spread early_options) = 0"
  "textA (spread early_options) = ''a''"
  "textB (spread early_options) = ''b''"
  "totalDuration (spread early_options) = 5 / 4"
  by (simp_all add: totalDuration_def config_evals early_options_def plain_options_def)

lemma early_engine_eq: "construct 0 small_canvas early_options = Inr early_engine"
  unfolding early_engine_def by (rule construct_valid [OF early_config(1)])

lemma negative_total_config:
  "validateConfig (spread negative_total_options) = Inr ()"
  "initialWaitDuration (spread negative_total_options) = 1 / 5"
  "allTilesFlipDuration (spread negative_total_options) = 1 / 2"
  "singleTileFlipDuration (spread negative_total_options) = 1 / 10"
  "waitBetweenFlipsDuration (spread negative_total_options) = - 3"
  "finalWaitDuration (spread negative_total_options) = 1 / 5"
  "invertThreshold (spread negative_total_options) = 0"
  "textA (spread negative_total_options) = ''a''"
  "textB (spread negative_total_options) = ''b''"
  "totalDuration (spread negative_total_options) = - 8 / 5"
  by (simp_all add: totalDuration_def config_evals negative_total_options_def plain_options_def)

lemma prompt_config:
  "validateConfig (spread prompt_options) = Inr ()"
  "initialWaitDuration (spread prompt_options) = 0"
  "totalDuration (spread prompt_options) = 3 / 2"
  by (simp_all add: totalDuration_def config_evals prompt_options_def plain_options_def)

lemma prompt_engine_eq: "construct 0 small_canvas prompt_options = Inr prompt_engine"
  unfolding prompt_engine_def by (rule construct_valid [OF prompt_config(1)])

lemma negative_total_engine_eq:
  "construct 0 small_canvas negative_total_options = Inr negative_total_engine"
  unfolding negative_total_engine_def by (rule construct_valid [OF negative_total_config(1)])

theorem frame_advance_monotone_witness:
  "reachable (setHover True plain_engine) \<and>
   totalDuration (config (setHover True plain_engine)) = 1.7 \<and>
   lastFrameTime (setHover True plain_engine) = 0 \<and>
   direction (setHover True plain_engine) = 1 \<and>
   totalElapsedTime (setHover True plain_engine) = 0 \<and>
   totalElapsedTime plain_engine_200 = 0.2 \<and>
   morphProgress (setHover True plain_engine) \<le> morphProgress plain_engine_200 \<and>
   0 \<le> morphProgress plain_engine_200 \<and> morphProgress plain_engine_200 \<le> 1 \<and>
   reachable (setHover False plain_engine_200) \<and>
   lastFrameTime (setHover False plain_engine_200) = 200 \<and>
   direction (setHover False plain_engine_200) = - 1 \<and>
   totalElapsedTime (setHover False plain_engine_200) = 0.2 \<and>
   totalElapsedTime plain_engine_back = 0.1 \<and>
   morphProgress plain_engine_back \<le> morphProgress (setHover False plain_engine_200) \<and>
   frame_progress 200 (setHover True plain_engine) = Number (0.2 / 1.7) \<and>
   frame_progress 300 (setHover False plain_engine_200) = Number (0.1 / 1.7)"
proof -
  have r: "reachable (setHover True plain_engine)"
    by (rule reachable.hovered, rule reachable.constructed, rule plain_engine_eq)
  have T: "totalDuration (config (setHover True plain_engine)) \<noteq> 0"
    by (simp add: plain_engine_fields plain_total)
  have l: "lastFrameTime (setHover True plain_engine) \<le> 200"
    by (simp add: plain_engine_fields)
  have r': "reachable (setHover False plain_engine_200)"
    by (rule reachable.hovered, rule plain_engine_200_reachable)
  have T': "totalDuration (config (setHover False plain_engine_200)) \<noteq> 0"
    by (simp add: plain_engine_200_fields plain_total)
  have l': "lastFrameTime (setHover False plain_engine_200) \<le> 300"
    by (simp add: plain_engine_200_fields)
  from frame_advance_monotone [OF r T l] frame_advance_monotone [OF r' T' l'] r r'
  show ?thesis
    by (simp add: plain_engine_200_def [symmetric] plain_engine_back_def [symmetric]
        plain_engine_fields plain_total plain_engine_200_fields plain_engine_back_fields)
qed

text \<open>
  Claim C2 as the specification states it, for every frame, fails on the engine built
  with an initial wait of -1 and the other waits 0, which \<open>validateConfig\<close> accepts
  and whose total duration is 0.  After \<open>setHover(true)\<close>, the frame 100 ms after
  construction clamps the elapsed time to \<open>[0, 0]\<close> and divides 0 by 0: the progress is
  \<open>NaN\<close>, which is not in \<open>[0, 1]\<close>.
\<close>

theorem zero_total_progress_not_a_number:
  "construct 0 small_canvas zero_total_options = Inr zero_total_engine \<and>
   reachable (setHover True zero_total_engine) \<and>
   direction (setHover True zero_total_engine) = 1 \<and>
   lastFrameTime (setHover True zero_total_engine) = 0 \<and>
   totalElapsedTime (setHover True zero_total_engine) = 0 \<and>
   totalDuration (config (setHover True zero_total_engine)) = 0 \<and>
   frame_progress 100 (setHover True zero_total_engine) = NaN \<and>
   \<not> in_unit_interval (frame_progress 100 (setHover True zero_total_engine))"
proof -
  have r: "reachable (setHover True zero_total_engine)"
    by (rule reachable.hovered, rule reachable.constructed, rule zero_total_engine_eq)
  have nan: "frame_progress 100 (setHover True zero_total_engine) = NaN"
    by (simp add: frame_progress_def animate_quotient_def number_divide_def Let_def
        constructed_fields [OF zero_total_engine_eq] zero_total_config)
  from r nan show ?thesis
    by (simp add: zero_total_engine_eq constructed_fields [OF zero_total_engine_eq]
        zero_total_config)
qed

subsection \<open>Before and after the first hover call\<close>

lemma unhovered_reachable: "unhovered s \<Longrightarrow> reachable s"
  by (induction rule: unhovered.induct) (auto intro: reachable.intros)

lemma leaving_reachable: "leaving s \<Longrightarrow> reachable s"
  by (induction rule: leaving.induct) (auto intro: reachable.intros unhovered_reachable)

lemma at_rest_fire: "at_rest dir s \<Longrightarrow> at_rest dir (fire tm s)"
  by (simp add: at_rest_def)

lemma at_rest_advance_to: "at_rest dir s \<Longrightarrow> at_rest dir (advance_to t s)"
proof (rule advance_to_inv [where P = "at_rest dir"])
  show "\<And>tm s. at_rest dir s \<Longrightarrow> at_rest dir (fire tm s)" by (rule at_rest_fire)
  show "\<And>s v. at_rest dir s \<Longrightarrow> at_rest dir (s\<lparr>now := v\<rparr>)" by (simp add: at_rest_def)
qed

lemma unhovered_at_rest: "unhovered s \<Longrightarrow> at_rest 0 s"
proof (induction rule: unhovered.induct)
  case (u_constructed t0 canvas options s)
  then show ?case by (auto dest!: construct_Inr simp: at_rest_def createUniforms_def)
next
  case (u_resized s width height)
  from u_resized.IH show ?case by (simp add: at_rest_def)
next
  case (u_framed s t)
  from u_framed.IH show ?case
    by (simp add: run_frame_single [OF raf_inv_reachable [OF unhovered_reachable [OF u_framed.hyps]]])
       (simp add: at_rest_def)
next
  case (u_advanced s t)
  from u_advanced.IH show ?case by (rule at_rest_advance_to)
qed

lemma clamp_down_zero: "0 \<le> d \<Longrightarrow> max 0 (min T (0 + d * (- 1))) = (0::real)"
  by (auto simp: max_def min_def)

lemma leaving_at_rest: "leaving s \<Longrightarrow> at_rest (- 1) s"
proof (induction rule: leaving.induct)
  case (l_first s)
  from unhovered_at_rest [OF l_first.hyps] show ?case by (simp add: at_rest_def)
next
  case (l_again s)
  from l_again.IH show ?case by (simp add: at_rest_def)
next
  case (l_resized s width height)
  from l_resized.IH show ?case by (simp add: at_rest_def)
next
  case (l_framed s t)
  have frame: "run_frame t s = animate (s\<lparr>now := t, raf_queue := []\<rparr>)"
    by (rule run_frame_single [OF raf_inv_reachable [OF leaving_reachable [OF l_framed.hyps(1)]]])
  from l_framed.hyps(2) have "0 \<le> (t - lastFrameTime s) / 1000" by simp
  then have "max 0 (min T (0 + (t - lastFrameTime s) / 1000 * (- 1))) = 0" for T :: real
    by (rule clamp_down_zero)
  with l_framed.IH show ?case
    by (simp add: frame at_rest_def)
next
  case (l_advanced s t)
  from l_advanced.IH show ?case by (rule at_rest_advance_to)
qed


lemma fract_nonneg: "0 \<le> fract v"
  by (simp add: fract_def)

text \<open>
  At phase-local progress 0 no tile has begun to flip: the flip window of a tile starts
  at \<open>noise * (allTilesFlip - singleTileFlip) / allTilesFlip\<close>, which is not negative.
\<close>

lemma tile_flipProgress_at_start:
  assumes "0 \<le> noise" and "0 < uSingleTileFlipDuration u"
    and "uSingleTileFlipDuration u \<le> uAllTilesFlipDuration u"
  shows "tile_flipProgress u noise 0 = 0"
proof -
  define F where "F = uAllTilesFlipDuration u"
  define S where "S = uSingleTileFlipDuration u"
  define a where "a = noise * (F - S) / F"
  from assms have S: "0 < S" and F: "0 < F" and SF: "S \<le> F" by (simp_all add: F_def S_def)
  from assms(1) F SF have a: "0 \<le> a" by (simp add: a_def)
  from S F have w: "0 < S / F" by simp
  have d: "a + S / F - a = S / F" by simp
  from a have "0 - a \<le> 0" by simp
  then have "(0 - a) / (S / F) \<le> 0" using w by (rule divide_nonpos_pos)
  then have c: "clamp ((0 - a) / (a + S / F - a)) 0 1 = 0"
    unfolding d by (simp add: clamp_def)
  have "tile_flipProgress u noise 0 =
          (let t = clamp ((0 - a) / (a + S / F - a)) 0 1 in t * t * (3 - 2 * t))"
    by (simp only: tile_flipProgress_def smoothstep_def Let_def F_def S_def a_def)
  also have "\<dots> = 0" unfolding c by simp
  finally show ?thesis .
qed

lemma unhovered_renders_A:
  assumes "unhovered s" and "0 \<le> initialWaitDuration (config s)"
    and "0 < totalDuration (config s)"
  shows "main (uniforms s) texture2D uninit vUv = texture2D (uTexA (uniforms s)) vUv"
proof -
  from timeline_inv_reachable [OF unhovered_reachable [OF assms(1)]]
  have u: "uInitialWaitDuration (uniforms s) = initialWaitDuration (config s)"
    "uAllTilesFlipDuration (uniforms s) = allTilesFlipDuration (config s)"
    "uSingleTileFlipDuration (uniforms s) = singleTileFlipDuration (config s)"
    "shader_totalDuration (uniforms s) = totalDuration (config s)"
    and valid: "validateConfig (config s) = Inr ()"
    by (simp_all add: timeline_inv_def shader_totalDuration_def totalDuration_def)
  from valid have flips: "0 < singleTileFlipDuration (config s)"
    "singleTileFlipDuration (config s) \<le> allTilesFlipDuration (config s)"
    by (simp_all add: validateConfig_def split: if_splits)
  from unhovered_at_rest [OF assms(1)] have zero: "uMorphProgress (uniforms s) = 0"
    by (simp add: at_rest_def)
  show ?thesis
  proof (cases "0 < initialWaitDuration (config s)")
    case True
    with u zero assms(3) have "phase_of (uniforms s) = InitialWait"
      by (simp add: phase_of_def initialWaitEnd_def)
    then show ?thesis
      by (simp add: main_def fragment_def invert_def phase_branch_def mix_def mix1_def Let_def)
  next
    case False
    with assms(2) have wait: "initialWaitDuration (config s) = 0" by simp
    from flips have "0 < allTilesFlipDuration (config s)" by simp
    with u zero wait assms(3) have phase: "phase_of (uniforms s) = FlipAB"
      by (simp add: phase_of_def initialWaitEnd_def flipABEnd_def)
    from u zero wait have local: "phaseProgressAB (uniforms s) = 0"
      by (simp add: phaseProgressAB_def initialWaitEnd_def)
    have still: "tile_flipProgress (uniforms s) (random (tileUV (uniforms s) vUv)) 0 = 0"
      using flips by (intro tile_flipProgress_at_start) (simp_all add: u random_def fract_nonneg)
    from phase local still show ?thesis
      by (simp add: main_def fragment_def invert_def phase_branch_def mix_def mix1_def Let_def)
  qed
qed

lemma leaving_frame_progress:
  assumes "leaving s" and "totalDuration (config s) \<noteq> 0" and "lastFrameTime s \<le> t"
  shows "frame_progress t s = Number 0"
proof -
  from leaving_at_rest [OF assms(1)] have rest: "direction s = - 1" "totalElapsedTime s = 0"
    by (simp_all add: at_rest_def)
  from assms(3) have "0 \<le> (t - lastFrameTime s) / 1000" by simp
  then have "max 0 (min T (0 + (t - lastFrameTime s) / 1000 * (- 1))) = 0" for T :: real
    by (rule clamp_down_zero)
  then show ?thesis
    by (simp add: frame_progress_number [OF assms(2)] rest)
qed

text \<open>
  Claim C10, as amended.  From construction until the first \<open>setHover\<close> call the
  direction is 0 and \<open>totalElapsedTime\<close>, \<open>morphProgress\<close> and the uniform
  \<open>uMorphProgress\<close> are 0, whatever frames, resizes and timers have run; when the
  initial wait is not negative and the total duration is positive, the shader then
  shows text A at every pixel.  \<open>setHover(false)\<close> in such a state sets the direction
  to -1.  From then on, while no \<open>setHover(true)\<close> follows and the clock does not run
  backwards, the direction is -1 and, when the total duration is not 0, the progress
  stays 0: the stored one, and the quotient JavaScript computes in a further frame.
\<close>

theorem idle_until_first_hover:
  "(unhovered s \<longrightarrow>
      direction s = 0 \<and> totalElapsedTime s = 0 \<and> morphProgress s = 0 \<and>
      uMorphProgress (uniforms s) = 0 \<and>
      direction (setHover False s) = - 1 \<and>
      (0 \<le> initialWaitDuration (config s) \<and> 0 < totalDuration (config s) \<longrightarrow>
         main (uniforms s) texture2D uninit vUv = texture2D (uTexA (uniforms s)) vUv)) \<and>
   (leaving s \<and> totalDuration (config s) \<noteq> 0 \<longrightarrow>
      direction s = - 1 \<and> totalElapsedTime s = 0 \<and> morphProgress s = 0 \<and>
      uMorphProgress (uniforms s) = 0 \<and>
      (lastFrameTime s \<le> t \<longrightarrow> frame_progress t s = Number 0))"
  using unhovered_at_rest [of s] leaving_at_rest [of s]
    unhovered_renders_A [of s texture2D uninit vUv] leaving_frame_progress [of s t]
  by (auto simp: at_rest_def)

theorem idle_until_first_hover_witness:
  "unhovered plain_engine \<and>
   direction plain_engine = 0 \<and>
   direction (setHover False plain_engine) = - 1 \<and>
   0 < initialWaitDuration (config plain_engine) \<and>
   main (uniforms plain_engine) inkless 0 (0, 0) = inkless (uTexA (uniforms plain_engine)) (0, 0) \<and>
   leaving (run_frame 100 (setHover False plain_engine)) \<and>
   totalDuration (config (run_frame 100 (setHover False plain_engine))) = 1.7 \<and>
   direction (run_frame 100 (setHover False plain_engine)) = - 1 \<and>
   morphProgress (run_frame 100 (setHover False plain_engine)) = 0 \<and>
   frame_progress 200 (run_frame 100 (setHover False plain_engine)) = Number 0 \<and>
   unhovered prompt_engine \<and>
   initialWaitDuration (config prompt_engine) = 0 \<and>
   totalDuration (config prompt_engine) = 3 / 2 \<and>
   main (uniforms prompt_engine) inked 0 (0, 0) = inked (uTexA (uniforms prompt_engine)) (0, 0)"
proof -
  have u: "unhovered plain_engine"
    by (rule unhovered.u_constructed, rule plain_engine_eq)
  have p: "unhovered prompt_engine"
    by (rule unhovered.u_constructed, rule prompt_engine_eq)
  have f: "lastFrameTime (run_frame 100 (setHover False plain_engine)) \<le> 200"
    by (simp add: run_frame_single [OF raf_inv_reachable [OF leaving_reachable [OF leaving.l_first [OF u]]]])
  have l: "leaving (run_frame 100 (setHover False plain_engine))"
    by (rule leaving.l_framed, rule leaving.l_first, rule u) (simp add: plain_engine_fields)
  have c: "config (run_frame 100 (setHover False plain_engine)) = spread plain_options"
    by (simp add: run_frame_single [OF raf_inv_reachable [OF leaving_reachable [OF leaving.l_first [OF u]]]]
        plain_engine_fields)
  have i: "0 < initialWaitDuration (config plain_engine)"
    by (simp add: plain_engine_fields config_evals plain_options_def)
  from idle_until_first_hover [of plain_engine inkless 0 "(0, 0)"]
    idle_until_first_hover [of "run_frame 100 (setHover False plain_engine)" _ _ _ 200]
    idle_until_first_hover [of prompt_engine inked 0 "(0, 0)"]
    u l c i p f
  show ?thesis
    by (simp add: plain_total plain_engine_fields constructed_fields [OF prompt_engine_eq]
        prompt_config)
qed

lemma origin_noise: "random (tileUV u (0, 0)) = 0"
  by (simp add: random_def tileUV_def fract_def)

text \<open>
  Claim C10 as the specification states it fails for options \<open>validateConfig\<close>
  accepts.  With an initial wait of -1/4 the idle engine, at progress 0, is half way
  through the flip from A to B: the tile at the origin has flipped and shows text B.
  With a wait between the flips of -3 the total duration is negative and the idle
  engine is in the hold of text B.  With a total duration of 0 the first frame after
  \<open>setHover(false)\<close> divides 0 by 0 and the progress is \<open>NaN\<close>, not 0.
\<close>

theorem idle_engine_not_text_A:
  "unhovered early_engine \<and>
   initialWaitDuration (config early_engine) = - 1 / 4 \<and>
   totalDuration (config early_engine) = 5 / 4 \<and>
   uMorphProgress (uniforms early_engine) = 0 \<and>
   phase_of (uniforms early_engine) = FlipAB \<and>
   phaseProgressAB (uniforms early_engine) = 1 / 2 \<and>
   main (uniforms early_engine) inked 0 (0, 0) = inked (uTexB (uniforms early_engine)) (0, 0) \<and>
   main (uniforms early_engine) inked 0 (0, 0) \<noteq> inked (uTexA (uniforms early_engine)) (0, 0) \<and>
   unhovered negative_total_engine \<and>
   initialWaitDuration (config negative_total_engine) = 1 / 5 \<and>
   totalDuration (config negative_total_engine) = - 8 / 5 \<and>
   phase_of (uniforms negative_total_engine) = WaitBetween \<and>
   main (uniforms negative_total_engine) inked 0 (0, 0) \<noteq>
     inked (uTexA (uniforms negative_total_engine)) (0, 0) \<and>
   leaving (setHover False zero_total_engine) \<and>
   lastFrameTime (setHover False zero_total_engine) = 0 \<and>
   totalDuration (config (setHover False zero_total_engine)) = 0 \<and>
   frame_progress 100 (setHover False zero_total_engine) = NaN"
proof -
  note e = constructed_fields [OF early_engine_eq] early_config
  note n = constructed_fields [OF negative_total_engine_eq] negative_total_config
  note z = constructed_fields [OF zero_total_engine_eq] zero_total_config
  have ue: "unhovered early_engine"
    by (rule unhovered.u_constructed, rule early_engine_eq)
  have un: "unhovered negative_total_engine"
    by (rule unhovered.u_constructed, rule negative_total_engine_eq)
  have lz: "leaving (setHover False zero_total_engine)"
    by (rule leaving.l_first, rule unhovered.u_constructed, rule zero_total_engine_eq)
  have ends: "initialWaitEnd (uniforms early_engine) = - 1 / 5"
    "flipABEnd (uniforms early_engine) = 1 / 5"
    by (simp_all add: initialWaitEnd_def flipABEnd_def shader_totalDuration_def e)
  have pe: "phase_of (uniforms early_engine) = FlipAB"
    by (simp add: phase_of_def ends e)
  have le: "phaseProgressAB (uniforms early_engine) = 1 / 2"
    by (simp add: phaseProgressAB_def ends e)
  have fe: "tile_flipProgress (uniforms early_engine) 0 (1 / 2) = 1"
    by (simp add: tile_flipProgress_def smoothstep_def clamp_def Let_def e)
  have me: "main (uniforms early_engine) inked 0 (0, 0) =
              \<lparr> red = 0, green = 0, blue = 0, alpha = 1 \<rparr>"
    by (simp add: main_def origin_noise fragment_def invert_def phase_branch_def pe le fe
        step_def mix_def mix1_def Let_def e createTextCanvas_def)
  have pn: "phase_of (uniforms negative_total_engine) = WaitBetween"
    by (simp add: phase_of_def initialWaitEnd_def flipABEnd_def waitBetweenEnd_def
        shader_totalDuration_def n)
  have mn: "main (uniforms negative_total_engine) inked 0 (0, 0) =
              \<lparr> red = 0, green = 0, blue = 0, alpha = 1 \<rparr>"
    by (simp add: main_def origin_noise fragment_def invert_def phase_branch_def pn
        step_def mix_def mix1_def Let_def n createTextCanvas_def)
  have nan: "frame_progress 100 (setHover False zero_total_engine) = NaN"
    by (simp add: frame_progress_def animate_quotient_def number_divide_def Let_def z)
  from ue un lz pe le me pn mn nan show ?thesis
    by (simp add: e n z createTextCanvas_def)
qed

subsection \<open>Total duration and the first phase boundary\<close>

lemma phase_at_initial_boundary:
  assumes "uInitialWaitDuration u = 0.2" "uAllTilesFlipDuration u = 0.5"
    "uWaitBetweenFlipsDuration u = 0.3" "uFinalWaitDuration u = 0.2"
    "uMorphProgress u = 0.2 / 1.7"
  shows "shader_totalDuration u = 1.7" "initialWaitEnd u = 0.2 / 1.7" "phase_of u = FlipAB"
  unfolding phase_of_def initialWaitEnd_def flipABEnd_def shader_totalDuration_def assms
  by simp_all

text \<open>
  Claim C1.  The total duration of the getter \<open>totalDuration\<close> is
  \<open>initialWaitDuration + 2 * allTilesFlipDuration + waitBetweenFlipsDuration +
  finalWaitDuration\<close>.  For the durations 0.2, 0.5, 0.3 and 0.2 it is 1.7, and a live
  engine whose elapsed time is 0.2 has the progress \<open>0.2 / 1.7\<close> in \<open>morphProgress\<close>
  and in the uniform; the shader computes the same total and the same first phase end
  \<open>0.2 / 1.7\<close>, and its comparisons select the flip A to B branch, not the initial hold.
\<close>

theorem total_duration_and_first_boundary:
  "totalDuration cfg =
     initialWaitDuration cfg + 2 * allTilesFlipDuration cfg + waitBetweenFlipsDuration cfg +
     finalWaitDuration cfg \<and>
   (initialWaitDuration cfg = 0.2 \<and> allTilesFlipDuration cfg = 0.5 \<and>
    waitBetweenFlipsDuration cfg = 0.3 \<and> finalWaitDuration cfg = 0.2 \<longrightarrow>
      totalDuration cfg = 1.7 \<and>
      (\<forall>s. reachable s \<and> config s = cfg \<and> totalElapsedTime s = 0.2 \<longrightarrow>
         morphProgress s = 0.2 / 1.7 \<and>
         uMorphProgress (uniforms s) = 0.2 / 1.7 \<and>
         shader_totalDuration (uniforms s) = 1.7 \<and>
         initialWaitEnd (uniforms s) = 0.2 / 1.7 \<and>
         phase_of (uniforms s) = FlipAB))"
proof (intro conjI impI allI)
  show "totalDuration cfg =
     initialWaitDuration cfg + 2 * allTilesFlipDuration cfg + waitBetweenFlipsDuration cfg +
     finalWaitDuration cfg"
    by (simp add: totalDuration_def)
next
  assume c: "initialWaitDuration cfg = 0.2 \<and> allTilesFlipDuration cfg = 0.5 \<and>
    waitBetweenFlipsDuration cfg = 0.3 \<and> finalWaitDuration cfg = 0.2"
  then show total: "totalDuration cfg = 1.7"
    by (simp add: totalDuration_def)
  fix s
  assume s: "reachable s \<and> config s = cfg \<and> totalElapsedTime s = 0.2"
  then have inv: "timeline_inv s" by (simp add: timeline_inv_reachable)
  from inv s total show p: "morphProgress s = 0.2 / 1.7"
    by (simp add: timeline_inv_def)
  from inv p show up: "uMorphProgress (uniforms s) = 0.2 / 1.7"
    by (simp add: timeline_inv_def)
  from inv s c have u: "uInitialWaitDuration (uniforms s) = 0.2"
    "uAllTilesFlipDuration (uniforms s) = 0.5"
    "uWaitBetweenFlipsDuration (uniforms s) = 0.3" "uFinalWaitDuration (uniforms s) = 0.2"
    by (simp_all add: timeline_inv_def)
  from phase_at_initial_boundary [OF u up]
  show "shader_totalDuration (uniforms s) = 1.7" "initialWaitEnd (uniforms s) = 0.2 / 1.7"
    "phase_of (uniforms s) = FlipAB"
    by simp_all
qed

theorem total_duration_and_first_boundary_witness:
  "initialWaitDuration (spread plain_options) = 0.2 \<and>
   allTilesFlipDuration (spread plain_options) = 0.5 \<and>
   waitBetweenFlipsDuration (spread plain_options) = 0.3 \<and>
   finalWaitDuration (spread plain_options) = 0.2 \<and>
   totalDuration (spread plain_options) = 1.7 \<and>
   reachable plain_engine_200 \<and>
   config plain_engine_200 = spread plain_options \<and>
   totalElapsedTime plain_engine_200 = 0.2 \<and>
   morphProgress plain_engine_200 = 0.2 / 1.7 \<and>
   uMorphProgress (uniforms plain_engine_200) = 0.2 / 1.7 \<and>
   initialWaitEnd (uniforms plain_engine_200) = 0.2 / 1.7 \<and>
   phase_of (uniforms plain_engine_200) = FlipAB"
proof -
  have c: "initialWaitDuration (spread plain_options) = 0.2 \<and>
      allTilesFlipDuration (spread plain_options) = 0.5 \<and>
      waitBetweenFlipsDuration (spread plain_options) = 0.3 \<and>
      finalWaitDuration (spread plain_options) = 0.2"
    by (simp add: config_evals plain_options_def)
  have r: "reachable plain_engine_200"
    unfolding plain_engine_200_def
    by (rule reachable.framed, rule reachable.hovered, rule reachable.constructed,
        rule plain_engine_eq)
  have s: "reachable plain_engine_200 \<and> config plain_engine_200 = spread plain_options \<and>
      totalElapsedTime plain_engine_200 = 0.2"
    using r by (simp add: plain_engine_200_fields)
  from total_duration_and_first_boundary [of "spread plain_options"] c s
  show ?thesis by blast
qed

subsection \<open>The tile schedule of the shader\<close>

lemma phaseProgressAB_range:
  assumes "phase_of u = FlipAB"
  shows "0 \<le> phaseProgressAB u \<and> phaseProgressAB u \<le> 1"
proof -
  from assms have "initialWaitEnd u \<le> uMorphProgress u" "uMorphProgress u < flipABEnd u"
    by (simp_all add: phase_of_def split: if_splits)
  then show ?thesis by (simp add: phaseProgressAB_def)
qed

lemma phaseProgressBC_range:
  assumes "phase_of u = FlipBC"
  shows "0 \<le> phaseProgressBC u \<and> phaseProgressBC u \<le> 1"
proof -
  from assms have "waitBetweenEnd u \<le> uMorphProgress u" "uMorphProgress u < flipBCEnd u"
    by (simp_all add: phase_of_def split: if_splits)
  then show ?thesis by (simp add: phaseProgressBC_def)
qed

text \<open>In a flip branch the total duration and the flip duration are not 0.\<close>

lemma flip_phase_divisors:
  assumes "phase_of u = FlipAB \<or> phase_of u = FlipBC"
  shows "shader_totalDuration u \<noteq> 0 \<and> uAllTilesFlipDuration u \<noteq> 0"
proof -
  from assms have "initialWaitEnd u < flipABEnd u \<or> waitBetweenEnd u < flipBCEnd u"
    by (auto simp: phase_of_def split: if_splits)
  then show ?thesis
    by (auto simp: initialWaitEnd_def flipABEnd_def waitBetweenEnd_def flipBCEnd_def)
qed

lemma tile_flipProgress_spec:
  "tile_flipProgress u r p =
     spec_flipAmount r (uAllTilesFlipDuration u) (uSingleTileFlipDuration u) p"
  by (simp add: tile_flipProgress_def spec_flipAmount_def spec_flipWindowStart_def
      spec_flipWindowEnd_def Let_def)

lemmas shader_defs =
  fragment_def invert_def phase_branch_def spec_color_def spec_invert_def spec_inverted_def
  tile_flipProgress_spec Let_def

text \<open>
  Claim C4.  In each of the two flip branches the shader computes, for a tile with
  random value \<open>r\<close>, exactly the schedule of the specification at the branch's
  phase-local progress \<open>p\<close> (which lies in \<open>[0, 1]\<close>): \<open>flipWindowStart =
  r * (allTilesFlipDuration - singleTileFlipDuration) / allTilesFlipDuration\<close>,
  \<open>flipWindowEnd = flipWindowStart + singleTileFlipDuration / allTilesFlipDuration\<close>,
  \<open>flipAmount = smoothstep(flipWindowStart, flipWindowEnd, p)\<close>,
  \<open>invert = step(invertThreshold, r) * flipAmount * max(presenceSource, presenceTarget)\<close>;
  and the colour is the blend, by \<open>flipAmount\<close>, of the source towards the target, where
  the source is replaced by black with alpha \<open>1 - alpha\<close> when \<open>invert > 0.5\<close>.
\<close>

theorem flip_phase_schedule:
  "(phase_of u = FlipAB \<longrightarrow>
      0 \<le> phaseProgressAB u \<and> phaseProgressAB u \<le> 1 \<and>
      flipProgress (phase_branch u texture2D uninit r vUv) =
        spec_flipAmount r (uAllTilesFlipDuration u) (uSingleTileFlipDuration u)
          (phaseProgressAB u) \<and>
      invert u texture2D uninit r vUv =
        spec_invert (uInvertThreshold u) r
          (spec_flipAmount r (uAllTilesFlipDuration u) (uSingleTileFlipDuration u)
             (phaseProgressAB u))
          (red (texture2D (uPresenceA u) (presenceUV u vUv)))
          (red (texture2D (uPresenceB u) (presenceUV u vUv))) \<and>
      fragment u texture2D uninit r vUv =
        spec_color (invert u texture2D uninit r vUv)
          (spec_flipAmount r (uAllTilesFlipDuration u) (uSingleTileFlipDuration u)
             (phaseProgressAB u))
          (texture2D (uTexA u) vUv) (texture2D (uTexB u) vUv)) \<and>
   (phase_of u = FlipBC \<longrightarrow>
      0 \<le> phaseProgressBC u \<and> phaseProgressBC u \<le> 1 \<and>
      flipProgress (phase_branch u texture2D uninit r vUv) =
        spec_flipAmount r (uAllTilesFlipDuration u) (uSingleTileFlipDuration u)
          (phaseProgressBC u) \<and>
      invert u texture2D uninit r vUv =
        spec_invert (uInvertThreshold u) r
          (spec_flipAmount r (uAllTilesFlipDuration u) (uSingleTileFlipDuration u)
             (phaseProgressBC u))
          (red (texture2D (uPresenceB u) (presenceUV u vUv)))
          (red (texture2D (uPresenceC u) (presenceUV u vUv))) \<and>
      fragment u texture2D uninit r vUv =
        spec_color (invert u texture2D uninit r vUv)
          (spec_flipAmount r (uAllTilesFlipDuration u) (uSingleTileFlipDuration u)
             (phaseProgressBC u))
          (texture2D (uTexB u) vUv) (texture2D (uTexC u) vUv))"
proof (intro conjI impI)
  assume ab: "phase_of u = FlipAB"
  from phaseProgressAB_range [OF ab]
  show "0 \<le> phaseProgressAB u" "phaseProgressAB u \<le> 1" by simp_all
  from ab show "flipProgress (phase_branch u texture2D uninit r vUv) =
        spec_flipAmount r (uAllTilesFlipDuration u) (uSingleTileFlipDuration u)
          (phaseProgressAB u)"
    by (simp add: shader_defs)
  from ab show "invert u texture2D uninit r vUv =
        spec_invert (uInvertThreshold u) r
          (spec_flipAmount r (uAllTilesFlipDuration u) (uSingleTileFlipDuration u)
             (phaseProgressAB u))
          (red (texture2D (uPresenceA u) (presenceUV u vUv)))
          (red (texture2D (uPresenceB u) (presenceUV u vUv)))"
    by (simp add: shader_defs)
  from ab show "fragment u texture2D uninit r vUv =
        spec_color (invert u texture2D uninit r vUv)
          (spec_flipAmount r (uAllTilesFlipDuration u) (uSingleTileFlipDuration u)
             (phaseProgressAB u))
          (texture2D (uTexA u) vUv) (texture2D (uTexB u) vUv)"
    by (simp add: shader_defs)
next
  assume bc: "phase_of u = FlipBC"
  from phaseProgressBC_range [OF bc]
  show "0 \<le> phaseProgressBC u" "phaseProgressBC u \<le> 1" by simp_all
  from bc show "flipProgress (phase_branch u texture2D uninit r vUv) =
        spec_flipAmount r (uAllTilesFlipDuration u) (uSingleTileFlipDuration u)
          (phaseProgressBC u)"
    by (simp add: shader_defs)
  from bc show "invert u texture2D uninit r vUv =
        spec_invert (uInvertThreshold u) r
          (spec_flipAmount r (uAllTilesFlipDuration u) (uSingleTileFlipDuration u)
             (phaseProgressBC u))
          (red (texture2D (uPresenceB u) (presenceUV u vUv)))
          (red (texture2D (uPresenceC u) (presenceUV u vUv)))"
    by (simp add: shader_defs)
  from bc show "fragment u texture2D uninit r vUv =
        spec_color (invert u texture2D uninit r vUv)
          (spec_flipAmount r (uAllTilesFlipDuration u) (uSingleTileFlipDuration u)
             (phaseProgressBC u))
          (texture2D (uTexB u) vUv) (texture2D (uTexC u) vUv)"
    by (simp add: shader_defs)
qed

lemma plain_engine_325_phase:
  "phase_of (uniforms plain_engine_325) = FlipAB"
  "phaseProgressAB (uniforms plain_engine_325) = 0.25"
  by (simp_all add: phase_of_def phaseProgressAB_def initialWaitEnd_def flipABEnd_def
      shader_totalDuration_def plain_engine_325_fields)

lemma flipAmount_example: "spec_flipAmount (1 / 8) (1 / 2) (1 / 10) (1 / 4) = 27 / 32"
  by (simp add: spec_flipAmount_def spec_flipWindowStart_def spec_flipWindowEnd_def
      smoothstep_def clamp_def Let_def)

lemma plain_engine_1125_phase:
  "phase_of (uniforms plain_engine_1125) = FlipBC"
  "phaseProgressBC (uniforms plain_engine_1125) = 0.25"
  by (simp_all add: phase_of_def phaseProgressBC_def initialWaitEnd_def flipABEnd_def
      waitBetweenEnd_def flipBCEnd_def shader_totalDuration_def plain_engine_1125_fields)

theorem flip_phase_schedule_witness:
  "phase_of (uniforms plain_engine_325) = FlipAB \<and>
   phaseProgressAB (uniforms plain_engine_325) = 0.25 \<and>
   flipProgress (phase_branch (uniforms plain_engine_325) inked 0 0.125 (0, 0)) = 27 / 32 \<and>
   invert (uniforms plain_engine_325) inked 0 0.125 (0, 0) = 27 / 32 \<and>
   fragment (uniforms plain_engine_325) inked 0 0.125 (0, 0) =
     \<lparr> red = 0, green = 0, blue = 0, alpha = 27 / 32 \<rparr> \<and>
   phase_of (uniforms plain_engine_1125) = FlipBC \<and>
   phaseProgressBC (uniforms plain_engine_1125) = 0.25 \<and>
   invert (uniforms plain_engine_1125) inked 0 0.125 (0, 0) = 27 / 32 \<and>
   fragment (uniforms plain_engine_1125) inked 0 0.125 (0, 0) =
     \<lparr> red = 0, green = 0, blue = 0, alpha = 27 / 32 \<rparr>"
  using flip_phase_schedule [of "uniforms plain_engine_325" inked 0 "0.125" "(0, 0)"]
    flip_phase_schedule [of "uniforms plain_engine_1125" inked 0 "0.125" "(0, 0)"]
  by (simp add: plain_engine_325_phase plain_engine_325_fields plain_engine_1125_phase
      plain_engine_1125_fields flipAmount_example
      spec_invert_def spec_color_def spec_inverted_def step_def mix_def mix1_def
      createTextCanvas_def)

text \<open>
  Claim C5.  In a flip branch, a tile whose presence textures both read 0 (source and
  target text of that branch) has \<open>invert = 0\<close>, whatever its random value and the
  progress are: the branch \<open>invert > 0.5\<close> is not taken and the colour is the plain blend
  of the source texture towards the target texture.
\<close>

theorem no_ink_no_inversion:
  "(phase_of u = FlipAB \<and>
    red (texture2D (uPresenceA u) (presenceUV u vUv)) = 0 \<and>
    red (texture2D (uPresenceB u) (presenceUV u vUv)) = 0 \<longrightarrow>
      invert u texture2D uninit r vUv = 0 \<and>
      \<not> invert u texture2D uninit r vUv > 0.5 \<and>
      fragment u texture2D uninit r vUv =
        mix (texture2D (uTexA u) vUv) (texture2D (uTexB u) vUv)
          (tile_flipProgress u r (phaseProgressAB u))) \<and>
   (phase_of u = FlipBC \<and>
    red (texture2D (uPresenceB u) (presenceUV u vUv)) = 0 \<and>
    red (texture2D (uPresenceC u) (presenceUV u vUv)) = 0 \<longrightarrow>
      invert u texture2D uninit r vUv = 0 \<and>
      \<not> invert u texture2D uninit r vUv > 0.5 \<and>
      fragment u texture2D uninit r vUv =
        mix (texture2D (uTexB u) vUv) (texture2D (uTexC u) vUv)
          (tile_flipProgress u r (phaseProgressBC u)))"
  by (simp add: fragment_def invert_def phase_branch_def Let_def)

theorem no_ink_no_inversion_witness:
  "phase_of (uniforms plain_engine_325) = FlipAB \<and>
   red (inkless (uPresenceA (uniforms plain_engine_325))
          (presenceUV (uniforms plain_engine_325) (0, 0))) = 0 \<and>
   red (inkless (uPresenceB (uniforms plain_engine_325))
          (presenceUV (uniforms plain_engine_325) (0, 0))) = 0 \<and>
   invert (uniforms plain_engine_325) inkless 0 0.125 (0, 0) = 0 \<and>
   fragment (uniforms plain_engine_325) inkless 0 0.125 (0, 0) =
     \<lparr> red = 1, green = 1, blue = 1, alpha = 1 \<rparr> \<and>
   phase_of (uniforms plain_engine_1125) = FlipBC \<and>
   red (inkless (uPresenceB (uniforms plain_engine_1125))
          (presenceUV (uniforms plain_engine_1125) (0, 0))) = 0 \<and>
   red (inkless (uPresenceC (uniforms plain_engine_1125))
          (presenceUV (uniforms plain_engine_1125) (0, 0))) = 0 \<and>
   invert (uniforms plain_engine_1125) inkless 0 0.125 (0, 0) = 0 \<and>
   fragment (uniforms plain_engine_1125) inkless 0 0.125 (0, 0) =
     \<lparr> red = 1, green = 1, blue = 1, alpha = 1 \<rparr>"
  using no_ink_no_inversion [of "uniforms plain_engine_325" inkless "(0, 0)" 0 "0.125"]
    no_ink_no_inversion [of "uniforms plain_engine_1125" inkless "(0, 0)" 0 "0.125"]
  by (simp add: plain_engine_325_phase plain_engine_325_fields plain_engine_1125_phase
      plain_engine_1125_fields tile_flipProgress_spec flipAmount_example mix_def mix1_def)

subsection \<open>Rounding to double precision\<close>

declare exponent_up.simps [simp del] exponent_down.simps [simp del]

lemmas double_evals =
  to_double_def quantum_def round_half_even_def exponent_def pow2_def double_times_def
  double_divide_def exponent_up.simps exponent_down.simps Let_def

lemma pow2_pos: "0 < pow2 k"
  by (simp add: pow2_def)

text \<open>\<open>exponent v\<close> is the binary exponent of \<open>v\<close>.\<close>

lemma exponent_up_bounds:
  "1 \<le> v \<Longrightarrow> 2 ^ exponent_up v \<le> v \<and> v < 2 * 2 ^ exponent_up v"
proof (induction v rule: exponent_up.induct)
  case (1 v)
  show ?case
  proof (cases "2 \<le> v")
    case True
    with "1.IH" have "2 ^ exponent_up (v / 2) \<le> v / 2 \<and> v / 2 < 2 * 2 ^ exponent_up (v / 2)"
      by simp
    with True show ?thesis by (subst (1 2) exponent_up.simps) simp
  next
    case False
    with "1.prems" show ?thesis by (subst (1 2) exponent_up.simps) simp
  qed
qed

lemma exponent_down_bounds:
  "0 < v \<Longrightarrow> v < 1 \<Longrightarrow>
   1 \<le> v * 2 ^ exponent_down v \<and> v * 2 ^ exponent_down v < 2"
proof (induction v rule: exponent_down.induct)
  case (1 v)
  from "1.prems" have step: "exponent_down v = Suc (exponent_down (2 * v))"
    by (subst exponent_down.simps) simp
  show ?case
  proof (cases "2 * v < 1")
    case True
    with "1.IH" "1.prems" show ?thesis by (simp add: step mult.assoc mult.left_commute)
  next
    case False
    then have "exponent_down (2 * v) = 0" by (subst exponent_down.simps) simp
    with False "1.prems" show ?thesis by (simp add: step)
  qed
qed

lemma exponent_bounds:
  assumes "v \<noteq> 0"
  shows "pow2 (exponent v) \<le> \<bar>v\<bar> \<and> \<bar>v\<bar> < pow2 (exponent v + 1)"
proof (cases "1 \<le> \<bar>v\<bar>")
  case True
  with exponent_up_bounds [OF True] show ?thesis
    by (simp add: exponent_def pow2_def nat_add_distrib)
next
  case False
  with assms have v: "0 < \<bar>v\<bar>" "\<bar>v\<bar> < 1" by simp_all
  let ?k = "exponent_down \<bar>v\<bar>"
  from v have k: "0 < ?k" by (subst exponent_down.simps) simp
  from exponent_down_bounds [OF v]
  have b: "1 \<le> \<bar>v\<bar> * 2 ^ ?k" "\<bar>v\<bar> * 2 ^ ?k < 2" by simp_all
  from b(1) have lo: "1 / 2 ^ ?k \<le> \<bar>v\<bar>" by (simp add: field_simps)
  obtain j where j: "?k = Suc j" using k by (cases ?k) simp_all
  from b(2) have hi: "\<bar>v\<bar> < 1 / 2 ^ j" by (simp add: j field_simps)
  have e: "exponent v = - int ?k" using False by (simp add: exponent_def)
  have p1: "pow2 (exponent v) = 1 / 2 ^ ?k" using k by (simp add: e pow2_def)
  have p2: "pow2 (exponent v + 1) = 1 / 2 ^ j"
    by (cases j) (simp_all add: e j pow2_def nat_add_distrib)
  from lo hi show ?thesis by (simp add: p1 p2)
qed

text \<open>\<open>to_double v\<close> is at most half a quantum away from \<open>v\<close>.\<close>

lemma round_half_even_near: "\<bar>of_int (round_half_even v) - v\<bar> \<le> 1 / 2"
  unfolding round_half_even_def Let_def by (auto simp: abs_if) linarith+

lemma to_double_near: "\<bar>to_double v - v\<bar> \<le> quantum v / 2"
proof (cases "v = 0")
  case True
  then show ?thesis by (simp add: to_double_def quantum_def pow2_def)
next
  case False
  have q: "0 < quantum v" by (simp add: quantum_def pow2_def)
  have "to_double v - v = (of_int (round_half_even (v / quantum v)) - v / quantum v) * quantum v"
    using False q by (simp add: to_double_def field_simps)
  then have "\<bar>to_double v - v\<bar> =
               \<bar>of_int (round_half_even (v / quantum v)) - v / quantum v\<bar> * quantum v"
    using q by (simp add: abs_mult)
  also have "\<dots> \<le> 1 / 2 * quantum v"
    using round_half_even_near [of "v / quantum v"] q by (intro mult_right_mono) simp_all
  finally show ?thesis by simp
qed

text \<open>
  Whole numbers up to \<open>2^53\<close> are binary64 values: rounding leaves them as they are, so
  the sums and products of pixel positions and indices are exact.
\<close>

lemma round_half_even_of_int: "round_half_even (of_int n) = n"
  by (simp add: round_half_even_def)

lemma to_double_of_int:
  assumes "\<bar>n\<bar> \<le> 2 ^ 53"
  shows "to_double (of_int n) = of_int n"
proof (cases "n = 0")
  case True
  then show ?thesis by (simp add: to_double_def)
next
  case False
  let ?v = "of_int n :: real"
  from False have "1 \<le> \<bar>n\<bar>" by linarith
  then have "(of_int 1 :: real) \<le> of_int \<bar>n\<bar>" by (simp only: of_int_le_iff)
  then have one: "1 \<le> \<bar>?v\<bar>" by simp
  define k where "k = exponent_up \<bar>?v\<bar>"
  have e: "exponent ?v = int k" using one by (simp add: exponent_def k_def)
  from exponent_up_bounds [OF one] have lo: "2 ^ k \<le> \<bar>?v\<bar>" by (simp add: k_def)
  from assms have "(of_int \<bar>n\<bar> :: real) \<le> of_int (2 ^ 53)" by (simp only: of_int_le_iff)
  then have hi: "\<bar>?v\<bar> \<le> 2 ^ 53" by simp
  with lo have "(2::real) ^ k \<le> 2 ^ 53" by linarith
  have k53: "k \<le> 53"
  proof (rule power_le_imp_le_exp)
    show "(1::real) < 2" by simp
    show "(2::real) ^ k \<le> 2 ^ 53" by fact
  qed
  have q: "quantum ?v = pow2 (int k - 52)" by (simp add: quantum_def e)
  show ?thesis
  proof (cases "k \<le> 52")
    case True
    then have q': "quantum ?v = 1 / 2 ^ (52 - k)"
      by (simp add: q pow2_def nat_diff_distrib')
    have "?v / quantum ?v = of_int (n * 2 ^ (52 - k))" by (simp add: q')
    then have "round_half_even (?v / quantum ?v) = n * 2 ^ (52 - k)"
      by (simp only: round_half_even_of_int)
    then show ?thesis using False by (simp add: to_double_def q')
  next
    case False
    with k53 have k: "k = 53" by simp
    with lo hi have "\<bar>?v\<bar> = 2 ^ 53" by simp
    then have "(of_int \<bar>n\<bar> :: real) = of_int (2 ^ 53)" by simp
    then have "\<bar>n\<bar> = 2 ^ 53" by (simp only: of_int_eq_iff)
    then have n: "n = 2 ^ 53 \<or> n = - (2 ^ 53)" by (auto simp: abs_if split: if_splits)
    have q': "quantum ?v = 2" by (simp add: q k pow2_def)
    from n obtain m where m: "n = 2 * m" by auto
    have "?v / 2 = of_int m" by (simp add: m)
    then have "?v / quantum ?v = of_int m" by (simp only: q')
    then have r: "round_half_even (?v / quantum ?v) = m"
      by (simp only: round_half_even_of_int)
    have "to_double ?v = of_int (round_half_even (?v / quantum ?v)) * quantum ?v"
      using \<open>n \<noteq> 0\<close> by (simp add: to_double_def)
    also have "\<dots> = of_int m * 2" by (subst r) (simp only: q')
    also have "\<dots> = ?v" by (simp add: m)
    finally show ?thesis .
  qed
qed

lemma round_half_even_nonneg: "0 \<le> v \<Longrightarrow> 0 \<le> round_half_even v"
  by (simp add: round_half_even_def Let_def)

lemma to_double_nonneg:
  assumes "0 \<le> v"
  shows "0 \<le> to_double v"
proof -
  have "0 < quantum v" by (simp add: quantum_def pow2_pos)
  with assms have "0 \<le> v / quantum v" by simp
  then have "0 \<le> round_half_even (v / quantum v)" by (rule round_half_even_nonneg)
  with \<open>0 < quantum v\<close> show ?thesis by (simp add: to_double_def)
qed

lemma double_times_nonneg: "0 \<le> v \<Longrightarrow> 0 \<le> w \<Longrightarrow> 0 \<le> double_times v w"
  by (simp add: double_times_def to_double_nonneg)

lemma double_divide_nonneg: "0 \<le> v \<Longrightarrow> 0 \<le> w \<Longrightarrow> 0 \<le> double_divide v w"
  by (simp add: double_divide_def to_double_nonneg)

text \<open>
  Rounding moves the start of a tile.  For a surface 30 pixels wide and 22 tiles the
  cell size is the double nearest to \<open>30 / 22\<close>, and 11 times that is rounded to the
  double just below 15: tile 11 starts at pixel 14, where the exact product gives 15.
  With 164 pixels and 20 tiles (the grid of the default 8 pixel tiles) tile 15 starts
  at pixel 122, not 123.
\<close>

lemma rounding_moves_tile_start:
  "tile_start 11 (cell_size 30 22) = 14"
  "spec_tile_start 11 (30 / 22) = 15"
  "tile_start 15 (cell_size 164 20) = 122"
  "spec_tile_start 15 (164 / 20) = 123"
  by (simp_all add: tile_start_def spec_tile_start_def cell_size_def double_evals)

subsection \<open>The presence scan\<close>

declare scan_row.simps [simp del] scan_rows.simps [simp del]
  fill_row.simps [simp del] fill_rows.simps [simp del]

lemma pixel_at_in_array:
  "in_array pixels i \<Longrightarrow> pixel_at pixels i = Some (pixels ! nat i)"
  by (simp add: pixel_at_def in_array_def)

lemma Bex_from:
  "x < endX \<Longrightarrow> (\<exists>x' \<in> {x..<endX}. P x') \<longleftrightarrow> P x \<or> (\<exists>x' \<in> {x + 1..<endX}. P x')" for x :: int
proof
  assume "\<exists>x' \<in> {x..<endX}. P x'"
  then obtain x' where x': "x \<le> x'" "x' < endX" "P x'" by auto
  show "P x \<or> (\<exists>x' \<in> {x + 1..<endX}. P x')"
  proof (cases "x' = x")
    case True
    with x' show ?thesis by simp
  next
    case False
    with x' have "x' \<in> {x + 1..<endX}" by simp
    with x'(3) show ?thesis by blast
  qed
next
  assume "x < endX" "P x \<or> (\<exists>x' \<in> {x + 1..<endX}. P x')"
  then show "\<exists>x' \<in> {x..<endX}. P x'" by auto
qed

lemma scan_row_correct:
  assumes "\<And>x'. x \<le> x' \<Longrightarrow> x' < endX \<Longrightarrow> in_array pixels (alpha_index cw x' y)"
  shows "scan_row pixels cw y x endX = Some (\<exists>x' \<in> {x..<endX}. ink_at pixels cw x' y)"
  using assms
proof (induction pixels cw y x endX rule: scan_row.induct)
  case (1 pixels cw y x endX)
  show ?case
  proof (cases "x < endX")
    case False
    then show ?thesis by (subst scan_row.simps) simp
  next
    case True
    from "1.prems" [of x] True
    have here: "pixel_at pixels (alpha_index cw x y) = Some (pixels ! nat (alpha_index cw x y))"
      by (simp add: pixel_at_in_array)
    show ?thesis
    proof (cases "pixels ! nat (alpha_index cw x y) > 0")
      case found: True
      with here have "ink_at pixels cw x y" by (simp add: ink_at_def)
      with here True found show ?thesis
        by (subst scan_row.simps) (simp add: Bex_from)
    next
      case none: False
      with here have no: "\<not> ink_at pixels cw x y" by (simp add: ink_at_def)
      have "scan_row pixels cw y (x + 1) endX = Some (\<exists>x' \<in> {x + 1..<endX}. ink_at pixels cw x' y)"
        using True here none "1.prems" by (intro "1.IH") simp_all
      with here True none no show ?thesis
        by (subst scan_row.simps) (simp add: Bex_from)
    qed
  qed
qed

lemma scan_rows_correct:
  assumes "\<And>x' y'. y \<le> y' \<Longrightarrow> y' < endY \<Longrightarrow> startX \<le> x' \<Longrightarrow> x' < endX \<Longrightarrow>
             in_array pixels (alpha_index cw x' y')"
  shows "scan_rows pixels cw startX endX y endY = Some (has_ink pixels cw startX endX y endY)"
  using assms
proof (induction pixels cw startX endX y endY rule: scan_rows.induct)
  case (1 pixels cw startX endX y endY)
  show ?case
  proof (cases "y < endY")
    case False
    then show ?thesis by (subst scan_rows.simps) (simp add: has_ink_def)
  next
    case True
    let ?R = "\<lambda>y'. \<exists>x' \<in> {startX..<endX}. ink_at pixels cw x' y'"
    have row: "scan_row pixels cw y startX endX = Some (?R y)"
      using "1.prems" [of y] True by (intro scan_row_correct) simp
    have split: "has_ink pixels cw startX endX y endY \<longleftrightarrow>
                 ?R y \<or> has_ink pixels cw startX endX (y + 1) endY"
      unfolding has_ink_def by (rule Bex_from [OF True])
    show ?thesis
    proof (cases "?R y")
      case found: True
      with row True show ?thesis
        by (subst scan_rows.simps) (simp add: split)
    next
      case none: False
      have "scan_rows pixels cw startX endX (y + 1) endY =
              Some (has_ink pixels cw startX endX (y + 1) endY)"
      proof (rule "1.IH" [OF True row none])
        fix x' y'
        assume "y + 1 \<le> y'" "y' < endY" "startX \<le> x'" "x' < endX"
        then show "in_array pixels (alpha_index cw x' y')"
          by (intro "1.prems") simp_all
      qed
      with row True none show ?thesis
        by (subst scan_rows.simps) (simp add: split)
    qed
  qed
qed


text \<open>Every pixel of the surface has its alpha byte inside the array.\<close>

lemma alpha_index_in_array:
  assumes "int (length pixels) = 4 * cw * ch" and "0 \<le> x" and "x < cw" and "0 \<le> y" and "y < ch"
  shows "in_array pixels (alpha_index cw x y)"
proof -
  from assms have "y * cw + x < (y + 1) * cw" by (simp add: algebra_simps)
  also from assms have "(y + 1) * cw \<le> ch * cw" by (intro mult_right_mono) simp_all
  finally have "y * cw + x < ch * cw" .
  moreover from assms have "0 \<le> y * cw" by simp
  ultimately show ?thesis
    using assms by (simp add: in_array_def alpha_index_def algebra_simps)
qed

lemma tile_start_nonneg: "0 \<le> cell \<Longrightarrow> 0 \<le> tile_start i cell"
  by (simp add: tile_start_def double_times_nonneg)

lemma scanTileForText_correct:
  assumes "int (length pixels) = 4 * width * height"
    and "0 \<le> tileWidth" and "0 \<le> tileHeight"
  shows "scanTileForText pixels width height tileX tileY tileWidth tileHeight =
           Some (has_ink pixels width
                   (tile_start tileX tileWidth) (tile_end tileX tileWidth width)
                   (tile_start tileY tileHeight) (tile_end tileY tileHeight height))"
proof -
  have "scan_rows pixels width (tile_start tileX tileWidth) (tile_end tileX tileWidth width)
          (tile_start tileY tileHeight) (tile_end tileY tileHeight height) =
        Some (has_ink pixels width
                   (tile_start tileX tileWidth) (tile_end tileX tileWidth width)
                   (tile_start tileY tileHeight) (tile_end tileY tileHeight height))"
  proof (rule scan_rows_correct)
    fix x' y'
    assume y: "tile_start tileY tileHeight \<le> y'" "y' < tile_end tileY tileHeight height"
      and x: "tile_start tileX tileWidth \<le> x'" "x' < tile_end tileX tileWidth width"
    from x tile_start_nonneg [OF assms(2), of tileX] have "0 \<le> x'" "x' < width"
      by (simp_all add: tile_end_def)
    moreover from y tile_start_nonneg [OF assms(3), of tileY] have "0 \<le> y'" "y' < height"
      by (simp_all add: tile_end_def)
    ultimately show "in_array pixels (alpha_index width x' y')"
      by (intro alpha_index_in_array [OF assms(1)])
  qed
  then show ?thesis
    by (simp add: scanTileForText_def tile_start_def tile_end_def Let_def)
qed


lemma fill_row_correct:
  assumes "int (length pixels) = 4 * width * height" and "0 \<le> tw" and "0 \<le> th"
  shows "\<exists>d. fill_row pixels width height tls tw th tileY tileX presence = Some d \<and>
           length d = length presence \<and>
           (\<forall>j. tileX \<le> j \<and> j < fst tls \<and> tileY * fst tls + j < length presence \<longrightarrow>
                d ! (tileY * fst tls + j) =
                  (if has_ink pixels width (tile_start j tw) (tile_end j tw width)
                        (tile_start tileY th) (tile_end tileY th height)
                   then 255 else 0)) \<and>
           (\<forall>k. k < length presence \<and>
                (k < tileY * fst tls + tileX \<or> tileY * fst tls + fst tls \<le> k) \<longrightarrow>
                d ! k = presence ! k)"
  using assms
proof (induction pixels width height tls tw th tileY tileX presence rule: fill_row.induct)
  case (1 pixels width height tls tw th tileY tileX presence)
  let ?v = "\<lambda>j. if has_ink pixels width (tile_start j tw) (tile_end j tw width)
                        (tile_start tileY th) (tile_end tileY th height)
                 then 255 else (0::nat)"
  show ?case
  proof (cases "tileX < fst tls")
    case False
    then show ?thesis by (subst fill_row.simps) simp
  next
    case True
    let ?i = "tileY * fst tls + tileX"
    let ?p = "presence[?i := ?v tileX]"
    have scan: "scanTileForText pixels width height tileX tileY tw th =
                  Some (has_ink pixels width (tile_start tileX tw) (tile_end tileX tw width)
                        (tile_start tileY th) (tile_end tileY th height))"
      by (rule scanTileForText_correct [OF "1.prems"])
    from "1.IH" [OF True scan "1.prems"]
    obtain d where d: "fill_row pixels width height tls tw th tileY (tileX + 1) ?p = Some d"
      and len: "length d = length ?p"
      and set: "\<And>j. tileX + 1 \<le> j \<Longrightarrow> j < fst tls \<Longrightarrow>
                 tileY * fst tls + j < length ?p \<Longrightarrow> d ! (tileY * fst tls + j) = ?v j"
      and keep: "\<And>k. k < length ?p \<Longrightarrow>
                 k < tileY * fst tls + (tileX + 1) \<or> tileY * fst tls + fst tls \<le> k \<Longrightarrow>
                 d ! k = ?p ! k"
      by (simp cong: if_cong) blast
    have res: "fill_row pixels width height tls tw th tileY tileX presence = Some d"
      using True scan d by (subst fill_row.simps) (simp cong: if_cong)
    have "d ! (tileY * fst tls + j) = ?v j"
      if "tileX \<le> j" "j < fst tls" "tileY * fst tls + j < length presence" for j
    proof (cases "j = tileX")
      case True
      with that keep [of ?i] show ?thesis by simp
    next
      case False
      with that set [of j] show ?thesis by simp
    qed
    moreover have "d ! k = presence ! k"
      if "k < length presence" "k < ?i \<or> tileY * fst tls + fst tls \<le> k" for k
      using that keep [of k] True by auto
    ultimately show ?thesis using res len by simp
  qed
qed


lemma fill_rows_correct:
  assumes "int (length pixels) = 4 * width * height" and "0 \<le> tw" and "0 \<le> th"
  shows "\<exists>d. fill_rows pixels width height tls tw th tileY presence = Some d \<and>
           length d = length presence \<and>
           (\<forall>r j. tileY \<le> r \<and> r < snd tls \<and> j < fst tls \<and>
                  r * fst tls + j < length presence \<longrightarrow>
                d ! (r * fst tls + j) =
                  (if has_ink pixels width (tile_start j tw) (tile_end j tw width)
                        (tile_start r th) (tile_end r th height)
                   then 255 else 0)) \<and>
           (\<forall>k. k < length presence \<and> k < tileY * fst tls \<longrightarrow> d ! k = presence ! k)"
  using assms
proof (induction pixels width height tls tw th tileY presence rule: fill_rows.induct)
  case (1 pixels width height tls tw th tileY presence)
  let ?v = "\<lambda>j r. if has_ink pixels width (tile_start j tw) (tile_end j tw width)
                        (tile_start r th) (tile_end r th height)
                 then 255 else (0::nat)"
  show ?case
  proof (cases "tileY < snd tls")
    case False
    then show ?thesis by (subst fill_rows.simps) simp
  next
    case True
    from fill_row_correct [OF "1.prems", of tls tileY 0 presence]
    obtain d1 where d1: "fill_row pixels width height tls tw th tileY 0 presence = Some d1"
      and len1: "length d1 = length presence"
      and set1: "\<And>j. j < fst tls \<Longrightarrow> tileY * fst tls + j < length presence \<Longrightarrow>
                  d1 ! (tileY * fst tls + j) = ?v j tileY"
      and keep1: "\<And>k. k < length presence \<Longrightarrow>
                  k < tileY * fst tls \<or> tileY * fst tls + fst tls \<le> k \<Longrightarrow>
                  d1 ! k = presence ! k"
      by (simp cong: if_cong) blast
    from "1.IH" [OF True d1 "1.prems"]
    obtain d where d: "fill_rows pixels width height tls tw th (tileY + 1) d1 = Some d"
      and len: "length d = length d1"
      and set: "\<And>r j. tileY + 1 \<le> r \<Longrightarrow> r < snd tls \<Longrightarrow> j < fst tls \<Longrightarrow>
                  r * fst tls + j < length d1 \<Longrightarrow> d ! (r * fst tls + j) = ?v j r"
      and keep: "\<And>k. k < length d1 \<Longrightarrow> k < (tileY + 1) * fst tls \<Longrightarrow> d ! k = d1 ! k"
      by (simp cong: if_cong) blast
    have res: "fill_rows pixels width height tls tw th tileY presence = Some d"
      using True d1 d by (subst fill_rows.simps) simp
    have "d ! (r * fst tls + j) = ?v j r"
      if "tileY \<le> r" "r < snd tls" "j < fst tls" "r * fst tls + j < length presence" for r j
    proof (cases "r = tileY")
      case True
      with that have "d ! (r * fst tls + j) = d1 ! (r * fst tls + j)"
        by (intro keep) (simp_all add: len1)
      with True that set1 [of j] show ?thesis by simp
    next
      case False
      with that set [of r j] show ?thesis by (simp add: len1)
    qed
    moreover have "d ! k = presence ! k" if "k < length presence" "k < tileY * fst tls" for k
    proof -
      from that have "d ! k = d1 ! k" by (intro keep) (simp_all add: len1)
      with that keep1 [of k] show ?thesis by simp
    qed
    ultimately show ?thesis using res len len1 by simp
  qed
qed

lemma tile_index_bound:
  assumes "tileX < tx" and "tileY < ty"
  shows "tileY * tx + tileX < tx * (ty::nat)"
proof -
  from assms have "tileY * tx + tileX < (tileY + 1) * tx" by simp
  also from assms have "(tileY + 1) * tx \<le> ty * tx" by (intro mult_le_mono1) simp
  finally show ?thesis by (simp add: mult.commute)
qed

text \<open>
  Claim C3, as amended.  For a pixel array of four bytes per pixel of a
  \<open>width\<close> by \<open>height\<close> surface and a grid of a whole number of tiles, at least one,
  per axis, the presence extraction returns an array with one byte per tile, and the
  byte of tile \<open>(tileX, tileY)\<close> is 255 if some pixel with non-zero alpha lies in the
  tile's rectangle and 0 otherwise.  The rectangle is the one \<open>scanTileForText\<close>
  computes: in each axis from \<open>floor(tileIndex * cellSize)\<close> (inclusive) to
  \<open>min(floor(tileIndex * cellSize) + ceil(cellSize), surfaceExtent)\<close> (exclusive),
  where the cell size \<open>surfaceExtent / tileCount\<close> and the product
  \<open>tileIndex * cellSize\<close> are the double-precision values JavaScript computes.
  The result is \<open>Some\<close>: no read of the scan falls outside the pixel array.
\<close>

theorem presence_extraction:
  assumes "0 < fst tls" and "0 < snd tls" and "0 \<le> width" and "0 \<le> height"
    and "int (length pixels) = 4 * width * height"
  shows "\<exists>presence. presenceData pixels width height tls = Some presence \<and>
           length presence = fst tls * snd tls \<and>
           (\<forall>tileX tileY. tileX < fst tls \<and> tileY < snd tls \<longrightarrow>
              presence ! (tileY * fst tls + tileX) =
                (if tile_has_ink pixels width height tls tileX tileY then 255 else 0))"
proof -
  let ?tw = "cell_size width (fst tls)"
  let ?th = "cell_size height (snd tls)"
  have tw: "0 \<le> ?tw" and th: "0 \<le> ?th"
    using assms by (simp_all add: cell_size_def double_divide_nonneg)
  from fill_rows_correct [OF assms(5) tw th, of tls 0 "replicate (fst tls * snd tls) 0"]
  obtain d where d: "fill_rows pixels width height tls ?tw ?th 0
                       (replicate (fst tls * snd tls) 0) = Some d"
    and len: "length d = fst tls * snd tls"
    and set: "\<And>r j. r < snd tls \<Longrightarrow> j < fst tls \<Longrightarrow> r * fst tls + j < fst tls * snd tls \<Longrightarrow>
               d ! (r * fst tls + j) =
                 (if has_ink pixels width (tile_start j ?tw) (tile_end j ?tw width)
                        (tile_start r ?th) (tile_end r ?th height)
                  then 255 else 0)"
    by (simp cong: if_cong) blast
  have "d ! (tileY * fst tls + tileX) =
          (if tile_has_ink pixels width height tls tileX tileY then 255 else 0)"
    if "tileX < fst tls" "tileY < snd tls" for tileX tileY
    using set [OF that(2) that(1) tile_index_bound [OF that]]
    by (simp add: tile_has_ink_def)
  with d len show ?thesis
    by (simp add: presenceData_def cell_size_def Let_def)
qed

lemma one_dot_presence: "presenceData one_dot 7 1 (4, 1) = Some [0, 0, 255, 0]"
  by (simp add: presenceData_def one_dot_def scanTileForText_def pixel_at_def alpha_index_def
        double_evals fill_row.simps fill_rows.simps scan_row.simps scan_rows.simps)
     (simp add: eval_nat_numeral)

lemma one_dot_spec_ink: "spec_tile_has_ink one_dot 7 1 (4, 1) 1 0"
  unfolding spec_tile_has_ink_def has_ink_def
  by (rule bexI [of _ 0], rule bexI [of _ 3])
     (simp_all add: ink_at_def pixel_at_def alpha_index_def one_dot_def spec_tile_start_def
        spec_tile_end_def)

text \<open>
  Claim C3 as the specification states it, with the upper bound
  \<open>min(ceil((tileIndex + 1) * cellSize), surfaceExtent)\<close>, fails on the 7 by 1 surface
  whose only inked pixel is \<open>x = 3\<close>, cut into 4 by 1 tiles of width 1.75: the
  specification's rectangle of tile 1 is \<open>[1, 4)\<close> and holds the inked pixel, but the
  scan of tile 1 covers \<open>[1, 3)\<close> and stores 0.  (Every number of this example is a
  multiple of a quarter; none is rounded.)
\<close>

theorem spec_rectangle_counterexample:
  "presenceData one_dot 7 1 (4, 1) = Some [0, 0, 255, 0] \<and>
   int (length one_dot) = 4 * 7 * 1 \<and>
   spec_tile_has_ink one_dot 7 1 (4, 1) 1 0 \<and>
   [0, 0, 255, 0] ! (0 * fst (4, 1) + 1) \<noteq> (255::nat)"
  using one_dot_presence one_dot_spec_ink by (simp add: one_dot_def)

text \<open>
  On the surface of 30 pixels cut into 22 tiles, tile 11 starts at pixel 14 and covers
  \<open>[14, 16)\<close>, which holds the inked pixel; the rectangle of the exact product,
  \<open>[15, 17)\<close>, does not.
\<close>

lemma dot_14_ink: "ink_at dot_14 30 x 0 \<longleftrightarrow> x = 14"
proof (cases "0 \<le> x \<and> x < 30")
  case True
  then have "nat (x * 4 + 3) < 120" by linarith
  moreover from True have "59 = nat (x * 4 + 3) \<longleftrightarrow> x = 14" by auto
  ultimately show ?thesis
    using True by (simp add: ink_at_def pixel_at_def alpha_index_def dot_14_def nth_list_update)
next
  case False
  then show ?thesis
    by (auto simp: ink_at_def pixel_at_def alpha_index_def dot_14_def)
qed

lemma dot_14_tile_11:
  "tile_has_ink dot_14 30 1 (22, 1) 11 0"
  "\<not> spec_tile_has_ink dot_14 30 1 (22, 1) 11 0"
proof -
  have row: "y \<in> {0..<1} \<longleftrightarrow> y = 0" for y :: int by auto
  have code: "tile_start 11 (cell_size 30 22) = 14" "tile_end 11 (cell_size 30 22) 30 = 16"
    "tile_start 0 (cell_size 1 1) = 0" "tile_end 0 (cell_size 1 1) 1 = 1"
    by (simp_all add: tile_start_def tile_end_def cell_size_def double_evals)
  have spec: "spec_tile_start 11 (30 / 22) = 15" "spec_tile_end 11 (30 / 22) 30 = 17"
    "spec_tile_start 0 (1 / 1) = 0" "spec_tile_end 0 (1 / 1) 1 = 1"
    by (simp_all add: spec_tile_start_def spec_tile_end_def)
  have "has_ink dot_14 30 14 16 0 1"
    unfolding has_ink_def Bex_def row by (simp add: dot_14_ink)
  then show "tile_has_ink dot_14 30 1 (22, 1) 11 0"
    unfolding tile_has_ink_def fst_conv snd_conv of_int_1 of_nat_1 by (simp only: code)
  have "\<not> has_ink dot_14 30 15 17 0 1"
    unfolding has_ink_def Bex_def row by (simp add: dot_14_ink)
  then show "\<not> spec_tile_has_ink dot_14 30 1 (22, 1) 11 0"
    unfolding spec_tile_has_ink_def fst_conv snd_conv
    using spec by simp
qed

theorem presence_extraction_witness:
  "0 < fst (4::nat, 1::nat) \<and> 0 < snd (4::nat, 1::nat) \<and>
   int (length one_dot) = 4 * 7 * 1 \<and>
   presenceData one_dot 7 1 (4, 1) = Some [0, 0, 255, 0] \<and>
   tile_has_ink one_dot 7 1 (4, 1) 2 0 \<and>
   \<not> tile_has_ink one_dot 7 1 (4, 1) 1 0 \<and>
   int (length dot_14) = 4 * 30 * 1 \<and>
   tile_start 11 (cell_size 30 22) = 14 \<and>
   (\<exists>presence. presenceData dot_14 30 1 (22, 1) = Some presence \<and>
      length presence = 22 \<and> presence ! 11 = 255)"
proof -
  have l14: "int (length dot_14) = 4 * 30 * 1" by (simp add: dot_14_def)
  from presence_extraction [of "(22, 1)" 30 1 dot_14, OF _ _ _ _ l14]
  obtain wide where w: "presenceData dot_14 30 1 (22, 1) = Some wide"
    and wl: "length wide = 22"
    and wv: "\<And>tileX tileY. tileX < 22 \<Longrightarrow> tileY < 1 \<Longrightarrow>
              wide ! (tileY * 22 + tileX) =
                (if tile_has_ink dot_14 30 1 (22, 1) tileX tileY then 255 else 0)"
    by auto
  from wv [of 11 0] dot_14_tile_11(1) have "wide ! 11 = 255" by simp
  with w wl have wide: "\<exists>presence. presenceData dot_14 30 1 (22, 1) = Some presence \<and>
      length presence = 22 \<and> presence ! 11 = 255"
    by blast
  have l: "int (length one_dot) = 4 * 7 * 1" by (simp add: one_dot_def)
  from presence_extraction [of "(4, 1)" 7 1 one_dot, OF _ _ _ _ l]
  obtain presence where p: "presenceData one_dot 7 1 (4, 1) = Some presence"
    and v: "\<And>tileX tileY. tileX < 4 \<Longrightarrow> tileY < 1 \<Longrightarrow>
              presence ! (tileY * 4 + tileX) =
                (if tile_has_ink one_dot 7 1 (4, 1) tileX tileY then 255 else 0)"
    by auto
  from p one_dot_presence have eq: "presence = [0, 0, 255, 0]" by simp
  from v [of 2 0] v [of 1 0] have "tile_has_ink one_dot 7 1 (4, 1) 2 0"
    "\<not> tile_has_ink one_dot 7 1 (4, 1) 1 0"
    by (simp_all add: eq split: if_splits)
  with l l14 wide one_dot_presence rounding_moves_tile_start(1) show ?thesis by simp
qed

subsection \<open>Timers and GPU resources\<close>

lemma timer_inv_resize: "timer_inv s \<Longrightarrow> timer_inv (resize width height s)"
  by (cases "timers s")
     (auto simp: timer_inv_def truthy_def list_all_iff split: option.splits)

lemma timer_inv_fire: "timer_inv s \<Longrightarrow> timer_inv (fire tm s)"
  by (auto simp: timer_inv_def list_all_iff)

lemma timer_inv_reachable: "reachable s \<Longrightarrow> timer_inv s"
proof (induction rule: reachable.induct)
  case (constructed t0 canvas options s)
  then show ?case by (auto dest!: construct_Inr simp: timer_inv_def)
next
  case (hovered s hover)
  from hovered.IH show ?case by (simp add: timer_inv_def)
next
  case (resized s width height)
  from resized.IH show ?case by (rule timer_inv_resize)
next
  case (framed s t)
  show ?case
  proof (rule run_frame_inv [where P = timer_inv])
    show "timer_inv s" by (rule framed.IH)
    show "\<And>s. timer_inv s \<Longrightarrow> timer_inv (animate s)"
      by (simp add: timer_inv_def)
    show "\<And>s v q. timer_inv s \<Longrightarrow> timer_inv (s\<lparr>now := v, raf_queue := q\<rparr>)"
      by (simp add: timer_inv_def)
  qed
next
  case (advanced s t)
  show ?case
  proof (rule advance_to_inv [where P = timer_inv])
    show "timer_inv s" by (rule advanced.IH)
    show "\<And>tm s. timer_inv s \<Longrightarrow> timer_inv (fire tm s)"
      by (rule timer_inv_fire)
    show "\<And>s v. timer_inv s \<Longrightarrow> timer_inv (s\<lparr>now := v\<rparr>)"
      by (simp add: timer_inv_def)
  qed
qed

lemma current_resources_simps [simp]:
  "current_resources (setHover hover s) = current_resources s"
  "current_resources (resize width height s) = current_resources s"
  "current_resources (animate s) = current_resources s"
  "current_resources (s\<lparr>now := v\<rparr>) = current_resources s"
  "current_resources (s\<lparr>now := v, raf_queue := q\<rparr>) = current_resources s"
  by (simp_all add: current_resources_def)

lemma current_resources_fire:
  "current_resources (fire tm s) =
     [next_id s, next_id s + 1, next_id s + 2, next_id s + 3, next_id s + 4, next_id s + 5,
      renderer s, material s, mesh_geometry s]"
  by (simp add: current_resources_def fire_def resize_callback_uniforms)

lemma gpu_fire:
  "gpu_created (fire tm s) =
     gpu_created s @ [next_id s, next_id s + 1, next_id s + 2, next_id s + 3, next_id s + 4,
                      next_id s + 5]"
  "gpu_disposed (fire tm s) =
     gpu_disposed s @
     [handle (uTexA (uniforms s)), handle (uTexB (uniforms s)), handle (uTexC (uniforms s)),
      handle (uPresenceA (uniforms s)), handle (uPresenceB (uniforms s)),
      handle (uPresenceC (uniforms s))]"
  by (simp_all add: fire_def)

lemma gpu_swap:
  fixes n m :: nat
  assumes "distinct (D @ old @ rest)" and "set C = set (D @ old @ rest)"
    and "\<forall>r \<in> set C. r < n" and "distinct new" and "\<forall>r \<in> set new. n \<le> r \<and> r < m"
    and "n \<le> m"
  shows "distinct ((D @ old) @ new @ rest) \<and>
         set (C @ new) = set ((D @ old) @ new @ rest) \<and>
         (\<forall>r \<in> set (C @ new). r < m)"
proof -
  from assms(2,3) have below: "\<forall>r \<in> set D \<union> set old \<union> set rest. r < n" by auto
  have disj: "set new \<inter> (set D \<union> set old \<union> set rest) = {}"
  proof (rule ccontr)
    assume "set new \<inter> (set D \<union> set old \<union> set rest) \<noteq> {}"
    then obtain r where r: "r \<in> set new" "r \<in> set D \<union> set old \<union> set rest" by blast
    from r(1) assms(5) have "n \<le> r" by blast
    moreover from r(2) below have "r < n" by blast
    ultimately show False by simp
  qed
  from assms(1,4) disj have "distinct ((D @ old) @ new @ rest)" by auto
  moreover from assms(2) have "set (C @ new) = set ((D @ old) @ new @ rest)" by auto
  moreover have "\<forall>r \<in> set (C @ new). r < m"
  proof
    fix r assume "r \<in> set (C @ new)"
    then consider "r \<in> set C" | "r \<in> set new" by auto
    then show "r < m"
    proof cases
      case 1
      with assms(3) have "r < n" by blast
      with assms(6) show ?thesis by simp
    next
      case 2
      with assms(5) show ?thesis by blast
    qed
  qed
  ultimately show ?thesis by blast
qed

lemma gpu_inv_fire:
  assumes "gpu_inv s"
  shows "gpu_inv (fire tm s)"
proof -
  let ?n = "next_id s"
  let ?new = "[?n, ?n + 1, ?n + 2, ?n + 3, ?n + 4, ?n + 5]"
  let ?old = "[handle (uTexA (uniforms s)), handle (uTexB (uniforms s)),
      handle (uTexC (uniforms s)), handle (uPresenceA (uniforms s)),
      handle (uPresenceB (uniforms s)), handle (uPresenceC (uniforms s))]"
  let ?rest = "[renderer s, material s, mesh_geometry s]"
  have cur: "current_resources s = ?old @ ?rest"
    by (simp add: current_resources_def)
  have all: "distinct (gpu_disposed s @ ?old @ ?rest) \<and>
      set (gpu_created s) = set (gpu_disposed s @ ?old @ ?rest) \<and>
      (\<forall>r \<in> set (gpu_created s). r < ?n)"
    using assms unfolding gpu_inv_def cur list_all_iff by blast
  then have d: "distinct (gpu_disposed s @ ?old @ ?rest)"
    and c: "set (gpu_created s) = set (gpu_disposed s @ ?old @ ?rest)"
    and b: "\<forall>r \<in> set (gpu_created s). r < ?n"
    by blast+
  have n: "distinct ?new" "\<forall>r \<in> set ?new. ?n \<le> r \<and> r < ?n + 6" "?n \<le> ?n + 6"
    by simp_all
  have cur': "current_resources (fire tm s) = ?new @ ?rest"
    by (simp add: current_resources_fire)
  from gpu_swap [OF d c b n]
  have "distinct ((gpu_disposed s @ ?old) @ ?new @ ?rest)"
    and "set (gpu_created s @ ?new) = set ((gpu_disposed s @ ?old) @ ?new @ ?rest)"
    and "\<forall>r \<in> set (gpu_created s @ ?new). r < ?n + 6"
    by blast+
  then show ?thesis
    unfolding gpu_inv_def gpu_fire cur' list_all_iff fire_fields by blast
qed

lemma gpu_inv_mono:
  assumes "gpu_inv s" and "gpu_disposed s' = gpu_disposed s"
    and "current_resources s' = current_resources s" and "gpu_created s' = gpu_created s"
    and "next_id s \<le> next_id s'"
  shows "gpu_inv s'"
proof -
  from assms(1) have "\<forall>r \<in> set (gpu_created s). r < next_id s"
    by (simp add: gpu_inv_def list_all_iff)
  with assms(5) have "\<forall>r \<in> set (gpu_created s). r < next_id s'" by fastforce
  with assms(1-4) show ?thesis by (simp add: gpu_inv_def list_all_iff)
qed

lemma gpu_inv_reachable: "reachable s \<Longrightarrow> gpu_inv s"
proof (induction rule: reachable.induct)
  case (constructed t0 canvas options s)
  then show ?case
    by (auto dest!: construct_Inr simp: gpu_inv_def current_resources_def createUniforms_def)
next
  case (hovered s hover)
  from hovered.IH show ?case by (simp add: gpu_inv_def)
next
  case (resized s width height)
  from resized.IH show ?case by (rule gpu_inv_mono) simp_all
next
  case (framed s t)
  show ?case
  proof (rule run_frame_inv [where P = gpu_inv])
    show "gpu_inv s" by (rule framed.IH)
    show "\<And>s. gpu_inv s \<Longrightarrow> gpu_inv (animate s)"
      by (erule gpu_inv_mono) simp_all
    show "\<And>s v q. gpu_inv s \<Longrightarrow> gpu_inv (s\<lparr>now := v, raf_queue := q\<rparr>)"
      by (simp add: gpu_inv_def)
  qed
next
  case (advanced s t)
  show ?case
  proof (rule advance_to_inv [where P = gpu_inv])
    show "gpu_inv s" by (rule advanced.IH)
    show "\<And>tm s. gpu_inv s \<Longrightarrow> gpu_inv (fire tm s)"
      by (rule gpu_inv_fire)
    show "\<And>s v. gpu_inv s \<Longrightarrow> gpu_inv (s\<lparr>now := v\<rparr>)"
      by (simp add: gpu_inv_def)
  qed
qed


lemma destroy_fields:
  "raf_queue (destroy s) =
     (case animationFrame s of
        Some i \<Rightarrow> filter (\<lambda>j. j \<noteq> i) (raf_queue s) | None \<Rightarrow> raf_queue s)"
  "timers (destroy s) =
     (if truthy (resizeTimeout s)
      then filter (\<lambda>t. timer_id t \<noteq> the (resizeTimeout s)) (timers s) else timers s)"
  "gpu_disposed (destroy s) = gpu_disposed s @ current_resources s"
  "gpu_created (destroy s) = gpu_created s"
  "uniforms (destroy s) = uniforms s"
  "now (destroy s) = now s"
  by (simp_all add: destroy_def cancelAnimationFrame_def clearTimeout_def dispose_def
      current_resources_def Let_def split: option.splits)

lemma count_list_distinct:
  "distinct xs \<Longrightarrow> x \<in> set xs \<Longrightarrow> count_list xs x = 1"
  by (induction xs) auto

lemma destroy_cancels:
  assumes "reachable s"
  shows "raf_queue (destroy s) = []" and "timers (destroy s) = []"
proof -
  from raf_inv_reachable [OF assms] show "raf_queue (destroy s) = []"
    by (auto simp: raf_inv_def destroy_fields)
  from timer_inv_reachable [OF assms] show "timers (destroy s) = []"
    by (cases "timers s")
       (auto simp: timer_inv_def destroy_fields truthy_def list_all_iff filter_empty_conv)
qed

text \<open>
  Claim C9.  After \<open>destroy\<close> on a live engine no frame callback and no timer is
  pending: a later animation frame or any passing of time changes nothing but the
  host's clock.  \<open>destroy\<close> creates nothing and disposes, in order, of the three text
  textures, the three presence textures, the renderer, the material and the geometry;
  afterwards each of these, and every GPU resource ever created for the engine, has
  been disposed of exactly once.
\<close>

theorem destroy_releases_everything:
  assumes "reachable s"
  shows "raf_queue (destroy s) = [] \<and> timers (destroy s) = [] \<and>
         run_frame t (destroy s) = (destroy s)\<lparr>now := t\<rparr> \<and>
         advance_to t (destroy s) = (destroy s)\<lparr>now := max (now (destroy s)) t\<rparr> \<and>
         gpu_created (destroy s) = gpu_created s \<and>
         gpu_disposed (destroy s) = gpu_disposed s @ current_resources s \<and>
         (\<forall>r \<in> set (current_resources s). count_list (gpu_disposed (destroy s)) r = 1) \<and>
         (\<forall>r \<in> set (gpu_created (destroy s)). count_list (gpu_disposed (destroy s)) r = 1)"
proof -
  note c = destroy_cancels [OF assms]
  have "(destroy s)\<lparr>now := t, raf_queue := raf_queue (destroy s)\<rparr> = (destroy s)\<lparr>now := t\<rparr>"
    by simp
  then have frame: "run_frame t (destroy s) = (destroy s)\<lparr>now := t\<rparr>"
    by (simp add: run_frame_def c)
  have time: "advance_to t (destroy s) = (destroy s)\<lparr>now := max (now (destroy s)) t\<rparr>"
    by (simp add: advance_to_def c Let_def)
  from gpu_inv_reachable [OF assms]
  have d: "distinct (gpu_disposed s @ current_resources s)"
    and e: "set (gpu_created s) = set (gpu_disposed s @ current_resources s)"
    by (simp_all add: gpu_inv_def)
  have once: "count_list (gpu_disposed (destroy s)) r = 1"
    if "r \<in> set (gpu_disposed s @ current_resources s)" for r
    unfolding destroy_fields using d that by (rule count_list_distinct)
  from c frame time once e show ?thesis
    by (simp add: destroy_fields)
qed

subsection \<open>Resize bursts\<close>

lemma advance_to_none_due:
  "none_due t s \<Longrightarrow> advance_to t s = s\<lparr>now := max (now s) t\<rparr>"
proof -
  assume "none_due t s"
  then have "filter (\<lambda>tm. timer_due tm \<le> t) (timers s) = []"
    by (auto simp: none_due_def list_all_iff filter_empty_conv)
  then show ?thesis by (simp add: advance_to_def Let_def)
qed

lemma resize_clears:
  assumes "timer_inv s"
  shows "(if truthy (resizeTimeout s)
          then filter (\<lambda>t. timer_id t \<noteq> the (resizeTimeout s)) (timers s)
          else timers s) = []"
  using assms
  by (cases "timers s")
     (auto simp: timer_inv_def truthy_def list_all_iff filter_empty_conv)

lemma bound_textures_simps [simp]:
  "bound_textures (setHover hover s) = bound_textures s"
  "bound_textures (resize width height s) = bound_textures s"
  "bound_textures (animate s) = bound_textures s"
  "bound_textures (s\<lparr>now := v\<rparr>) = bound_textures s"
  "bound_textures (s\<lparr>now := v, raf_queue := q\<rparr>) = bound_textures s"
  by (simp_all add: bound_textures_def)

lemma now_run_frame: "now (run_frame t s) = t"
proof -
  have "now (fold (\<lambda>i. animate) q s') = now s'" for q :: "nat list" and s'
    by (induction q arbitrary: s') simp_all
  then show ?thesis by (simp add: run_frame_def)
qed

text \<open>A first \<open>resize\<close> call, or one that follows while nothing is due.\<close>

lemma resize_pending:
  assumes "timer_inv s" and "none_due t s" and "now s \<le> t"
   and "gpu_created s = gpu_created s0" and "gpu_disposed s = gpu_disposed s0"
   and "bound_textures s = bound_textures s0" and "uTiles (uniforms s) = uTiles (uniforms s0)"
   and "config s = config s0" and "this_tiles s = this_tiles s0"
   and "useTileDimensions s = useTileDimensions s0"
  shows "pending_after s0 t width height (resize width height (advance_to t s))"
proof -
  have adv: "advance_to t s = s\<lparr>now := t\<rparr>"
    using advance_to_none_due [OF assms(2)] assms(3) by (simp add: max_def)
  have inv: "timer_inv (s\<lparr>now := t\<rparr>)"
    using assms(1) by (simp add: timer_inv_def)
  from assms(1) have pos: "0 < next_id s" by (simp add: timer_inv_def)
  show ?thesis
    unfolding adv pending_after_def
    using resize_clears [OF inv] pos assms(4-10) by simp
qed

lemma pending_timer_inv:
  assumes "pending_after s0 t width height s"
  shows "timer_inv s"
proof -
  from assms obtain tm where tm: "timers s = [tm]"
    by (auto simp: pending_after_def)
  with assms show ?thesis
    by (cases "timer_id tm = 0") (auto simp: pending_after_def timer_inv_def)
qed

lemma pending_none_due:
  assumes "pending_after s0 tr width height s" and "t - tr < resizeDebounceMs (config s0)"
  shows "none_due t s"
proof -
  from assms(1) obtain tm where tm: "timers s = [tm]"
    "timer_due tm = tr + max 0 (resizeDebounceMs (config s0))"
    by (auto simp: pending_after_def)
  from assms(2) have "t < tr + max 0 (resizeDebounceMs (config s0))" by simp
  with tm show ?thesis by (simp add: none_due_def)
qed

lemma pending_quiet:
  assumes "pending_after s0 tr width height s" and "t - tr < resizeDebounceMs (config s0)"
    and "now s \<le> t"
  shows "advance_to t s = s\<lparr>now := t\<rparr>"
  using advance_to_none_due [OF pending_none_due [OF assms(1,2)]] assms(3)
  by (simp add: max_def)

lemma pending_now: "pending_after s0 t width height s \<Longrightarrow> pending_after s0 t width height (s\<lparr>now := v\<rparr>)"
  by (simp add: pending_after_def)

lemma pending_setHover:
  "pending_after s0 t width height s \<Longrightarrow> pending_after s0 t width height (setHover hover s)"
  by (simp add: pending_after_def)

lemma pending_run_frame:
  assumes "pending_after s0 t width height s"
  shows "pending_after s0 t width height (run_frame t' s)"
proof (rule run_frame_inv [where P = "pending_after s0 t width height"])
  show "pending_after s0 t width height s" by (rule assms)
  show "\<And>s. pending_after s0 t width height s \<Longrightarrow> pending_after s0 t width height (animate s)"
    by (simp add: pending_after_def)
  show "\<And>s v q. pending_after s0 t width height s \<Longrightarrow>
          pending_after s0 t width height (s\<lparr>now := v, raf_queue := q\<rparr>)"
    by (simp add: pending_after_def)
qed


lemma event_pending:
  assumes "pending_after s0 tr width height s" and "now s \<le> t"
    and "t - tr < resizeDebounceMs (config s0)"
  shows "pending_after s0
           (case e of Resize w h \<Rightarrow> t | _ \<Rightarrow> tr)
           (case e of Resize w h \<Rightarrow> w | _ \<Rightarrow> width)
           (case e of Resize w h \<Rightarrow> h | _ \<Rightarrow> height)
           (run_event t e s)"
    and "now (run_event t e s) = t"
proof -
  note q = pending_quiet [OF assms(1,3,2)]
  from assms(1) have same: "gpu_created s = gpu_created s0" "gpu_disposed s = gpu_disposed s0"
    "bound_textures s = bound_textures s0" "uTiles (uniforms s) = uTiles (uniforms s0)"
    "config s = config s0" "this_tiles s = this_tiles s0"
    "useTileDimensions s = useTileDimensions s0"
    by (simp_all add: pending_after_def)
  show "pending_after s0
           (case e of Resize w h \<Rightarrow> t | _ \<Rightarrow> tr)
           (case e of Resize w h \<Rightarrow> w | _ \<Rightarrow> width)
           (case e of Resize w h \<Rightarrow> h | _ \<Rightarrow> height)
           (run_event t e s)"
  proof (cases e)
    case (Resize w h)
    from resize_pending [OF pending_timer_inv [OF assms(1)]
        pending_none_due [OF assms(1,3)] assms(2) same, of w h]
    show ?thesis by (simp add: Resize)
  next
    case Frame
    from pending_run_frame [OF pending_now [OF assms(1), of t], of t]
    show ?thesis by (simp add: Frame q)
  next
    case (Hover hover)
    from pending_setHover [OF pending_now [OF assms(1), of t], of hover]
    show ?thesis by (simp add: Hover q)
  qed
  show "now (run_event t e s) = t"
    by (cases e) (simp_all add: q now_run_frame)
qed

lemma burst_pending:
  assumes "pending_after s0 tr width height s" and "now s \<le> tp"
    and "within_debounce (resizeDebounceMs (config s0)) tr tp es"
    and "last_resize (tr, width, height) es = (t', width', height')"
  shows "pending_after s0 t' width' height' (run_events es s)"
  using assms
proof (induction es arbitrary: tr tp width height s)
  case Nil
  then show ?case by simp
next
  case (Cons te es)
  obtain t e where te: "te = (t, e)" by (cases te)
  from Cons.prems(3) have gap: "tp \<le> t" "t - tr < resizeDebounceMs (config s0)"
    and rest: "within_debounce (resizeDebounceMs (config s0))
                 (case e of Resize w h \<Rightarrow> t | _ \<Rightarrow> tr) t es"
    by (cases e; simp add: te)+
  from Cons.prems(2) gap(1) have le: "now s \<le> t" by simp
  note step = event_pending [OF Cons.prems(1) le gap(2), of e]
  from Cons.prems(4) have l: "last_resize
       (case e of Resize w h \<Rightarrow> t | _ \<Rightarrow> tr,
        case e of Resize w h \<Rightarrow> w | _ \<Rightarrow> width,
        case e of Resize w h \<Rightarrow> h | _ \<Rightarrow> height) es = (t', width', height')"
    by (cases e) (simp_all add: te)
  from step(2) have "now (run_event t e s) \<le> t" by simp
  from Cons.IH [OF step(1) this rest l] show ?case by (simp add: te)
qed

lemma settle_fires:
  assumes "pending_after s0 t width height s"
    and "t + max 0 (resizeDebounceMs (config s0)) \<le> settle"
  shows "\<exists>i. advance_to settle s =
           (fire \<lparr>timer_id = i, timer_due = t + max 0 (resizeDebounceMs (config s0)),
                   timer_width = width, timer_height = height\<rparr> s)
             \<lparr>now := max (now s) settle\<rparr> \<and>
           timers s = [\<lparr>timer_id = i, timer_due = t + max 0 (resizeDebounceMs (config s0)),
                   timer_width = width, timer_height = height\<rparr>]"
proof -
  from assms(1) obtain tm where tm: "timers s = [tm]"
    "timer_due tm = t + max 0 (resizeDebounceMs (config s0))"
    "timer_width tm = width" "timer_height tm = height"
    by (auto simp: pending_after_def)
  then have eq: "tm = \<lparr>timer_id = timer_id tm,
      timer_due = t + max 0 (resizeDebounceMs (config s0)),
      timer_width = width, timer_height = height\<rparr>"
    by (cases tm) simp
  from tm assms(2) have "advance_to settle s =
      (fire tm s)\<lparr>now := max (now (fire tm s)) settle\<rparr>"
    by (simp add: advance_to_def Let_def)
  moreover from assms(2) tm have "max (now (fire tm s)) settle = max (now s) settle"
    by (simp add: max_def)
  ultimately show ?thesis using tm(1) eq by metis
qed


lemma settled_state:
  assumes "pending_after s0 t width height s"
    and "t + max 0 (resizeDebounceMs (config s0)) \<le> settle"
  shows "gpu_created (advance_to settle s) =
           gpu_created s0 @ map handle (bound_textures (advance_to settle s))"
    and "gpu_disposed (advance_to settle s) = gpu_disposed s0 @ map handle (bound_textures s0)"
    and "map source_canvas (bound_textures (advance_to settle s)) =
           [createTextCanvas (config s0) (textA (config s0)) width height,
            createTextCanvas (config s0) (textB (config s0)) width height,
            createTextCanvas (config s0) (textC (config s0)) width height,
            createTextCanvas (config s0) (textA (config s0)) width height,
            createTextCanvas (config s0) (textB (config s0)) width height,
            createTextCanvas (config s0) (textC (config s0)) width height]"
    and "timers (advance_to settle s) = []"
    and "renderer_size (advance_to settle s) = (width, height)"
    and "uResolution (uniforms (advance_to settle s)) = (width, height)"
    and "this_tiles (advance_to settle s) =
           (if useTileDimensions s0 then calculateTiles (config s0) width height
            else this_tiles s0)"
    and "uTiles (uniforms (advance_to settle s)) =
           (if useTileDimensions s0 then calculateTiles (config s0) width height
            else uTiles (uniforms s0))"
    and "map texture_tiles (bound_textures (advance_to settle s)) =
           [None, None, None,
            Some (this_tiles (advance_to settle s)), Some (this_tiles (advance_to settle s)),
            Some (this_tiles (advance_to settle s))]"
proof -
  from settle_fires [OF assms] obtain i where
    f: "advance_to settle s =
           (fire \<lparr>timer_id = i, timer_due = t + max 0 (resizeDebounceMs (config s0)),
                   timer_width = width, timer_height = height\<rparr> s)
             \<lparr>now := max (now s) settle\<rparr>"
    and tm: "timers s = [\<lparr>timer_id = i, timer_due = t + max 0 (resizeDebounceMs (config s0)),
                   timer_width = width, timer_height = height\<rparr>]"
    by blast
  from assms(1) have p:
    "gpu_created s = gpu_created s0" "gpu_disposed s = gpu_disposed s0"
    "uTiles (uniforms s) = uTiles (uniforms s0)"
    "uResolution (uniforms s) = (width, height)"
    "renderer_size s = (width, height)" "config s = config s0"
    "this_tiles s = this_tiles s0" "useTileDimensions s = useTileDimensions s0"
    by (simp_all add: pending_after_def)
  from assms(1) have b: "bound_textures s = bound_textures s0"
    by (simp add: pending_after_def)
  show "gpu_created (advance_to settle s) =
           gpu_created s0 @ map handle (bound_textures (advance_to settle s))"
    unfolding f by (simp add: fire_def bound_textures_def resize_callback_uniforms p)
  show "gpu_disposed (advance_to settle s) = gpu_disposed s0 @ map handle (bound_textures s0)"
    unfolding f b [symmetric] by (simp add: fire_def bound_textures_def p)
  show "map source_canvas (bound_textures (advance_to settle s)) =
           [createTextCanvas (config s0) (textA (config s0)) width height,
            createTextCanvas (config s0) (textB (config s0)) width height,
            createTextCanvas (config s0) (textC (config s0)) width height,
            createTextCanvas (config s0) (textA (config s0)) width height,
            createTextCanvas (config s0) (textB (config s0)) width height,
            createTextCanvas (config s0) (textC (config s0)) width height]"
    unfolding f by (simp add: fire_def bound_textures_def resize_callback_uniforms p)
  show "timers (advance_to settle s) = []"
    unfolding f by (simp add: tm)
  show "renderer_size (advance_to settle s) = (width, height)"
    unfolding f by (simp add: p)
  show "uResolution (uniforms (advance_to settle s)) = (width, height)"
    unfolding f by (simp add: p)
  show "this_tiles (advance_to settle s) =
           (if useTileDimensions s0 then calculateTiles (config s0) width height
            else this_tiles s0)"
    unfolding f by (simp add: fire_def p)
  show "uTiles (uniforms (advance_to settle s)) =
           (if useTileDimensions s0 then calculateTiles (config s0) width height
            else uTiles (uniforms s0))"
    unfolding f by (simp add: fire_def resize_callback_uniforms p)
  show "map texture_tiles (bound_textures (advance_to settle s)) =
           [None, None, None,
            Some (this_tiles (advance_to settle s)), Some (this_tiles (advance_to settle s)),
            Some (this_tiles (advance_to settle s))]"
    unfolding f by (simp add: fire_def bound_textures_def resize_callback_uniforms p)
qed

text \<open>
  Claim C8.  Take a live engine with no timer due by \<open>t\<close> and a run of events that
  starts with a \<open>resize\<close> call at \<open>t\<close>, in which every event (a further \<open>resize\<close>
  call, a frame or a hover call) comes less than \<open>resizeDebounceMs\<close> after the latest
  \<open>resize\<close> call before it; let \<open>(t', width', height')\<close> be the last \<open>resize\<close>
  call.  During the run nothing is created or disposed of and the bound textures stay.
  Once the debounce interval after \<open>t'\<close> has passed, exactly the six textures then
  bound have been created since the run began (one regeneration), the six bound before
  have been disposed of, the new ones are made from canvases of size \<open>width'\<close> by
  \<open>height'\<close>, and no timer is left.  In tile-dimension mode \<open>this.tiles\<close> and
  \<open>uTiles\<close> are the grid computed from \<open>width'\<close> and \<open>height'\<close>, and the new
  presence textures are computed for it.  Every single \<open>resize\<close> call sets the
  renderer size and \<open>uResolution\<close> at once and creates nothing.
\<close>

theorem resize_burst_coalesces:
  assumes "reachable s" and "none_due t s" and "now s \<le> t"
    and "within_debounce (resizeDebounceMs (config s)) t t es"
    and "last_resize (t, width, height) es = (t', width', height')"
    and "t' + max 0 (resizeDebounceMs (config s)) \<le> settle"
    and "s' = advance_to settle (run_events ((t, Resize width height) # es) s)"
  shows "gpu_created (run_events ((t, Resize width height) # es) s) = gpu_created s \<and>
         gpu_disposed (run_events ((t, Resize width height) # es) s) = gpu_disposed s \<and>
         bound_textures (run_events ((t, Resize width height) # es) s) = bound_textures s \<and>
         gpu_created s' = gpu_created s @ map handle (bound_textures s') \<and>
         gpu_disposed s' = gpu_disposed s @ map handle (bound_textures s) \<and>
         map source_canvas (bound_textures s') =
           [createTextCanvas (config s) (textA (config s)) width' height',
            createTextCanvas (config s) (textB (config s)) width' height',
            createTextCanvas (config s) (textC (config s)) width' height',
            createTextCanvas (config s) (textA (config s)) width' height',
            createTextCanvas (config s) (textB (config s)) width' height',
            createTextCanvas (config s) (textC (config s)) width' height'] \<and>
         map texture_tiles (bound_textures s') =
           [None, None, None, Some (this_tiles s'), Some (this_tiles s'), Some (this_tiles s')] \<and>
         this_tiles s' =
           (if useTileDimensions s then calculateTiles (config s) width' height'
            else this_tiles s) \<and>
         uTiles (uniforms s') =
           (if useTileDimensions s then calculateTiles (config s) width' height'
            else uTiles (uniforms s)) \<and>
         timers s' = [] \<and>
         renderer_size s' = (width', height') \<and>
         uResolution (uniforms s') = (width', height') \<and>
         renderer_size (resize w h s2) = (w, h) \<and>
         uResolution (uniforms (resize w h s2)) = (w, h) \<and>
         gpu_created (resize w h s2) = gpu_created s2 \<and>
         gpu_disposed (resize w h s2) = gpu_disposed s2"
proof -
  let ?s1 = "resize width height (advance_to t s)"
  let ?sN = "run_events ((t, Resize width height) # es) s"
  have first: "pending_after s t width height ?s1"
    by (rule resize_pending [OF timer_inv_reachable [OF assms(1)] assms(2,3)]) simp_all
  have adv: "advance_to t s = s\<lparr>now := t\<rparr>"
    using advance_to_none_due [OF assms(2)] assms(3) by (simp add: max_def)
  have "now ?s1 \<le> t" by (simp add: adv)
  from burst_pending [OF first this assms(4,5)]
  have p: "pending_after s t' width' height' ?sN" by simp
  then have "gpu_created ?sN = gpu_created s" "gpu_disposed ?sN = gpu_disposed s"
    "bound_textures ?sN = bound_textures s"
    by (simp_all add: pending_after_def)
  with settled_state [OF p assms(6)] show ?thesis
    unfolding assms(7) by simp
qed

lemma reachable_run_events: "reachable s \<Longrightarrow> reachable (run_events es s)"
proof (induction es arbitrary: s)
  case Nil
  then show ?case by simp
next
  case (Cons te es)
  obtain t e where te: "te = (t, e)" by (cases te)
  from Cons.prems have "reachable (run_event t e s)"
    by (cases e) (auto intro: reachable.intros)
  from Cons.IH [OF this] show ?case by (simp add: te)
qed

lemma after_burst_reachable: "reachable after_burst"
  unfolding after_burst_def
  by (intro reachable.advanced reachable_run_events plain_reachable)

theorem resize_burst_coalesces_witness:
  "reachable plain_engine \<and> none_due 10 plain_engine \<and> now plain_engine \<le> 10 \<and>
   within_debounce (resizeDebounceMs (config plain_engine)) 10 10 burst_tail \<and>
   last_resize (10, 100, 50) burst_tail = (120, 200, 100) \<and>
   120 + max 0 (resizeDebounceMs (config plain_engine)) \<le> 220 \<and>
   gpu_created (run_events ((10, Resize 100 50) # burst_tail) plain_engine) =
     gpu_created plain_engine \<and>
   length (gpu_created after_burst) = length (gpu_created plain_engine) + 6 \<and>
   map canvas_width (map source_canvas (bound_textures after_burst)) =
     [200, 200, 200, 200, 200, 200] \<and>
   map canvas_height (map source_canvas (bound_textures after_burst)) =
     [100, 100, 100, 100, 100, 100] \<and>
   this_tiles after_burst = (25, 12) \<and>
   timers after_burst = []"
proof -
  have nd: "none_due 10 plain_engine"
    by (simp add: none_due_def plain_engine_fields)
  have le: "now plain_engine \<le> 10"
    by (simp add: plain_engine_fields)
  have wd: "within_debounce (resizeDebounceMs (config plain_engine)) 10 10 burst_tail"
    by (simp add: burst_tail_def plain_engine_fields plain_config)
  have la: "last_resize (10, 100, 50) burst_tail = (120, 200, 100)"
    by (simp add: burst_tail_def)
  have st: "120 + max 0 (resizeDebounceMs (config plain_engine)) \<le> 220"
    by (simp add: plain_engine_fields plain_config)
  note r = resize_burst_coalesces [OF plain_reachable nd le wd la st after_burst_def,
      of 0 0 plain_engine]
  from r have "gpu_created after_burst =
      gpu_created plain_engine @ map handle (bound_textures after_burst)"
    by blast
  then have "length (gpu_created after_burst) = length (gpu_created plain_engine) + 6"
    by (simp add: bound_textures_def)
  moreover from r have "map source_canvas (bound_textures after_burst) =
           [createTextCanvas (config plain_engine) (textA (config plain_engine)) 200 100,
            createTextCanvas (config plain_engine) (textB (config plain_engine)) 200 100,
            createTextCanvas (config plain_engine) (textC (config plain_engine)) 200 100,
            createTextCanvas (config plain_engine) (textA (config plain_engine)) 200 100,
            createTextCanvas (config plain_engine) (textB (config plain_engine)) 200 100,
            createTextCanvas (config plain_engine) (textC (config plain_engine)) 200 100]"
    by blast
  then have "map canvas_width (map source_canvas (bound_textures after_burst)) =
     [200, 200, 200, 200, 200, 200]"
    "map canvas_height (map source_canvas (bound_textures after_burst)) =
     [100, 100, 100, 100, 100, 100]"
    by (simp_all add: createTextCanvas_def)
  moreover from r have "this_tiles after_burst =
           (if useTileDimensions plain_engine
            then calculateTiles (config plain_engine) 200 100
            else this_tiles plain_engine)"
    by blast
  then have "this_tiles after_burst = (25, 12)"
    by (simp add: plain_engine_fields calculateTiles_def plain_config)
  moreover from r have "timers after_burst = []"
    "gpu_created (run_events ((10, Resize 100 50) # burst_tail) plain_engine) =
       gpu_created plain_engine"
    by blast+
  ultimately show ?thesis
    using plain_reachable nd le wd la st by simp
qed

lemma plain_engine_handles:
  "renderer plain_engine = 1" "material plain_engine = 8" "mesh_geometry plain_engine = 9"
  unfolding construct_Inr [OF plain_engine_eq, THEN conjunct2]
  by simp_all

lemma after_burst_gpu:
  "gpu_created after_burst = [1, 2, 3, 4, 5, 6, 7, 8, 9, 17, 18, 19, 20, 21, 22]"
  "gpu_disposed after_burst = [2, 3, 4, 5, 6, 7]"
  "current_resources after_burst = [17, 18, 19, 20, 21, 22, 1, 8, 9]"
  unfolding after_burst_def burst_tail_def
  by (simp_all add: advance_to_def run_frame_def Let_def plain_engine_fields plain_config
      truthy_def current_resources_fire gpu_fire plain_engine_handles)

theorem destroy_releases_everything_witness:
  "reachable after_burst \<and>
   raf_queue (destroy after_burst) = [] \<and> timers (destroy after_burst) = [] \<and>
   run_frame 1000 (destroy after_burst) = (destroy after_burst)\<lparr>now := 1000\<rparr> \<and>
   gpu_created (destroy after_burst) = [1, 2, 3, 4, 5, 6, 7, 8, 9, 17, 18, 19, 20, 21, 22] \<and>
   gpu_disposed (destroy after_burst) = [2, 3, 4, 5, 6, 7, 17, 18, 19, 20, 21, 22, 1, 8, 9] \<and>
   count_list (gpu_disposed (destroy after_burst)) 17 = 1 \<and>
   count_list (gpu_disposed (destroy after_burst)) 2 = 1"
  using destroy_releases_everything [OF after_burst_reachable, of 1000] after_burst_reachable
  by (simp add: after_burst_gpu)

end
